(* ===== verification/Aps_Prelude.thy ===== *)
theory Aps_Prelude
  imports Main "HOL-Library.Word"
begin

text \<open>
  Shared material of the development: the machine-integer types of the code, memory images of
  integers (the supported hosts are little-endian), byte swapping, segments of byte buffers and
  the overwriting of a segment, and conversions between C strings and byte vectors.
\<close>

unbundle bit_operations_syntax

type_synonym u8 = "8 word"
type_synonym u16 = "16 word"
type_synonym u32 = "32 word"
type_synonym u64 = "64 word"

named_theorems buffer_simps \<open>segments and overwriting of byte buffers\<close>
named_theorems endian_simps \<open>memory images and byte order\<close>

section \<open>Integers with the wrap-around written out\<close>

text \<open>
  \<open>wrap64\<close> is the value of an \<open>uint64_t\<close> expression, \<open>sgn64\<close> the value of a conversion
  to \<open>int64_t\<close>.
\<close>

definition wrap64 :: "nat \<Rightarrow> nat" where
  "wrap64 n = n mod 2 ^ 64"

definition sgn64 :: "int \<Rightarrow> int" where
  "sgn64 z = (z + 2 ^ 63) mod 2 ^ 64 - 2 ^ 63"

definition in_s64 :: "int \<Rightarrow> bool" where
  "in_s64 z \<longleftrightarrow> - (2 ^ 63) \<le> z \<and> z < 2 ^ 63"

lemma wrap64_id [simp]: "n < 2 ^ 64 \<Longrightarrow> wrap64 n = n"
  by (simp add: wrap64_def)

lemma in_s64_nat: "n < 2 ^ 63 \<Longrightarrow> in_s64 (int n)"
  by (simp add: in_s64_def)

lemma sgn64_id: "in_s64 z \<Longrightarrow> sgn64 z = z"
  by (simp add: sgn64_def in_s64_def)

lemma sgn64_in [simp, intro]: "in_s64 (sgn64 z)"
proof -
  have "0 \<le> (z + 2 ^ 63) mod 2 ^ 64" "(z + 2 ^ 63) mod 2 ^ 64 < 2 ^ 64" by simp_all
  then show ?thesis unfolding in_s64_def sgn64_def by simp
qed

lemma sgn64_mod: "sgn64 (z mod 2 ^ 64) = sgn64 z"
  by (simp add: sgn64_def mod_simps)

section \<open>Memory images\<close>

fun le_bytes :: "nat \<Rightarrow> nat \<Rightarrow> u8 list" where
  "le_bytes 0 v = []"
| "le_bytes (Suc n) v = word_of_nat v # le_bytes n (v div 256)"

fun le_value :: "u8 list \<Rightarrow> nat" where
  "le_value [] = 0"
| "le_value (b # bs) = unat b + 256 * le_value bs"

definition be_bytes :: "nat \<Rightarrow> nat \<Rightarrow> u8 list" where
  "be_bytes n v = rev (le_bytes n v)"

definition be_value :: "u8 list \<Rightarrow> nat" where
  "be_value bs = le_value (rev bs)"

lemma length_le_bytes [simp]: "length (le_bytes n v) = n"
  by (induction n v rule: le_bytes.induct) auto

lemma length_be_bytes [simp]: "length (be_bytes n v) = n"
  by (simp add: be_bytes_def)

lemma unat_word8_of_nat [simp]: "unat (word_of_nat v :: u8) = v mod 256"
  by (simp add: unat_of_nat)

lemma unat_u8_lt [simp]: "unat (b :: u8) < 256"
  using unsigned_less [of b, where 'a = nat] by simp

lemma le_value_le_bytes [endian_simps]: "le_value (le_bytes n v) = v mod 256 ^ n"
proof (induction n v rule: le_bytes.induct)
  case (2 n v)
  have "v mod (256 * 256 ^ n) = 256 * (v div 256 mod 256 ^ n) + v mod 256"
    by (rule mod_mult2_eq)
  with 2 show ?case by simp
qed simp

lemma le_bytes_le_value [endian_simps]: "le_bytes (length bs) (le_value bs) = bs"
proof (induction bs)
  case (Cons b bs)
  have "unat b + 256 * le_value bs = le_value bs * 256 + unat b" by simp
  then have d: "(unat b + 256 * le_value bs) div 256 = le_value bs"
    by (metis unat_u8_lt div_mult_self3 div_less add.commute add.right_neutral zero_neq_numeral)
  have "(word_of_nat (unat b + 256 * le_value bs) :: u8) = b"
    by (rule word_unat_eq_iff [THEN iffD2]) (simp add: unat_of_nat del: of_nat_add)
  with d Cons show ?case by simp
qed simp

lemma le_value_lt: "le_value bs < 256 ^ length bs"
proof (induction bs)
  case (Cons b bs)
  have "unat b + 256 * le_value bs < 256 * (le_value bs + 1)" using unat_u8_lt [of b] by simp
  also have "\<dots> \<le> 256 * 256 ^ length bs" using Cons by simp
  finally show ?case by simp
qed simp

lemma be_value_be_bytes [endian_simps]: "be_value (be_bytes n v) = v mod 256 ^ n"
  by (simp add: be_value_def be_bytes_def endian_simps)

lemma be_bytes_be_value [endian_simps]: "be_bytes (length bs) (be_value bs) = bs"
  using le_bytes_le_value [of "rev bs"] by (simp add: be_value_def be_bytes_def)

lemma be_value_lt: "be_value bs < 256 ^ length bs"
  using le_value_lt [of "rev bs"] by (simp add: be_value_def)

lemma le_value_append: "le_value (xs @ ys) = le_value xs + 256 ^ length xs * le_value ys"
  by (induction xs) (simp_all add: algebra_simps)

lemma be_value_append: "be_value (xs @ ys) = be_value xs * 256 ^ length ys + be_value ys"
  by (simp add: be_value_def le_value_append mult.commute)

lemma le_bytes_mod: "le_bytes n (v mod 256 ^ n) = le_bytes n v"
  using le_bytes_le_value [of "le_bytes n v"] by (simp add: le_value_le_bytes)

lemma be_bytes_mod: "be_bytes n (v mod 256 ^ n) = be_bytes n v"
  by (simp add: be_bytes_def le_bytes_mod)

lemma be_bytes_times_256: "be_bytes (Suc k) (n * 256) = be_bytes k n @ [0]"
proof -
  have "(word_of_nat (n * 256) :: u8) = 0"
    by (rule word_unat_eq_iff [THEN iffD2]) (simp del: of_nat_mult)
  then show ?thesis by (simp add: be_bytes_def)
qed

lemma le_bytes_numeral:
  "le_bytes (numeral k) v = word_of_nat v # le_bytes (pred_numeral k) (v div 256)"
  by (subst numeral_eq_Suc) (simp only: le_bytes.simps)

lemma le_bytes_pad: "n < 256 ^ k \<Longrightarrow> le_bytes (Suc k) n = le_bytes k n @ [0]"
proof (induction k arbitrary: n)
  case (Suc k)
  then have "n div 256 < 256 ^ k" by (simp add: less_mult_imp_div_less mult.commute)
  then show ?case using Suc.IH [of "n div 256"] by simp
qed simp

lemma be_bytes_pad: "n < 256 ^ k \<Longrightarrow> be_bytes (Suc k) n = 0 # be_bytes k n"
  using le_bytes_pad [of n k] by (simp add: be_bytes_def del: le_bytes.simps)

section \<open>Byte order\<close>

text \<open>
  On a little-endian host \<open>ntohs\<close>, \<open>ntohl\<close> and \<open>ntohll\<close> (and the \<open>hton\<close> functions, which
  are the same functions) reverse the memory image of their argument.
\<close>

definition byte_swap :: "nat \<Rightarrow> nat \<Rightarrow> nat" where
  "byte_swap n v = le_value (rev (le_bytes n v))"

definition ntohs :: "u16 \<Rightarrow> u16" where
  "ntohs v = word_of_nat (byte_swap 2 (unat v))"

definition ntohl :: "u32 \<Rightarrow> u32" where
  "ntohl v = word_of_nat (byte_swap 4 (unat v))"

definition ntohll :: "u64 \<Rightarrow> u64" where
  "ntohll v = word_of_nat (byte_swap 8 (unat v))"

lemma byte_swap_le_value [endian_simps]:
  "length bs = n \<Longrightarrow> byte_swap n (le_value bs) = be_value bs"
  by (auto simp: byte_swap_def be_value_def endian_simps)

lemma byte_swap_lt: "byte_swap n v < 256 ^ n"
  using le_value_lt [of "rev (le_bytes n v)"] by (simp add: byte_swap_def)

lemma byte_swap_byte_swap [endian_simps]: "byte_swap n (byte_swap n v) = v mod 256 ^ n"
proof -
  have "le_bytes n (le_value (rev (le_bytes n v))) = rev (le_bytes n v)"
    using le_bytes_le_value [of "rev (le_bytes n v)"] by simp
  then show ?thesis by (simp add: byte_swap_def le_value_le_bytes)
qed

lemma le_bytes_byte_swap [endian_simps]: "le_bytes n (byte_swap n v) = be_bytes n v"
  using le_bytes_le_value [of "rev (le_bytes n v)"] by (simp add: byte_swap_def be_bytes_def)

lemma unat_ntohs [endian_simps]: "unat (ntohs v) = byte_swap 2 (unat v)"
  using byte_swap_lt [of 2 "unat v"] by (simp add: ntohs_def unat_of_nat)

lemma unat_ntohl [endian_simps]: "unat (ntohl v) = byte_swap 4 (unat v)"
  using byte_swap_lt [of 4 "unat v"] by (simp add: ntohl_def unat_of_nat)

lemma unat_ntohll [endian_simps]: "unat (ntohll v) = byte_swap 8 (unat v)"
  using byte_swap_lt [of 8 "unat v"] by (simp add: ntohll_def unat_of_nat)

lemma ntohs_ntohs [simp]: "ntohs (ntohs v) = v"
proof (rule word_unat_eq_iff [THEN iffD2])
  show "unat (ntohs (ntohs v)) = unat v"
    using unsigned_less [of v, where 'a = nat] by (simp add: endian_simps)
qed

lemma ntohl_ntohl [simp]: "ntohl (ntohl v) = v"
proof (rule word_unat_eq_iff [THEN iffD2])
  show "unat (ntohl (ntohl v)) = unat v"
    using unsigned_less [of v, where 'a = nat] by (simp add: endian_simps)
qed

lemma ntohll_ntohll [simp]: "ntohll (ntohll v) = v"
proof (rule word_unat_eq_iff [THEN iffD2])
  show "unat (ntohll (ntohll v)) = unat v"
    using unsigned_less [of v, where 'a = nat] by (simp add: endian_simps)
qed

section \<open>Segments of buffers\<close>

definition slice :: "nat \<Rightarrow> nat \<Rightarrow> 'a list \<Rightarrow> 'a list" where
  "slice i n xs = take n (drop i xs)"

text \<open>\<open>put xs i ys\<close> overwrites the segment of \<open>xs\<close> that starts at \<open>i\<close> with \<open>ys\<close>.\<close>

definition put :: "'a list \<Rightarrow> nat \<Rightarrow> 'a list \<Rightarrow> 'a list" where
  "put xs i ys = take i xs @ ys @ drop (i + length ys) xs"

text \<open>\<open>holds_at xs i ys\<close>: the segment \<open>ys\<close> lies in \<open>xs\<close> at \<open>i\<close>.\<close>

definition holds_at :: "'a list \<Rightarrow> nat \<Rightarrow> 'a list \<Rightarrow> bool" where
  "holds_at xs i ys \<longleftrightarrow> i + length ys \<le> length xs \<and> slice i (length ys) xs = ys"

lemma length_put [buffer_simps]: "i + length ys \<le> length xs \<Longrightarrow> length (put xs i ys) = length xs"
  by (simp add: put_def)

lemma put_Nil [simp]: "put xs i [] = xs"
  by (simp add: put_def)

lemma put_put_append [buffer_simps]:
  "i + length ys + length zs \<le> length xs \<Longrightarrow> put (put xs i ys) (i + length ys) zs = put xs i (ys @ zs)"
  by (simp add: put_def ac_simps)

lemma nth_put: "i + length ys \<le> length xs \<Longrightarrow>
    put xs i ys ! k = (if i \<le> k \<and> k < i + length ys then ys ! (k - i) else xs ! k)"
  by (auto simp: put_def nth_append)

lemma put_commute:
  assumes "i + length ys \<le> j" and "j + length zs \<le> length xs"
  shows "put (put xs i ys) j zs = put (put xs j zs) i ys"
  using assms by (intro nth_equalityI) (auto simp: buffer_simps nth_put)

lemma put_put_same:
  "length ys = length zs \<Longrightarrow> i + length ys \<le> length xs \<Longrightarrow> put (put xs i ys) i zs = put xs i zs"
  by (intro nth_equalityI) (auto simp: buffer_simps nth_put)

lemma holds_atI: "xs = as @ ys @ bs \<Longrightarrow> i = length as \<Longrightarrow> holds_at xs i ys"
  by (simp add: holds_at_def slice_def)

lemma holds_at_iff: "holds_at xs i ys \<longleftrightarrow> (\<exists>as bs. xs = as @ ys @ bs \<and> length as = i)"
proof
  assume h: "holds_at xs i ys"
  have "xs = take i xs @ take (length ys) (drop i xs) @ drop (i + length ys) xs"
    by (metis append_take_drop_id drop_drop add.commute)
  with h show "\<exists>as bs. xs = as @ ys @ bs \<and> length as = i"
    by (intro exI [of _ "take i xs"] exI [of _ "drop (i + length ys) xs"])
       (auto simp: holds_at_def slice_def)
next
  assume "\<exists>as bs. xs = as @ ys @ bs \<and> length as = i"
  then show "holds_at xs i ys" by (auto intro: holds_atI)
qed

lemma holds_at_append [buffer_simps]:
  "holds_at xs i (ys @ zs) \<longleftrightarrow> holds_at xs i ys \<and> holds_at xs (i + length ys) zs"
proof
  assume "holds_at xs i (ys @ zs)"
  then obtain as bs where "xs = as @ (ys @ zs) @ bs" "length as = i"
    unfolding holds_at_iff by blast
  then show "holds_at xs i ys \<and> holds_at xs (i + length ys) zs"
    by (auto intro: holds_atI [of _ as _ "zs @ bs"] holds_atI [of _ "as @ ys" _ bs])
next
  assume h: "holds_at xs i ys \<and> holds_at xs (i + length ys) zs"
  have "slice i (length ys + length zs) xs = slice i (length ys) xs @ slice (i + length ys) (length zs) xs"
    by (simp add: slice_def take_add add.commute)
  with h show "holds_at xs i (ys @ zs)" by (simp add: holds_at_def)
qed

lemma holds_at_Cons [buffer_simps]:
  "holds_at xs i (y # ys) \<longleftrightarrow> i < length xs \<and> xs ! i = y \<and> holds_at xs (Suc i) ys"
proof -
  have "holds_at xs i (y # ys) \<longleftrightarrow> holds_at xs i [y] \<and> holds_at xs (i + 1) ys"
    using holds_at_append [of xs i "[y]" ys] by simp
  also have "holds_at xs i [y] \<longleftrightarrow> i < length xs \<and> xs ! i = y"
    by (auto simp: holds_at_def slice_def take_Suc hd_drop_conv_nth)
  finally show ?thesis by simp
qed

lemma holds_at_Nil [buffer_simps]: "holds_at xs i [] \<longleftrightarrow> i \<le> length xs"
  by (simp add: holds_at_def slice_def)

lemma holds_at_slice: "holds_at xs i ys \<Longrightarrow> slice i (length ys) xs = ys"
  by (simp add: holds_at_def)

lemma holds_at_le: "holds_at xs i ys \<Longrightarrow> i + length ys \<le> length xs"
  by (simp add: holds_at_def)

section \<open>C strings\<close>

text \<open>
  A \<open>char *\<close> is read up to its terminating NUL: \<open>c_str s\<close> is what \<open>strlen\<close>, \<open>strcmp\<close> and the
  conversion to \<open>std::string\<close> see of the buffer \<open>s\<close> (the buffer's own terminator not included).
\<close>

definition NUL :: char where
  "NUL = CHR 0x00"

definition c_str :: "string \<Rightarrow> string" where
  "c_str s = takeWhile (\<lambda>c. c \<noteq> NUL) s"

definition byte_of_char :: "char \<Rightarrow> u8" where
  "byte_of_char c = of_char c"

definition char_of_byte :: "u8 \<Rightarrow> char" where
  "char_of_byte b = char_of (unat b)"

definition bytes_of :: "string \<Rightarrow> u8 list" where
  "bytes_of s = map byte_of_char s"

definition string_of :: "u8 list \<Rightarrow> string" where
  "string_of bs = map char_of_byte bs"

lemma unat_byte_of_char [simp]: "unat (byte_of_char c) = of_char c"
proof -
  have "(of_char c :: u8) = word_of_nat (of_char c)" by (simp only: of_nat_of_char)
  then show ?thesis by (simp add: byte_of_char_def unat_of_nat del: of_nat_of_char)
qed

lemma char_of_byte_of_char [simp]: "char_of_byte (byte_of_char c) = c"
  by (simp add: char_of_byte_def)

lemma length_bytes_of [simp]: "length (bytes_of s) = length s"
  by (simp add: bytes_of_def)

lemma string_of_bytes_of [simp]: "string_of (bytes_of s) = s"
  by (simp add: string_of_def bytes_of_def comp_def)

lemma length_string_of [simp]: "length (string_of s) = length s"
  by (simp add: string_of_def)

lemma byte_of_char_of_byte [simp]: "byte_of_char (char_of_byte b) = b"
  by (rule word_unat_eq_iff [THEN iffD2]) (simp add: char_of_byte_def)

lemma bytes_of_string_of [simp]: "bytes_of (string_of bs) = bs"
  by (simp add: string_of_def bytes_of_def comp_def)

lemma bytes_of_append: "bytes_of (s @ t) = bytes_of s @ bytes_of t"
  by (simp add: bytes_of_def)

lemma c_str_c_str [simp]: "c_str (c_str s) = c_str s"
  by (simp add: c_str_def takeWhile_idem)

lemma c_str_id: "NUL \<notin> set s \<Longrightarrow> c_str s = s"
  by (auto simp: c_str_def takeWhile_eq_all_conv)

end
