(* ===== verification/C_Machine.thy ===== *)
theory C_Machine
  imports Aps_Prelude
begin

text \<open>
  The outcome of running a piece of the C++ code: it returns, it runs into undefined behaviour
  of the language (with the kind recorded) or ends the process, or it has used up the recursion bound given to it.
  A run that uses up every bound is one that never returns.
\<close>

datatype ub =
    Out_of_bounds nat nat  \<comment> \<open>an access of so many bytes at this offset leaves the object\<close>
  | Bad_shift nat          \<comment> \<open>a shift by at least the width of its operand\<close>
  | Signed_overflow        \<comment> \<open>signed arithmetic leaves the range of its type\<close>
  | Null_deref             \<comment> \<open>a null pointer or end iterator is dereferenced\<close>
  | Uncaught_exception     \<comment> \<open>not undefined: an exception nobody catches ends the process\<close>

datatype 'a c_run = Returns 'a | Undefined ub | Out_of_fuel

fun c_bind :: "'a c_run \<Rightarrow> ('a \<Rightarrow> 'b c_run) \<Rightarrow> 'b c_run" where
  "c_bind (Returns x) f = f x"
| "c_bind (Undefined u) f = Undefined u"
| "c_bind Out_of_fuel f = Out_of_fuel"

fun c_map :: "('a \<Rightarrow> 'b c_run) \<Rightarrow> 'a list \<Rightarrow> 'b list c_run" where
  "c_map f [] = Returns []"
| "c_map f (x # xs) = c_bind (f x) (\<lambda>y. c_bind (c_map f xs) (\<lambda>ys. Returns (y # ys)))"

text \<open>Reading \<open>n\<close> bytes at \<open>i\<close>, and writing bytes at \<open>i\<close>, within a buffer.\<close>

definition c_load :: "'a list \<Rightarrow> nat \<Rightarrow> nat \<Rightarrow> 'a list c_run" where
  "c_load xs i n = (if i + n \<le> length xs then Returns (slice i n xs) else Undefined (Out_of_bounds i n))"

definition c_store :: "'a list \<Rightarrow> nat \<Rightarrow> 'a list \<Rightarrow> 'a list c_run" where
  "c_store xs i ys =
     (if i + length ys \<le> length xs then Returns (put xs i ys)
      else Undefined (Out_of_bounds i (length ys)))"

definition c_nth :: "'a list \<Rightarrow> nat \<Rightarrow> 'a c_run" where
  "c_nth xs i = (if i < length xs then Returns (xs ! i) else Undefined (Out_of_bounds i 1))"

text \<open>The error codes of the socket library: the code only tells the end of the stream from the rest.\<close>

datatype socket_error = Eof | Other_error nat

section \<open>The monad laws and what a run satisfies\<close>

lemma c_bind_Returns_right [simp]: "c_bind m Returns = m"
  by (cases m) auto

lemma c_bind_assoc: "c_bind (c_bind m f) g = c_bind m (\<lambda>x. c_bind (f x) g)"
  by (cases m) auto

lemma c_bind_eq_Returns [simp]:
  "c_bind m f = Returns y \<longleftrightarrow> (\<exists>x. m = Returns x \<and> f x = Returns y)"
  by (cases m) auto

lemma c_bind_eq_Undefined:
  "c_bind m f = Undefined u \<longleftrightarrow> m = Undefined u \<or> (\<exists>x. m = Returns x \<and> f x = Undefined u)"
  by (cases m) auto

lemma c_bind_eq_Out_of_fuel:
  "c_bind m f = Out_of_fuel \<longleftrightarrow> m = Out_of_fuel \<or> (\<exists>x. m = Returns x \<and> f x = Out_of_fuel)"
  by (cases m) auto

lemma c_bind_cong [fundef_cong]:
  "m = m' \<Longrightarrow> (\<And>x. m' = Returns x \<Longrightarrow> f x = f' x) \<Longrightarrow> c_bind m f = c_bind m' f'"
  by (cases m') auto

text \<open>
  \<open>fails_only P m\<close>: whatever undefined behaviour \<open>m\<close> runs into is one that \<open>P\<close> allows.
\<close>

definition fails_only :: "(ub \<Rightarrow> bool) \<Rightarrow> 'a c_run \<Rightarrow> bool" where
  "fails_only P m \<longleftrightarrow> (\<forall>u. m = Undefined u \<longrightarrow> P u)"

named_theorems safe_intros \<open>rules for what undefined behaviour a run can reach\<close>

lemma fails_only_Returns [simp, intro, safe_intros]: "fails_only P (Returns x)"
  by (simp add: fails_only_def)

lemma fails_only_Out_of_fuel [simp, intro, safe_intros]: "fails_only P Out_of_fuel"
  by (simp add: fails_only_def)

lemma fails_only_Undefined [simp]: "fails_only P (Undefined u) \<longleftrightarrow> P u"
  by (simp add: fails_only_def)

lemma fails_only_bind [safe_intros]:
  "fails_only P m \<Longrightarrow> (\<And>x. m = Returns x \<Longrightarrow> fails_only P (f x)) \<Longrightarrow> fails_only P (c_bind m f)"
  by (cases m) auto

lemma fails_only_if [safe_intros]:
  "(b \<Longrightarrow> fails_only P m) \<Longrightarrow> (\<not> b \<Longrightarrow> fails_only P n) \<Longrightarrow> fails_only P (if b then m else n)"
  by simp

lemma fails_only_map:
  "(\<And>x. x \<in> set xs \<Longrightarrow> fails_only P (f x)) \<Longrightarrow> fails_only P (c_map f xs)"
  by (induction xs) (auto intro!: fails_only_bind)

lemma c_map_Returns: "(\<And>x. x \<in> set xs \<Longrightarrow> f x = Returns (g x)) \<Longrightarrow> c_map f xs = Returns (map g xs)"
  by (induction xs) auto

lemma c_map_length: "c_map f xs = Returns ys \<Longrightarrow> length ys = length xs"
  by (induction xs arbitrary: ys) auto

lemma c_load_holds [buffer_simps]: "holds_at xs i ys \<Longrightarrow> n = length ys \<Longrightarrow> c_load xs i n = Returns ys"
  by (auto simp: c_load_def holds_at_def)

lemma c_nth_holds [buffer_simps]: "holds_at xs i (y # ys) \<Longrightarrow> c_nth xs i = Returns y"
  by (auto simp: c_nth_def buffer_simps)

text \<open>
  \<open>refines_fuel m m'\<close>: \<open>m'\<close> is a run of the same code with more fuel, which only matters where
  \<open>m\<close> ran out of it.
\<close>

definition refines_fuel :: "'a c_run \<Rightarrow> 'a c_run \<Rightarrow> bool" where
  "refines_fuel m m' \<longleftrightarrow> m = Out_of_fuel \<or> m' = m"

lemma refines_fuel_refl [simp, intro]: "refines_fuel m m"
  by (simp add: refines_fuel_def)

lemma refines_fuel_Out [simp, intro]: "refines_fuel Out_of_fuel m"
  by (simp add: refines_fuel_def)

lemma refines_fuel_bind [intro]:
  "refines_fuel m m' \<Longrightarrow> (\<And>x. refines_fuel (f x) (f' x)) \<Longrightarrow> refines_fuel (c_bind m f) (c_bind m' f')"
  by (cases m) (auto simp: refines_fuel_def)

end
