(* ===== verification/Plist_Object.thy ===== *)
theory Plist_Object
  imports C_Machine
begin

text \<open>
  Property-list objects (\<open>src/utils/plist.h\<close>, \<open>src/utils/plist.cpp\<close>): the object type, its
  constructors and its getters. A value of type \<open>plist\<close> is a \<open>plist_object_t *\<close>: \<open>PNull\<close> is the
  null pointer, every other constructor an allocated object with its type tag. A string buffer is
  given without its terminator (it may hold a NUL of its own when it comes from the parser), a
  \<open>double\<close> as its 64 bits, an \<open>int64_t\<close> as an \<open>int\<close>. The functions that allocate take the
  allocator's answer as the argument \<open>alloc\<close>: \<open>alloc n\<close> says whether a request of \<open>n\<close> bytes
  succeeds. Objects are never mutated after their construction, so a tree stands for the memory
  they occupy; freeing it (\<open>plist_object_destroy\<close>) is not modelled.
\<close>

type_synonym allocator = "nat \<Rightarrow> bool"

definition PLIST_TYPE_PRIMITIVE :: u8 where "PLIST_TYPE_PRIMITIVE = 0x00"
definition PLIST_PRIMITIVE_TRUE :: u8 where "PLIST_PRIMITIVE_TRUE = 0x08"
definition PLIST_PRIMITIVE_FALSE :: u8 where "PLIST_PRIMITIVE_FALSE = 0x09"
definition PLIST_TYPE_INTEGER :: u8 where "PLIST_TYPE_INTEGER = 0x10"
definition PLIST_TYPE_REAL :: u8 where "PLIST_TYPE_REAL = 0x20"
definition PLIST_TYPE_DATE :: u8 where "PLIST_TYPE_DATE = 0x30"
definition PLIST_TYPE_DATA :: u8 where "PLIST_TYPE_DATA = 0x40"
definition PLIST_TYPE_STRING :: u8 where "PLIST_TYPE_STRING = 0x50"
definition PLIST_TYPE_UNICODE_STRING :: u8 where "PLIST_TYPE_UNICODE_STRING = 0x60"
definition PLIST_TYPE_ARRAY :: u8 where "PLIST_TYPE_ARRAY = 0xA0"
definition PLIST_TYPE_DICT :: u8 where "PLIST_TYPE_DICT = 0xD0"

lemmas plist_type_defs =
  PLIST_TYPE_PRIMITIVE_def PLIST_PRIMITIVE_TRUE_def PLIST_PRIMITIVE_FALSE_def
  PLIST_TYPE_INTEGER_def PLIST_TYPE_REAL_def PLIST_TYPE_DATE_def PLIST_TYPE_DATA_def
  PLIST_TYPE_STRING_def PLIST_TYPE_UNICODE_STRING_def PLIST_TYPE_ARRAY_def PLIST_TYPE_DICT_def

datatype plist =
    PNull
  | PPrimitive u8
  | PInteger int
  | PReal u64
  | PDate "u8 list"
  | PData "u8 list"
  | PString string
  | PUnicode string
  | PArray "plist list"
  | PDict "(string \<times> plist) list"

text \<open>\<open>sizeof(plist_object_t)\<close> and the size of a pointer on the 64-bit hosts.\<close>

definition sizeof_object :: nat where "sizeof_object = 32"
definition sizeof_ptr :: nat where "sizeof_ptr = 8"

section \<open>Constructors\<close>

definition plist_object_true :: "allocator \<Rightarrow> plist" where
  "plist_object_true alloc = (if \<not> alloc sizeof_object then PNull else PPrimitive PLIST_PRIMITIVE_TRUE)"

definition plist_object_false :: "allocator \<Rightarrow> plist" where
  "plist_object_false alloc = (if \<not> alloc sizeof_object then PNull else PPrimitive PLIST_PRIMITIVE_FALSE)"

text \<open>The parameter is an \<open>uint64_t\<close>, the field it is stored in an \<open>int64_t\<close>.\<close>

definition plist_object_integer :: "allocator \<Rightarrow> nat \<Rightarrow> plist" where
  "plist_object_integer alloc value = (if \<not> alloc sizeof_object then PNull else PInteger (sgn64 (int value)))"

definition plist_object_real :: "allocator \<Rightarrow> u64 \<Rightarrow> plist" where
  "plist_object_real alloc value = (if \<not> alloc sizeof_object then PNull else PReal value)"

definition plist_object_data :: "allocator \<Rightarrow> u8 list \<Rightarrow> plist" where
  "plist_object_data alloc value =
     (if \<not> alloc sizeof_object then PNull
      else if \<not> alloc (length value) then PNull
      else PData value)"

definition plist_object_string :: "allocator \<Rightarrow> string \<Rightarrow> plist" where
  "plist_object_string alloc value =
     (if \<not> alloc sizeof_object then PNull
      else if \<not> alloc (length (c_str value) + 1) then PNull
      else PString (c_str value))"

definition plist_object_array :: "allocator \<Rightarrow> plist list \<Rightarrow> plist" where
  "plist_object_array alloc args =
     (if \<not> alloc sizeof_object then PNull
      else if \<not> alloc (length args * sizeof_ptr) then PNull
      else PArray args)"

text \<open>
  The variable arguments are the key and value pairs. The copy of a key is taken to be
  allocated: the code would store a null pointer for it otherwise.
\<close>

definition plist_object_dict :: "allocator \<Rightarrow> (string \<times> plist) list \<Rightarrow> plist" where
  "plist_object_dict alloc args =
     (if \<not> alloc sizeof_object then PNull
      else if \<not> alloc (length args * sizeof_ptr) then PNull
      else PDict (map (\<lambda>(key, v). (c_str key, v)) args))"

section \<open>Getters\<close>

text \<open>
  A getter returns its \<open>int\<close> result and what its out-parameter holds afterwards; \<open>None\<close> for
  the out-parameter is a null pointer.
\<close>

fun plist_object_get_type :: "plist \<Rightarrow> u8" where
  "plist_object_get_type PNull = 0xff"
| "plist_object_get_type (PPrimitive _) = PLIST_TYPE_PRIMITIVE"
| "plist_object_get_type (PInteger _) = PLIST_TYPE_INTEGER"
| "plist_object_get_type (PReal _) = PLIST_TYPE_REAL"
| "plist_object_get_type (PDate _) = PLIST_TYPE_DATE"
| "plist_object_get_type (PData _) = PLIST_TYPE_DATA"
| "plist_object_get_type (PString _) = PLIST_TYPE_STRING"
| "plist_object_get_type (PUnicode _) = PLIST_TYPE_UNICODE_STRING"
| "plist_object_get_type (PArray _) = PLIST_TYPE_ARRAY"
| "plist_object_get_type (PDict _) = PLIST_TYPE_DICT"

definition plist_object_primitive_get_value :: "plist \<Rightarrow> u8 option \<Rightarrow> int \<times> u8 option" where
  "plist_object_primitive_get_value object value =
     (if object = PNull \<or> value = None then (- 1, value)
      else case object of PPrimitive p \<Rightarrow> (0, Some p) | _ \<Rightarrow> (- 2, value))"

definition plist_object_integer_get_value :: "plist \<Rightarrow> int option \<Rightarrow> int \<times> int option" where
  "plist_object_integer_get_value object value =
     (if object = PNull \<or> value = None then (- 1, value)
      else case object of PInteger i \<Rightarrow> (0, Some i) | _ \<Rightarrow> (- 2, value))"

definition plist_object_real_get_value :: "plist \<Rightarrow> u64 option \<Rightarrow> int \<times> u64 option" where
  "plist_object_real_get_value object value =
     (if object = PNull \<or> value = None then (- 1, value)
      else case object of PReal r \<Rightarrow> (0, Some r) | _ \<Rightarrow> (- 2, value))"

definition plist_object_data_get_value ::
  "plist \<Rightarrow> u8 list option \<Rightarrow> nat option \<Rightarrow> int \<times> u8 list option \<times> nat option" where
  "plist_object_data_get_value object value valuelen =
     (if object = PNull \<or> value = None \<or> valuelen = None then (- 1, value, valuelen)
      else case object of PData d \<Rightarrow> (0, Some d, Some (length d)) | _ \<Rightarrow> (- 2, value, valuelen))"

definition plist_object_string_get_value :: "plist \<Rightarrow> string option \<Rightarrow> int \<times> string option" where
  "plist_object_string_get_value object value =
     (if object = PNull \<or> value = None then (- 1, value)
      else case object of PString s \<Rightarrow> (0, Some s) | _ \<Rightarrow> (- 2, value))"

definition plist_object_array_get_value :: "plist \<Rightarrow> nat \<Rightarrow> plist" where
  "plist_object_array_get_value object idx =
     (case object of
        PArray values \<Rightarrow> if length values \<le> idx then PNull else values ! idx
      | _ \<Rightarrow> PNull)"

text \<open>The loop over the entries: the first key that \<open>strcmp\<close> finds equal.\<close>

fun dict_find :: "string \<Rightarrow> (string \<times> plist) list \<Rightarrow> plist" where
  "dict_find key [] = PNull"
| "dict_find key ((k, v) # entries) = (if c_str key = c_str k then v else dict_find key entries)"

definition plist_object_dict_get_value :: "plist \<Rightarrow> string option \<Rightarrow> plist" where
  "plist_object_dict_get_value object key =
     (case (object, key) of
        (PDict entries, Some k) \<Rightarrow> dict_find k entries
      | _ \<Rightarrow> PNull)"

definition plist_object_dict_get_key_value ::
  "plist \<Rightarrow> string option \<Rightarrow> nat \<Rightarrow> plist \<times> string option" where
  "plist_object_dict_get_key_value object pkey idx =
     (case object of
        PDict entries \<Rightarrow>
          (if idx < length entries
           then (snd (entries ! idx), (case pkey of None \<Rightarrow> None | Some _ \<Rightarrow> Some (fst (entries ! idx))))
           else (PNull, pkey))
      | _ \<Rightarrow> (PNull, pkey))"

lemmas plist_getter_defs =
  plist_object_primitive_get_value_def plist_object_integer_get_value_def
  plist_object_real_get_value_def plist_object_data_get_value_def
  plist_object_string_get_value_def plist_object_array_get_value_def
  plist_object_dict_get_value_def plist_object_dict_get_key_value_def

section \<open>What the getters find in what the constructors build\<close>

lemma dict_find_map_of:
  "dict_find key es = (case map_of (map (\<lambda>(k, v). (c_str k, v)) es) (c_str key) of None \<Rightarrow> PNull | Some v \<Rightarrow> v)"
  by (induction es) auto

lemma dict_find_dict:
  "plist_object_dict_get_value (plist_object_dict alloc es) (Some key) =
     (if alloc sizeof_object \<and> alloc (length es * sizeof_ptr) then dict_find key es else PNull)"
proof -
  have "dict_find key (map (\<lambda>(k, v). (c_str k, v)) es) = dict_find key es"
    by (induction es) auto
  then show ?thesis
    by (simp add: plist_object_dict_def plist_object_dict_get_value_def)
qed

text \<open>
  The type tag decides which getter succeeds: each getter returns 0 exactly on the objects of
  its type, and otherwise leaves its out-parameter alone.
\<close>

lemma integer_getter_cases:
  "plist_object_integer_get_value object (Some old) =
     (case object of PNull \<Rightarrow> (- 1, Some old) | PInteger i \<Rightarrow> (0, Some i) | _ \<Rightarrow> (- 2, Some old))"
  by (cases object) (simp_all add: plist_object_integer_get_value_def)

lemma integer_getter_type:
  "fst (plist_object_integer_get_value object (Some old)) = 0 \<longleftrightarrow>
   plist_object_get_type object = PLIST_TYPE_INTEGER"
  by (cases object) (simp_all add: plist_object_integer_get_value_def plist_type_defs)

lemma string_getter_type:
  "fst (plist_object_string_get_value object (Some old)) = 0 \<longleftrightarrow>
   plist_object_get_type object = PLIST_TYPE_STRING"
  by (cases object) (simp_all add: plist_object_string_get_value_def plist_type_defs)

lemma data_getter_type:
  "fst (plist_object_data_get_value object (Some old) (Some n)) = 0 \<longleftrightarrow>
   plist_object_get_type object = PLIST_TYPE_DATA"
  by (cases object) (simp_all add: plist_object_data_get_value_def plist_type_defs)

end
