(* ===== verification/Plist_Integer.thy ===== *)
theory Plist_Integer
  imports Plist_Object
begin

text \<open>
  Integers and reals of the binary format (\<open>src/utils/plist.cpp\<close>): reading them from a buffer,
  writing them to one, and the number of bytes an integer takes. A result \<open>None\<close> of
  \<open>parse_integer\<close> or \<open>parse_real\<close> is the negative return value, with the out-parameter untouched;
  \<open>Some v\<close> the return value \<open>length\<close>, with \<open>v\<close> written to the out-parameter.
\<close>

definition parse_integer :: "u8 list \<Rightarrow> nat \<Rightarrow> nat \<Rightarrow> int option c_run" where
  "parse_integer data dataidx len =
     (if len = 1 then c_bind (c_nth data dataidx) (\<lambda>b. Returns (Some (uint b)))
      else if len = 2 then c_bind (c_load data dataidx 2)
        (\<lambda>bs. let v = (word_of_nat (le_value bs) :: u16) in Returns (Some (uint (ntohs v))))
      else if len = 4 then c_bind (c_load data dataidx 4)
        (\<lambda>bs. let v = (word_of_nat (le_value bs) :: u32) in Returns (Some (uint (ntohl v))))
      else if len = 8 then c_bind (c_load data dataidx 8)
        (\<lambda>bs. let v = (word_of_nat (le_value bs) :: u64) in Returns (Some (sint (ntohll v))))
      else Returns None)"

text \<open>The buffer and the index after the call, and the return value.\<close>

definition serialize_integer :: "u8 list \<Rightarrow> nat \<Rightarrow> nat \<Rightarrow> int \<Rightarrow> (u8 list \<times> nat \<times> int) c_run" where
  "serialize_integer data dataidx len value =
     (if len = 1 then c_bind (c_store data dataidx [word_of_int value])
        (\<lambda>d. Returns (d, dataidx + 1, 1))
      else if len = 2 then
        (let v = ntohs (word_of_int value)
         in c_bind (c_store data dataidx (le_bytes 2 (unat v))) (\<lambda>d. Returns (d, dataidx + 2, 2)))
      else if len = 4 then
        (let v = ntohl (word_of_int value)
         in c_bind (c_store data dataidx (le_bytes 4 (unat v))) (\<lambda>d. Returns (d, dataidx + 4, 4)))
      else if len = 8 then
        (let v = ntohll (word_of_int value)
         in c_bind (c_store data dataidx (le_bytes 8 (unat v))) (\<lambda>d. Returns (d, dataidx + 8, 8)))
      else Returns (data, dataidx, - 1))"

text \<open>
  The conversion of a \<open>float\<close> to a \<open>double\<close> on the bit patterns: infinities and NaNs keep their
  kind (a NaN becomes quiet), zeros their sign, subnormal numbers become normal ones.
\<close>

fun top_bit :: "nat \<Rightarrow> nat" where
  "top_bit n = (if n < 2 then 0 else Suc (top_bit (n div 2)))"

definition float_to_double :: "u32 \<Rightarrow> u64" where
  "float_to_double f =
     (let s = unat f div 2 ^ 31; e = unat f div 2 ^ 23 mod 2 ^ 8; m = unat f mod 2 ^ 23
      in word_of_nat (s * 2 ^ 63 +
           (if e = 255 then 2047 * 2 ^ 52 + (if m = 0 then 0 else (m * 2 ^ 29) OR 2 ^ 51)
            else if e = 0 then
              (if m = 0 then 0
               else (let k = top_bit m in (k + 874) * 2 ^ 52 + (m - 2 ^ k) * 2 ^ (52 - k)))
            else (e + 896) * 2 ^ 52 + m * 2 ^ 29)))"

text \<open>
  The return value is \<open>(int)length\<close>, negative for a length from \<open>2 ^ 31\<close> on (the callers pass
  at most \<open>2 ^ 31\<close>). Whatever the length, a value that is not a \<open>float\<close> is read as eight bytes.
\<close>

definition parse_real :: "u8 list \<Rightarrow> nat \<Rightarrow> nat \<Rightarrow> u64 option c_run" where
  "parse_real data dataidx len =
     c_bind
       (if len = 4 then c_bind (c_load data dataidx 4)
          (\<lambda>bs. Returns (float_to_double (ntohl (word_of_nat (le_value bs)))))
        else c_bind (c_load data dataidx 8) (\<lambda>bs. Returns (ntohll (word_of_nat (le_value bs)))))
       (\<lambda>d. Returns (if len mod 2 ^ 32 < 2 ^ 31 then Some d else None))"

definition integer_length :: "int \<Rightarrow> nat" where
  "integer_length value =
     (if 0 < value \<and> value < 2 ^ 8 then 1
      else if 0 < value \<and> value < 2 ^ 16 then 2
      else if 0 < value \<and> value < 2 ^ 32 then 4
      else 8)"

definition blist_integer_length :: "int \<Rightarrow> nat" where
  "blist_integer_length value =
     (if 0 < value \<and> value < 2 ^ 8 then 0
      else if 0 < value \<and> value < 2 ^ 16 then 1
      else if 0 < value \<and> value < 2 ^ 32 then 2
      else 3)"

section \<open>Lengths\<close>

definition int_width :: "nat \<Rightarrow> bool" where
  "int_width n \<longleftrightarrow> n = 1 \<or> n = 2 \<or> n = 4 \<or> n = 8"

lemma int_width_integer_length [simp, intro]: "int_width (integer_length v)"
  by (simp add: integer_length_def int_width_def)

lemma integer_length_pos [simp]:
  "0 < integer_length v" "1 \<le> integer_length v" "integer_length v \<le> 8" "Suc 0 \<le> integer_length v"
  by (simp_all add: integer_length_def)

text \<open>The marker written before an integer announces exactly the bytes that follow.\<close>

lemma integer_length_marker: "2 ^ blist_integer_length v = integer_length v"
  by (simp add: integer_length_def blist_integer_length_def)

lemma blist_integer_length_le: "blist_integer_length v \<le> 3"
  by (simp add: blist_integer_length_def)

lemma integer_length_fits: "in_s64 v \<Longrightarrow> 0 \<le> v \<Longrightarrow> nat v < 256 ^ integer_length v"
  by (auto simp: integer_length_def in_s64_def nat_less_iff)

lemma integer_length_mono: "0 < a \<Longrightarrow> a \<le> b \<Longrightarrow> integer_length a \<le> integer_length b"
  by (auto simp: integer_length_def)

section \<open>Integers as big-endian images\<close>

definition be_int :: "nat \<Rightarrow> int \<Rightarrow> u8 list" where
  "be_int n v = be_bytes n (nat (v mod 256 ^ n))"

lemma length_be_int [simp]: "length (be_int n v) = n"
  by (simp add: be_int_def)

lemma be_int_nat: "be_int n (int v) = be_bytes n v"
proof -
  have "nat (int v mod 256 ^ n) = v mod 256 ^ n"
    by (metis nat_int zmod_int of_nat_numeral of_nat_power)
  then show ?thesis by (simp add: be_int_def be_bytes_mod)
qed

lemma be_bytes_1: "be_bytes (Suc 0) v = [word_of_nat v]"
  by (simp add: be_bytes_def)

lemma unat_word_of_int: "unat (word_of_int v :: 'a::len word) = nat (v mod 2 ^ LENGTH('a))"
  by (simp add: unat_eq_nat_uint uint_word_of_int)

lemma serialize_integer_eq:
  assumes "int_width len"
  shows "serialize_integer data i len v =
    c_bind (c_store data i (be_int len v)) (\<lambda>d. Returns (d, i + len, int len))"
proof -
  have "(word_of_nat (nat (v mod 256)) :: u8) = word_of_int v"
    by (rule word_unat_eq_iff [THEN iffD2]) (simp add: unat_word_of_int nat_mod_distrib)
  then show ?thesis
    using assms
    by (auto simp: serialize_integer_def int_width_def be_int_def be_bytes_1 endian_simps
        unat_word_of_int Let_def simp del: of_nat_nat)
qed

lemma be_value_of_bytes_lt: "be_value bs < 256 ^ n" if "length bs = n"
  using be_value_lt [of bs] that by simp

lemma unat_ntohs_load: "length bs = 2 \<Longrightarrow> unat (ntohs (word_of_nat (le_value bs))) = be_value bs"
  using le_value_lt [of bs] by (simp add: endian_simps unat_of_nat)

lemma unat_ntohl_load: "length bs = 4 \<Longrightarrow> unat (ntohl (word_of_nat (le_value bs))) = be_value bs"
  using le_value_lt [of bs] by (simp add: endian_simps unat_of_nat)

lemma unat_ntohll_load: "length bs = 8 \<Longrightarrow> unat (ntohll (word_of_nat (le_value bs))) = be_value bs"
  using le_value_lt [of bs] by (simp add: endian_simps unat_of_nat)

lemma uint_ntohs_load: "length bs = 2 \<Longrightarrow> uint (ntohs (word_of_nat (le_value bs))) = int (be_value bs)"
  by (metis unat_ntohs_load uint_nat)

lemma uint_ntohl_load: "length bs = 4 \<Longrightarrow> uint (ntohl (word_of_nat (le_value bs))) = int (be_value bs)"
  by (metis unat_ntohl_load uint_nat)

lemma uint_ntohll_load: "length bs = 8 \<Longrightarrow> uint (ntohll (word_of_nat (le_value bs))) = int (be_value bs)"
  by (metis unat_ntohll_load uint_nat)

lemma sint_eq_sgn64: "sint (w :: u64) = sgn64 (uint w)"
proof -
  have "sint w = signed_take_bit 63 (uint w)" by (simp add: sint_uint)
  then show ?thesis
    by (simp add: sgn64_def signed_take_bit_eq_take_bit_shift take_bit_eq_mod)
qed

text \<open>
  What \<open>parse_integer\<close> computes: the unsigned big-endian value for one, two and four bytes, the
  signed one for eight.
\<close>

lemma parse_integer_load:
  assumes "int_width len"
  shows "parse_integer data i len =
    c_bind (c_load data i len)
      (\<lambda>bs. Returns (Some (if len = 8 then sgn64 (int (be_value bs)) else int (be_value bs))))"
proof -
  have one: "c_bind (c_nth data i) (\<lambda>b. Returns (Some (uint b))) =
      c_bind (c_load data i 1) (\<lambda>bs. Returns (Some (int (be_value bs))))"
    by (auto simp: c_nth_def c_load_def slice_def take_Suc hd_drop_conv_nth be_value_def)
  have load: "n = length bs" if "c_load data i n = Returns bs" for n bs
    using that by (auto simp: c_load_def slice_def split: if_splits)
  consider "len = 1" | "len = 2" | "len = 4" | "len = 8"
    using assms by (auto simp: int_width_def)
  then show ?thesis
  proof cases
    case 1
    then show ?thesis using one by (simp add: parse_integer_def)
  next
    case 2
    then show ?thesis
      by (simp only: parse_integer_def Let_def) (auto simp: uint_ntohs_load dest: load intro!: c_bind_cong)
  next
    case 3
    then show ?thesis
      by (simp only: parse_integer_def Let_def) (auto simp: uint_ntohl_load dest: load intro!: c_bind_cong)
  next
    case 4
    then show ?thesis
      by (simp only: parse_integer_def Let_def) (auto simp: uint_ntohll_load sint_eq_sgn64 dest: load intro!: c_bind_cong)
  qed
qed

lemma parse_integer_None: "\<not> int_width len \<Longrightarrow> parse_integer data i len = Returns None"
  by (auto simp: parse_integer_def int_width_def)

lemma parse_integer_be_int:
  assumes "holds_at data i (be_int len v)" and "len = integer_length v" and "in_s64 v"
  shows "parse_integer data i len = Returns (Some v)"
proof -
  have w: "int_width len" using assms(2) by simp
  have "c_load data i len = Returns (be_int len v)"
    using assms(1) by (simp add: buffer_simps)
  moreover have "(if len = 8 then sgn64 (int (be_value (be_int len v))) else int (be_value (be_int len v))) = v"
  proof (cases "len = 8")
    case True
    have "int (be_value (be_int 8 v)) = v mod 2 ^ 64"
      by (simp add: be_int_def endian_simps)
    then show ?thesis using True assms(3) sgn64_mod [of v] by (simp add: sgn64_id)
  next
    case False
    then have v: "0 < v" "v < 256 ^ len"
      using assms(2) by (auto simp: integer_length_def split: if_splits)
    then have "int (be_value (be_int len v)) = v"
      by (simp add: be_int_def endian_simps)
    then show ?thesis using False by simp
  qed
  ultimately show ?thesis by (simp add: parse_integer_load [OF w])
qed

lemma parse_integer_nat:
  assumes "holds_at data i (be_bytes len n)" and "int_width len" and "n < 256 ^ len" and "n < 2 ^ 63"
  shows "parse_integer data i len = Returns (Some (int n))"
proof -
  have "c_load data i len = Returns (be_bytes len n)"
    using assms(1) by (simp add: buffer_simps)
  then show ?thesis
    using assms by (simp add: parse_integer_load endian_simps sgn64_id in_s64_def)
qed

lemma parse_real_8:
  "holds_at data i (le_bytes 8 (unat r)) \<Longrightarrow> parse_real data i 8 = Returns (Some (ntohll r))"
  by (simp add: parse_real_def buffer_simps endian_simps unsigned_less [where 'a = nat and w = r, simplified])

end
