(* ===== verification/Plist_Serialize.thy ===== *)
theory Plist_Serialize
  imports Plist_Integer
begin

text \<open>
  Serialization of a property list (\<open>src/utils/plist.cpp\<close>): the first pass \<open>bplist_analyze\<close>,
  which sizes the buffer, and the second pass \<open>bplist_serialize_object\<close>, which writes into the
  two buffers allocated for it. Every write is checked against its buffer, so a heap overflow of
  the code is a value \<open>Undefined (Out_of_bounds _ _)\<close> of the model.
\<close>

section \<open>The first pass\<close>

text \<open>
  The three counters \<open>*objects\<close>, \<open>*bytes\<close> and \<open>*refs\<close> are passed and returned. Sizes and
  lengths are those of objects in memory.
\<close>

type_synonym counters = "nat \<times> nat \<times> nat"

definition analyze_string :: "nat \<Rightarrow> nat" where
  "analyze_string len = (if len < 15 then 1 + len else 1 + 1 + integer_length (int len) + len)"

primrec bplist_analyze :: "plist \<Rightarrow> counters \<Rightarrow> counters"
  and bplist_analyze_values :: "plist list \<Rightarrow> counters \<Rightarrow> counters"
  and bplist_analyze_entries :: "(string \<times> plist) list \<Rightarrow> counters \<Rightarrow> counters"
  and bplist_analyze_entry :: "string \<times> plist \<Rightarrow> counters \<Rightarrow> counters" where
  "bplist_analyze PNull = (\<lambda>(ob, by, re). (ob + 1, by + 1, re))"
| "bplist_analyze (PPrimitive _) = (\<lambda>(ob, by, re). (ob + 1, by + 1, re))"
| "bplist_analyze (PInteger i) = (\<lambda>(ob, by, re). (ob + 1, by + (1 + integer_length i), re))"
| "bplist_analyze (PReal _) = (\<lambda>(ob, by, re). (ob + 1, by + (1 + 8), re))"
| "bplist_analyze (PDate _) = (\<lambda>(ob, by, re). (ob + 1, by, re))"
| "bplist_analyze (PData d) = (\<lambda>(ob, by, re). (ob + 1, by + analyze_string (length d), re))"
| "bplist_analyze (PString s) = (\<lambda>(ob, by, re). (ob + 1, by + analyze_string (length (c_str s)), re))"
| "bplist_analyze (PUnicode _) = (\<lambda>(ob, by, re). (ob + 1, by, re))"
| "bplist_analyze (PArray vs) = (\<lambda>(ob, by, re).
     let size = length vs
     in bplist_analyze_values vs
          (ob + 1, by + (if size < 15 then 1 else 1 + 1 + integer_length (int size)), re + size))"
| "bplist_analyze (PDict es) = (\<lambda>(ob, by, re).
     let size = length es
     in bplist_analyze_entries es
          (ob + 1, by + (if size < 15 then 1 else 1 + 1 + integer_length (2 * int size)), re + 2 * size))"
| "bplist_analyze_values [] = (\<lambda>c. c)"
| "bplist_analyze_values (v # vs) = (\<lambda>c. bplist_analyze_values vs (bplist_analyze v c))"
| "bplist_analyze_entries [] = (\<lambda>c. c)"
| "bplist_analyze_entries (e # es) = (\<lambda>c. bplist_analyze_entries es (bplist_analyze_entry e c))"
| "bplist_analyze_entry (key, v) = (\<lambda>(ob, by, re).
     bplist_analyze v (ob + 1, by + analyze_string (length (c_str key)), re))"

section \<open>The second pass\<close>

text \<open>The offset table, the output buffer and the next free index of each.\<close>

record bplist_writer =
  reftab :: "int list"
  reftabidx :: nat
  buf :: "u8 list"
  dataidx :: nat

definition new_ref :: "bplist_writer \<Rightarrow> (nat \<times> bplist_writer) c_run" where
  "new_ref w = c_bind (c_store (reftab w) (reftabidx w) [int (dataidx w)])
     (\<lambda>t. Returns (reftabidx w, w\<lparr>reftab := t, reftabidx := reftabidx w + 1\<rparr>))"

definition put_bytes :: "u8 list \<Rightarrow> bplist_writer \<Rightarrow> bplist_writer c_run" where
  "put_bytes bs w = c_bind (c_store (buf w) (dataidx w) bs)
     (\<lambda>d. Returns (w\<lparr>buf := d, dataidx := dataidx w + length bs\<rparr>))"

definition put_integer :: "nat \<Rightarrow> int \<Rightarrow> bplist_writer \<Rightarrow> bplist_writer c_run" where
  "put_integer len v w = c_bind (serialize_integer (buf w) (dataidx w) len v)
     (\<lambda>(d, i, _). Returns (w\<lparr>buf := d, dataidx := i\<rparr>))"

text \<open>The type byte with the length in its low nibble, or with an integer after it.\<close>

definition put_header :: "u8 \<Rightarrow> nat \<Rightarrow> bplist_writer \<Rightarrow> bplist_writer c_run" where
  "put_header type len w =
     (if len < 15 then put_bytes [type OR word_of_nat len] w
      else c_bind (put_bytes [type OR 0x0f] w)
        (\<lambda>w. c_bind (put_bytes [PLIST_TYPE_INTEGER OR word_of_nat (blist_integer_length (int len))] w)
        (\<lambda>w. put_integer (integer_length (int len)) (int len) w)))"

definition bplist_serialize_string :: "string \<Rightarrow> bplist_writer \<Rightarrow> (nat \<times> bplist_writer) c_run" where
  "bplist_serialize_string value w =
     c_bind (new_ref w) (\<lambda>(objectid, w).
     c_bind (put_header PLIST_TYPE_STRING (length (c_str value)) w) (\<lambda>w.
     c_bind (put_bytes (bytes_of (c_str value)) w) (\<lambda>w.
     Returns (objectid, w))))"

text \<open>
  Every object starts with its entry in the offset table, whose index is its id. An array or
  dictionary reserves the space of its references, writes its parts behind it and fills each
  reference in once the part's object id is known.
\<close>

definition with_ref :: "(bplist_writer \<Rightarrow> bplist_writer c_run) \<Rightarrow> bplist_writer \<Rightarrow> (nat \<times> bplist_writer) c_run" where
  "with_ref body w =
     c_bind (new_ref w) (\<lambda>(objectid, w). c_bind (body w) (\<lambda>w. Returns (objectid, w)))"

primrec bplist_serialize_object :: "plist \<Rightarrow> nat \<Rightarrow> bplist_writer \<Rightarrow> (nat \<times> bplist_writer) c_run"
  and bplist_serialize_values :: "plist list \<Rightarrow> nat \<Rightarrow> nat \<Rightarrow> bplist_writer \<Rightarrow> bplist_writer c_run"
  and bplist_serialize_entries ::
    "(string \<times> plist) list \<Rightarrow> nat \<Rightarrow> nat \<Rightarrow> nat \<Rightarrow> bplist_writer \<Rightarrow> bplist_writer c_run"
  and bplist_serialize_entry :: "string \<times> plist \<Rightarrow> nat \<Rightarrow> bplist_writer \<Rightarrow> (nat \<times> nat \<times> bplist_writer) c_run" where
  "bplist_serialize_object PNull reflen = with_ref (put_bytes [0])"
| "bplist_serialize_object (PPrimitive p) reflen = with_ref (put_bytes [PLIST_TYPE_PRIMITIVE OR p])"
| "bplist_serialize_object (PInteger i) reflen = with_ref (\<lambda>w.
     c_bind (put_bytes [PLIST_TYPE_INTEGER OR word_of_nat (blist_integer_length i)] w)
       (put_integer (integer_length i) i))"
| "bplist_serialize_object (PReal r) reflen = with_ref (\<lambda>w.
     c_bind (put_bytes [PLIST_TYPE_REAL OR 3] w) (put_bytes (le_bytes 8 (unat r))))"
| "bplist_serialize_object (PDate _) reflen = with_ref Returns"
| "bplist_serialize_object (PData d) reflen = with_ref (\<lambda>w.
     c_bind (put_header PLIST_TYPE_DATA (length d) w) (put_bytes d))"
| "bplist_serialize_object (PString s) reflen = with_ref (\<lambda>w.
     c_bind (put_header PLIST_TYPE_STRING (length (c_str s)) w) (put_bytes (bytes_of (c_str s))))"
| "bplist_serialize_object (PUnicode _) reflen = with_ref Returns"
| "bplist_serialize_object (PArray vs) reflen = with_ref (\<lambda>w.
     c_bind (put_header PLIST_TYPE_ARRAY (length vs) w) (\<lambda>w.
       let valueidx = dataidx w
       in bplist_serialize_values vs reflen valueidx (w\<lparr>dataidx := dataidx w + length vs * reflen\<rparr>)))"
| "bplist_serialize_object (PDict es) reflen = with_ref (\<lambda>w.
     c_bind (put_header PLIST_TYPE_DICT (length es) w) (\<lambda>w.
       let keyidx = dataidx w; valueidx = keyidx + length es * reflen
       in bplist_serialize_entries es reflen keyidx valueidx
            (w\<lparr>dataidx := valueidx + length es * reflen\<rparr>)))"
| "bplist_serialize_values [] reflen = (\<lambda>valueidx w. Returns w)"
| "bplist_serialize_values (v # vs) reflen = (\<lambda>valueidx w.
     c_bind (bplist_serialize_object v reflen w) (\<lambda>(valueid, w).
     c_bind (serialize_integer (buf w) valueidx reflen (int valueid)) (\<lambda>(d, valueidx, _).
     bplist_serialize_values vs reflen valueidx (w\<lparr>buf := d\<rparr>))))"
| "bplist_serialize_entries [] reflen = (\<lambda>keyidx valueidx w. Returns w)"
| "bplist_serialize_entries (e # es) reflen = (\<lambda>keyidx valueidx w.
     c_bind (bplist_serialize_entry e reflen w) (\<lambda>(keyid, valueid, w).
     c_bind (serialize_integer (buf w) keyidx reflen (int keyid)) (\<lambda>(d, keyidx, _).
     c_bind (serialize_integer d valueidx reflen (int valueid)) (\<lambda>(d, valueidx, _).
     bplist_serialize_entries es reflen keyidx valueidx (w\<lparr>buf := d\<rparr>)))))"
| "bplist_serialize_entry (key, v) reflen = (\<lambda>w.
     c_bind (bplist_serialize_string key w) (\<lambda>(keyid, w).
     c_bind (bplist_serialize_object v reflen w) (\<lambda>(valueid, w).
     Returns (keyid, valueid, w))))"

section \<open>The whole serialization\<close>

definition BPLIST_HEADER_LEN :: nat where "BPLIST_HEADER_LEN = 8"
definition BPLIST_TRAILER_LEN :: nat where "BPLIST_TRAILER_LEN = 32"

fun put_offsets :: "nat \<Rightarrow> int list \<Rightarrow> bplist_writer \<Rightarrow> bplist_writer c_run" where
  "put_offsets offlen [] w = Returns w"
| "put_offsets offlen (r # rs) w = c_bind (put_integer offlen r w) (put_offsets offlen rs)"

text \<open>
  The result is the \<open>int\<close> the function returns and, where it is 0, the buffer handed out. The
  out-parameters are taken to be non-null. Both buffers come from \<open>calloc\<close>, so they are zero.
\<close>

definition plist_object_to_bplist :: "allocator \<Rightarrow> plist \<Rightarrow> (int \<times> u8 list option) c_run" where
  "plist_object_to_bplist alloc object =
     (if object = PNull then Returns (- 1, None)
      else let (ob, by, re) = bplist_analyze object (0, 0, 0);
               reflen = integer_length (int re);
               buflen = BPLIST_HEADER_LEN + (by + re * reflen);
               offlen = integer_length (int buflen);
               buflen = buflen + ob * offlen + BPLIST_TRAILER_LEN
           in if \<not> alloc buflen then Returns (- 2, None)
              else if \<not> alloc (ob * 8) then Returns (- 3, None)
              else let w = \<lparr>reftab = replicate ob 0, reftabidx = 0, buf = replicate buflen 0, dataidx = 0\<rparr>
                   in c_bind (put_bytes (bytes_of ''bplist00'') w) (\<lambda>w.
                      c_bind (bplist_serialize_object object reflen w) (\<lambda>(_, w).
                      let reftaboffset = dataidx w
                      in c_bind (put_offsets offlen (take ob (reftab w)) w) (\<lambda>w.
                         c_bind (put_integer 1 (int offlen) (w\<lparr>dataidx := dataidx w + 6\<rparr>)) (\<lambda>w.
                         c_bind (put_integer 1 (int reflen) w) (\<lambda>w.
                         c_bind (put_integer 8 (int ob) w) (\<lambda>w.
                         c_bind (put_integer 8 0 w) (\<lambda>w.
                         c_bind (put_integer 8 (int reftaboffset) w) (\<lambda>w.
                         Returns (0, Some (buf w)))))))))))"

text \<open>
  \<open>auto_plist::to_bytes_array\<close> ignores the result: a serialization that fails leaves the null
  buffer of length 0 it started from.
\<close>

definition to_bytes_array :: "allocator \<Rightarrow> plist \<Rightarrow> u8 list c_run" where
  "to_bytes_array alloc object =
     c_bind (plist_object_to_bplist alloc object)
       (\<lambda>(_, data). Returns (case data of None \<Rightarrow> [] | Some d \<Rightarrow> d))"

end
