(* ===== verification/Plist_Layout.thy ===== *)
theory Plist_Layout
  imports Plist_Serialize
begin

text \<open>
  The abstract specification of the serializer: \<open>layout\<close> gives, for an object written from a
  given object id and a given offset on, the offsets of its objects in the order of their ids
  and the bytes it occupies. The lemmas show that the two passes of the code implement it: the
  second pass writes exactly these bytes and offsets and never outside its two buffers, and the
  first pass counts them (it can count more bytes than are written, never fewer).
\<close>

section \<open>Induction over property lists\<close>

lemma plist_values_induct [case_names Leaf Array Dict Nil_values Cons_values Nil_entries Cons_entries]:
  assumes leaf: "\<And>v. (\<forall>vs. v \<noteq> PArray vs) \<Longrightarrow> (\<forall>es. v \<noteq> PDict es) \<Longrightarrow> P v"
    and array: "\<And>vs. Q vs \<Longrightarrow> P (PArray vs)"
    and dict: "\<And>es. R es \<Longrightarrow> P (PDict es)"
    and vals: "Q []" "\<And>v vs. P v \<Longrightarrow> Q vs \<Longrightarrow> Q (v # vs)"
    and entries: "R []" "\<And>k v es. P v \<Longrightarrow> R es \<Longrightarrow> R ((k, v) # es)"
  shows "P v \<and> Q vs \<and> R es"
proof -
  have P: "P v" for v
  proof (induction v)
    case (PArray vs)
    have "Q ws" if "set ws \<subseteq> set vs" for ws
      using that by (induction ws) (auto intro: vals PArray)
    then show ?case by (intro array) simp
  next
    case (PDict es)
    have "R ws" if "set ws \<subseteq> set es" for ws
      using that
    proof (induction ws)
      case (Cons w ws)
      obtain k v where w: "w = (k, v)" by (cases w)
      have "P v" using PDict [of w v] Cons.prems w by simp
      with Cons w show ?case by (auto intro: entries)
    qed (rule entries)
    then show ?case by (intro dict) simp
  qed (auto intro: leaf)
  have "Q vs" by (induction vs) (auto intro: vals P)
  moreover have "R es"
  proof (induction es)
    case (Cons e es)
    then show ?case by (cases e) (auto intro: entries P)
  qed (rule entries)
  ultimately show ?thesis using P by blast
qed

lemma plist_induct3 [case_names Leaf Array Dict Nil_values Cons_values Nil_entries Cons_entries]:
  assumes "\<And>v. (\<forall>vs. v \<noteq> PArray vs) \<Longrightarrow> (\<forall>es. v \<noteq> PDict es) \<Longrightarrow> P v"
    and "\<And>vs. Q vs \<Longrightarrow> P (PArray vs)"
    and "\<And>es. R es \<Longrightarrow> P (PDict es)"
    and "Q []" and "\<And>v vs. P v \<Longrightarrow> Q vs \<Longrightarrow> Q (v # vs)"
    and "R []" and "\<And>k v es. P v \<Longrightarrow> R es \<Longrightarrow> R ((k, v) # es)"
  shows "P v"
  using plist_values_induct [of P Q R] assms by blast

section \<open>The specification\<close>

definition header_bytes :: "u8 \<Rightarrow> nat \<Rightarrow> u8 list" where
  "header_bytes type len =
     (if len < 15 then [type OR word_of_nat len]
      else [type OR 0x0f, PLIST_TYPE_INTEGER OR word_of_nat (blist_integer_length (int len))] @
           be_bytes (integer_length (int len)) len)"

definition string_layout :: "string \<Rightarrow> u8 list" where
  "string_layout s = header_bytes PLIST_TYPE_STRING (length (c_str s)) @ bytes_of (c_str s)"

definition refs_bytes :: "nat \<Rightarrow> nat list \<Rightarrow> u8 list" where
  "refs_bytes r ids = concat (map (be_bytes r) ids)"

primrec layout :: "plist \<Rightarrow> nat \<Rightarrow> nat \<Rightarrow> nat \<Rightarrow> nat list \<times> u8 list"
  and layout_values :: "plist list \<Rightarrow> nat \<Rightarrow> nat \<Rightarrow> nat \<Rightarrow> nat list \<times> nat list \<times> u8 list"
  and layout_entries :: "(string \<times> plist) list \<Rightarrow> nat \<Rightarrow> nat \<Rightarrow> nat \<Rightarrow> nat list \<times> nat list \<times> nat list \<times> u8 list"
  and layout_entry :: "string \<times> plist \<Rightarrow> nat \<Rightarrow> nat \<Rightarrow> nat \<Rightarrow> nat list \<times> u8 list" where
  "layout PNull r k d = ([d], [0])"
| "layout (PPrimitive p) r k d = ([d], [PLIST_TYPE_PRIMITIVE OR p])"
| "layout (PInteger i) r k d =
     ([d], (PLIST_TYPE_INTEGER OR word_of_nat (blist_integer_length i)) # be_int (integer_length i) i)"
| "layout (PReal x) r k d = ([d], (PLIST_TYPE_REAL OR 3) # le_bytes 8 (unat x))"
| "layout (PDate _) r k d = ([d], [])"
| "layout (PData bs) r k d = ([d], header_bytes PLIST_TYPE_DATA (length bs) @ bs)"
| "layout (PString s) r k d = ([d], string_layout s)"
| "layout (PUnicode _) r k d = ([d], [])"
| "layout (PArray vs) r k d =
     (let h = header_bytes PLIST_TYPE_ARRAY (length vs);
          (ids, offs, bs) = layout_values vs r (k + 1) (d + length h + length vs * r)
      in (d # offs, h @ refs_bytes r ids @ bs))"
| "layout (PDict es) r k d =
     (let h = header_bytes PLIST_TYPE_DICT (length es);
          (kids, vids, offs, bs) = layout_entries es r (k + 1) (d + length h + length es * r + length es * r)
      in (d # offs, h @ refs_bytes r kids @ refs_bytes r vids @ bs))"
| "layout_values [] r k d = ([], [], [])"
| "layout_values (v # vs) r k d =
     (let (o1, b1) = layout v r k d;
          (ids, offs, bs) = layout_values vs r (k + length o1) (d + length b1)
      in (k # ids, o1 @ offs, b1 @ bs))"
| "layout_entries [] r k d = ([], [], [], [])"
| "layout_entries (e # es) r k d =
     (let (o1, b1) = layout_entry e r k d;
          (kids, vids, offs, bs) = layout_entries es r (k + length o1) (d + length b1)
      in (k # kids, Suc k # vids, o1 @ offs, b1 @ bs))"
| "layout_entry (key, v) r k d =
     (let kb = string_layout key; (o1, b1) = layout v r (k + 1) (d + length kb)
      in (d # o1, kb @ b1))"

lemma length_refs_bytes [simp]: "length (refs_bytes r ids) = length ids * r"
  by (simp add: refs_bytes_def length_concat comp_def sum_list_triv)

lemma refs_bytes_simps [simp]:
  "refs_bytes r [] = []" "refs_bytes r (i # ids) = be_bytes r i @ refs_bytes r ids"
  by (simp_all add: refs_bytes_def)

lemma length_layout_values: "layout_values vs r k d = (ids, offs, bs) \<Longrightarrow> length ids = length vs"
  by (induction vs arbitrary: k d ids offs bs) (auto simp: Let_def split: prod.splits)

lemma length_layout_entries:
  "layout_entries es r k d = (kids, vids, offs, bs) \<Longrightarrow> length kids = length es \<and> length vids = length es"
proof (induction es arbitrary: k d kids vids offs bs)
  case (Cons e es)
  then show ?case by (fastforce simp: Let_def split: prod.splits)
qed simp

section \<open>The second pass writes the layout\<close>

definition extend :: "nat list \<Rightarrow> u8 list \<Rightarrow> bplist_writer \<Rightarrow> bplist_writer" where
  "extend offs bs w =
     w\<lparr>reftab := put (reftab w) (reftabidx w) (map int offs), reftabidx := reftabidx w + length offs,
       buf := put (buf w) (dataidx w) bs, dataidx := dataidx w + length bs\<rparr>"

definition room :: "nat \<Rightarrow> nat \<Rightarrow> bplist_writer \<Rightarrow> bool" where
  "room n m w \<longleftrightarrow> reftabidx w + n \<le> length (reftab w) \<and> dataidx w + m \<le> length (buf w)"

lemma extend_simps [simp]:
  "reftabidx (extend offs bs w) = reftabidx w + length offs"
  "dataidx (extend offs bs w) = dataidx w + length bs"
  by (simp_all add: extend_def)

lemma room_extend:
  "room (length offs + n) (length bs + m) w \<Longrightarrow> room n m (extend offs bs w)"
  by (simp add: room_def extend_def buffer_simps)

lemma extend_extend:
  "room (length o1 + length o2) (length b1 + length b2) w \<Longrightarrow>
   extend o2 b2 (extend o1 b1 w) = extend (o1 @ o2) (b1 @ b2) w"
  using put_put_append [of "reftabidx w" "map int o1" "map int o2" "reftab w"]
  by (simp add: extend_def room_def buffer_simps)

lemma extend_Nil [simp]: "extend [] [] w = w"
  by (simp add: extend_def)

lemma room_mono: "room n m w \<Longrightarrow> n' \<le> n \<Longrightarrow> m' \<le> m \<Longrightarrow> room n' m' w"
  by (simp add: room_def)

text \<open>A write step that appends exactly the bytes \<open>bs\<close>, provided the buffer has room for them.\<close>

definition emits :: "(bplist_writer \<Rightarrow> bplist_writer c_run) \<Rightarrow> u8 list \<Rightarrow> bool" where
  "emits f bs \<longleftrightarrow> (\<forall>w. room 0 (length bs) w \<longrightarrow> f w = Returns (extend [] bs w))"

named_theorems emits_intros \<open>what each write step of the serializer appends\<close>

lemma emitsD: "emits f bs \<Longrightarrow> room 0 (length bs) w \<Longrightarrow> f w = Returns (extend [] bs w)"
  by (simp add: emits_def)

lemma emits_Returns [emits_intros]: "emits Returns []"
  by (simp add: emits_def)

lemma emits_bytes [emits_intros]: "emits (put_bytes bs) bs"
  by (simp add: emits_def put_bytes_def c_store_def room_def extend_def)

lemma emits_integer [emits_intros]: "int_width n \<Longrightarrow> emits (put_integer n v) (be_int n v)"
  by (simp add: emits_def put_integer_def serialize_integer_eq c_store_def room_def extend_def)

lemma emits_bind [emits_intros]:
  assumes "emits f as" and "emits g bs"
  shows "emits (\<lambda>w. c_bind (f w) g) (as @ bs)"
  unfolding emits_def
proof (intro allI impI)
  fix w
  assume r: "room 0 (length (as @ bs)) w"
  have "room 0 (length as) w" using r by (rule room_mono) auto
  moreover have "room 0 (length bs) (extend [] as w)" using r by (intro room_extend) simp
  ultimately show "c_bind (f w) g = Returns (extend [] (as @ bs) w)"
    using assms r by (simp add: emits_def extend_extend)
qed

lemma emits_bind_Cons [emits_intros]:
  "emits g bs \<Longrightarrow> emits (\<lambda>w. c_bind (put_bytes [b] w) g) (b # bs)"
  using emits_bind [OF emits_bytes [of "[b]"], of g bs] by simp

lemma emits_header [emits_intros]: "emits (put_header t n) (header_bytes t n)"
proof (cases "n < 15")
  case True
  then show ?thesis
    using emits_bytes by (simp add: put_header_def [abs_def] header_bytes_def)
next
  case False
  let ?il = "integer_length (int n)"
  have "emits (\<lambda>w. c_bind (put_bytes [t OR 0x0f] w)
      (\<lambda>w. c_bind (put_bytes [PLIST_TYPE_INTEGER OR word_of_nat (blist_integer_length (int n))] w)
        (put_integer ?il (int n))))
      ([t OR 0x0f] @ [PLIST_TYPE_INTEGER OR word_of_nat (blist_integer_length (int n))] @ be_int ?il (int n))"
    by (intro emits_intros) simp
  with False show ?thesis
    by (simp add: put_header_def [abs_def] header_bytes_def be_int_nat)
qed

lemma new_ref_extend: "room 1 0 w \<Longrightarrow> new_ref w = Returns (reftabidx w, extend [dataidx w] [] w)"
  by (simp add: new_ref_def c_store_def room_def extend_def)

lemma with_ref_emits:
  assumes "emits f bs" and r: "room 1 (length bs) w"
  shows "with_ref f w = Returns (reftabidx w, extend [dataidx w] bs w)"
proof -
  have "room 1 0 w" using r by (rule room_mono) auto
  moreover have "room 0 (length bs) (extend [dataidx w] [] w)" using r by (intro room_extend) simp
  ultimately show ?thesis
    using assms r by (simp add: with_ref_def new_ref_extend emits_def extend_extend)
qed

lemma serialize_string_extend:
  assumes "room 1 (length (string_layout s)) w"
  shows "bplist_serialize_string s w = Returns (reftabidx w, extend [dataidx w] (string_layout s) w)"
proof -
  have "bplist_serialize_string s w = with_ref (\<lambda>w.
      c_bind (put_header PLIST_TYPE_STRING (length (c_str s)) w) (put_bytes (bytes_of (c_str s)))) w"
    by (simp add: bplist_serialize_string_def with_ref_def c_bind_assoc)
  then show ?thesis
    using with_ref_emits [OF emits_bind [OF emits_header emits_bytes]] assms
    by (simp add: string_layout_def)
qed

text \<open>Filling in the reserved references behind the parts is the same as writing them in order.\<close>

lemma put_reserved:
  assumes "i + length h + length rs + length bs \<le> length xs"
  shows "put (put (put xs i h) (i + length h + length rs) bs) (i + length h) rs = put xs i (h @ rs @ bs)"
proof -
  let ?ys = "put xs i h"
  have l: "length ?ys = length xs" using assms by (simp add: buffer_simps)
  have "put (put ?ys (i + length h + length rs) bs) (i + length h) rs =
      put (put ?ys (i + length h) rs) (i + length h + length rs) bs"
    using assms l by (intro put_commute [symmetric]) auto
  also have "\<dots> = put ?ys (i + length h) (rs @ bs)"
    using assms l by (intro put_put_append) simp
  also have "\<dots> = put xs i (h @ rs @ bs)"
    using assms by (intro put_put_append) simp
  finally show ?thesis .
qed

lemma c_store_fits: "i + length ys \<le> length xs \<Longrightarrow> c_store xs i ys = Returns (put xs i ys)"
  by (simp add: c_store_def)

text \<open>
  The parts of an array are written behind the reserved segment at \<open>q\<close>, which receives their
  ids; the parts of a dictionary fill two such segments.
\<close>

definition fill :: "nat \<Rightarrow> u8 list \<Rightarrow> bplist_writer \<Rightarrow> bplist_writer" where
  "fill q rs w = w\<lparr>buf := put (buf w) q rs\<rparr>"

definition writes :: "plist \<Rightarrow> bool" where
  "writes v \<longleftrightarrow> (\<forall>r w offs bs. int_width r \<longrightarrow> layout v r (reftabidx w) (dataidx w) = (offs, bs) \<longrightarrow>
     room (length offs) (length bs) w \<longrightarrow>
     bplist_serialize_object v r w = Returns (reftabidx w, extend offs bs w))"

definition writes_values :: "plist list \<Rightarrow> bool" where
  "writes_values vs \<longleftrightarrow> (\<forall>r w q ids offs bs. int_width r \<longrightarrow>
     layout_values vs r (reftabidx w) (dataidx w) = (ids, offs, bs) \<longrightarrow>
     room (length offs) (length bs) w \<longrightarrow> q + length vs * r \<le> dataidx w \<longrightarrow>
     bplist_serialize_values vs r q w = Returns (fill q (refs_bytes r ids) (extend offs bs w)))"

definition writes_entries :: "(string \<times> plist) list \<Rightarrow> bool" where
  "writes_entries es \<longleftrightarrow> (\<forall>r w p q kids vids offs bs. int_width r \<longrightarrow>
     layout_entries es r (reftabidx w) (dataidx w) = (kids, vids, offs, bs) \<longrightarrow>
     room (length offs) (length bs) w \<longrightarrow> p + length es * r \<le> q \<longrightarrow> q + length es * r \<le> dataidx w \<longrightarrow>
     bplist_serialize_entries es r p q w =
       Returns (fill q (refs_bytes r vids) (fill p (refs_bytes r kids) (extend offs bs w))))"

lemma fill_simps [simp]:
  "reftabidx (fill q rs w) = reftabidx w" "dataidx (fill q rs w) = dataidx w" "fill q [] w = w"
  by (simp_all add: fill_def)

lemma room_fill [simp]: "q + length rs \<le> length (buf w) \<Longrightarrow> room n m (fill q rs w) \<longleftrightarrow> room n m w"
  by (simp add: room_def fill_def buffer_simps)

lemma length_buf_extend [simp]:
  "room n (length bs) w \<Longrightarrow> length (buf (extend offs bs w)) = length (buf w)"
  by (simp add: extend_def room_def buffer_simps)

lemma length_buf_fill [simp]: "q + length rs \<le> length (buf w) \<Longrightarrow> length (buf (fill q rs w)) = length (buf w)"
  by (simp add: fill_def buffer_simps)

lemma writes_entriesD:
  assumes "writes_entries es" and "int_width r"
    and "layout_entries es r (reftabidx w) (dataidx w) = (kids, vids, offs, bs)"
    and "room (length offs) (length bs) w"
    and "p + length es * r \<le> q" and "q + length es * r \<le> dataidx w"
  shows "bplist_serialize_entries es r p q w =
    Returns (fill q (refs_bytes r vids) (fill p (refs_bytes r kids) (extend offs bs w)))"
  using assms unfolding writes_entries_def by blast

lemma extend_fill:
  assumes "q + length rs \<le> dataidx w" and "room n (length bs) w"
  shows "extend offs bs (fill q rs w) = fill q rs (extend offs bs w)"
  using assms put_commute [of q rs "dataidx w" bs "buf w"]
  by (intro bplist_writer.equality) (simp_all add: extend_def fill_def room_def)

lemma fill_append:
  "q + length rs + length ss \<le> length (buf w) \<Longrightarrow> fill (q + length rs) ss (fill q rs w) = fill q (rs @ ss) w"
  by (simp add: fill_def put_put_append)

lemma fill_commute:
  assumes "p + length rs \<le> q" and "q + length ss \<le> length (buf w)"
  shows "fill q ss (fill p rs w) = fill p rs (fill q ss w)"
  using assms put_commute [of p rs q ss "buf w"] by (simp add: fill_def)

lemma writes_leafI:
  assumes "emits f bs" and "\<And>r. bplist_serialize_object v r = with_ref f"
    and "\<And>r k d. layout v r k d = ([d], bs)"
  shows "writes v"
  using assms by (auto simp: writes_def intro!: with_ref_emits)

lemma writes_leaf:
  assumes "\<forall>vs. v \<noteq> PArray vs" and "\<forall>es. v \<noteq> PDict es"
  shows "writes v"
proof (cases v)
  case PNull
  then show ?thesis by (intro writes_leafI [OF emits_bytes]) auto
next
  case (PPrimitive p)
  then show ?thesis by (intro writes_leafI [OF emits_bytes]) auto
next
  case (PInteger i)
  then show ?thesis by (intro writes_leafI [OF emits_bind_Cons [OF emits_integer]]) auto
next
  case (PReal r)
  then show ?thesis by (intro writes_leafI [OF emits_bind_Cons [OF emits_bytes]]) auto
next
  case (PDate d)
  then show ?thesis by (intro writes_leafI [OF emits_Returns]) auto
next
  case (PData d)
  then show ?thesis by (intro writes_leafI [OF emits_bind [OF emits_header emits_bytes]]) auto
next
  case (PString s)
  then show ?thesis
    by (intro writes_leafI [OF emits_bind [OF emits_header emits_bytes]]) (auto simp: string_layout_def)
next
  case (PUnicode s)
  then show ?thesis by (intro writes_leafI [OF emits_Returns]) auto
qed (use assms in auto)

lemma writes_values_Cons:
  assumes v: "writes v" and vs: "writes_values vs"
  shows "writes_values (v # vs)"
  unfolding writes_values_def
proof (intro allI impI)
  fix r w q ids offs bs
  assume r: "int_width r" and lay: "layout_values (v # vs) r (reftabidx w) (dataidx w) = (ids, offs, bs)"
    and room: "room (length offs) (length bs) w" and q: "q + length (v # vs) * r \<le> dataidx w"
  obtain o1 b1 where l1: "layout v r (reftabidx w) (dataidx w) = (o1, b1)" by fastforce
  let ?w1 = "extend o1 b1 w"
  obtain is2 o2 b2 where l2: "layout_values vs r (reftabidx ?w1) (dataidx ?w1) = (is2, o2, b2)"
    by (metis prod_cases3)
  have eqs: "ids = reftabidx w # is2" "offs = o1 @ o2" "bs = b1 @ b2"
    using lay l1 l2 by auto
  let ?ref = "be_bytes r (reftabidx w)"
  have len: "length is2 = length vs" using l2 by (rule length_layout_values)
  have q1: "q + r \<le> dataidx w" and q2: "q + r + length vs * r \<le> dataidx w" using q by auto
  have rm1: "room (length o1) (length b1) w" using room eqs by (auto intro: room_mono)
  have rm2: "room (length o2) (length b2) ?w1" using room eqs by (intro room_extend) simp
  have buf1: "length (buf ?w1) = length (buf w)" using rm1 by (rule length_buf_extend)
  have le: "dataidx w \<le> length (buf w)" using rm1 by (simp add: room_def)
  have "bplist_serialize_object v r w = Returns (reftabidx w, ?w1)"
    using v r l1 rm1 by (simp add: writes_def)
  moreover have "serialize_integer (buf ?w1) q r (int (reftabidx w)) = Returns (put (buf ?w1) q ?ref, q + r, int r)"
    using r q1 le buf1 by (simp add: serialize_integer_eq be_int_nat c_store_fits)
  ultimately have "bplist_serialize_values (v # vs) r q w = bplist_serialize_values vs r (q + r) (fill q ?ref ?w1)"
    by (simp add: fill_def)
  also have "\<dots> = Returns (fill (q + r) (refs_bytes r is2) (extend o2 b2 (fill q ?ref ?w1)))"
    using vs r l2 rm2 q1 q2 le buf1 by (simp add: writes_values_def)
  also have "extend o2 b2 (fill q ?ref ?w1) = fill q ?ref (extend offs bs w)"
    using rm2 q1 eqs room by (simp add: extend_fill extend_extend)
  also have "fill (q + r) (refs_bytes r is2) \<dots> = fill q (refs_bytes r ids) (extend offs bs w)"
    using fill_append [of q ?ref "refs_bytes r is2" "extend offs bs w"] room q2 le len eqs by simp
  finally show "bplist_serialize_values (v # vs) r q w = Returns (fill q (refs_bytes r ids) (extend offs bs w))" .
qed

lemma writes_entries_Cons:
  assumes v: "writes v" and es: "writes_entries es"
  shows "writes_entries ((key, v) # es)"
  unfolding writes_entries_def
proof (intro allI impI)
  fix r w p q kids vids offs bs
  assume r: "int_width r"
    and lay: "layout_entries ((key, v) # es) r (reftabidx w) (dataidx w) = (kids, vids, offs, bs)"
    and room: "room (length offs) (length bs) w"
    and p: "p + length ((key, v) # es) * r \<le> q" and q: "q + length ((key, v) # es) * r \<le> dataidx w"
  let ?kb = "string_layout key"
  let ?w1 = "extend [dataidx w] ?kb w"
  obtain o1 b1 where l1: "layout v r (reftabidx ?w1) (dataidx ?w1) = (o1, b1)" by fastforce
  let ?w2 = "extend (dataidx w # o1) (?kb @ b1) w"
  obtain ks vs o2 b2 where l2: "layout_entries es r (reftabidx ?w2) (dataidx ?w2) = (ks, vs, o2, b2)"
    by (metis prod_cases4)
  have eqs: "kids = reftabidx w # ks" "vids = Suc (reftabidx w) # vs"
      "offs = (dataidx w # o1) @ o2" "bs = (?kb @ b1) @ b2"
    using lay l1 l2 by (auto simp: Let_def)
  let ?kr = "be_bytes r (reftabidx w)" and ?vr = "be_bytes r (Suc (reftabidx w))"
  have len: "length ks = length es" "length vs = length es"
    using length_layout_entries [OF l2] by auto
  have le: "p + r \<le> q" "q + r \<le> dataidx w" "p + r + length es * r \<le> q" "q + r + length es * r \<le> dataidx w"
    using p q by auto
  have rm1: "room 1 (length ?kb) w" using room eqs by (auto intro: room_mono)
  have rm2: "room (length o1) (length b1) ?w1" using room eqs by (intro room_extend) (auto intro: room_mono)
  have rm3: "room (length (dataidx w # o1)) (length (?kb @ b1)) w" using room eqs by (auto intro: room_mono)
  have w2: "extend o1 b1 ?w1 = ?w2" using rm3 by (simp add: extend_extend)
  have rm4: "room (length o2) (length b2) ?w2" using room eqs by (intro room_extend) (simp add: add.assoc)
  have w3: "extend o2 b2 ?w2 = extend offs bs w" using room eqs by (simp add: extend_extend add.assoc)
  have buf2: "length (buf ?w2) = length (buf w)" using rm3 by (rule length_buf_extend)
  have ld: "dataidx w \<le> length (buf w)" using rm1 by (simp add: room_def)
  have "bplist_serialize_entry (key, v) r w = Returns (reftabidx w, Suc (reftabidx w), ?w2)"
    using v r l1 rm1 rm2 w2 by (simp add: writes_def serialize_string_extend)
  moreover have "serialize_integer (buf ?w2) p r (int (reftabidx w)) = Returns (put (buf ?w2) p ?kr, p + r, int r)"
    using r le ld buf2 by (simp add: serialize_integer_eq be_int_nat c_store_fits)
  moreover have "serialize_integer (put (buf ?w2) p ?kr) q r (int (Suc (reftabidx w))) =
      Returns (put (put (buf ?w2) p ?kr) q ?vr, q + r, int r)"
    using r le ld buf2 by (simp add: serialize_integer_eq be_int_nat c_store_fits buffer_simps del: of_nat_Suc)
  ultimately have "bplist_serialize_entries ((key, v) # es) r p q w =
      bplist_serialize_entries es r (p + r) (q + r) (fill q ?vr (fill p ?kr ?w2))"
    by (simp add: fill_def del: of_nat_Suc bplist_serialize_entry.simps)
  also have "\<dots> = Returns (fill (q + r) (refs_bytes r vs) (fill (p + r) (refs_bytes r ks)
      (extend o2 b2 (fill q ?vr (fill p ?kr ?w2)))))"
    by (rule writes_entriesD [OF es r]) (use l2 rm4 le ld buf2 in auto)
  also have "extend o2 b2 (fill q ?vr (fill p ?kr ?w2)) = fill q ?vr (fill p ?kr (extend offs bs w))"
    using rm4 le ld buf2 w3 by (simp add: extend_fill)
  also have "fill (p + r) (refs_bytes r ks) \<dots> =
      fill q ?vr (fill (p + r) (refs_bytes r ks) (fill p ?kr (extend offs bs w)))"
    using le ld room len by (intro fill_commute [symmetric]) (auto simp: fill_def buffer_simps)
  also have "fill (p + r) (refs_bytes r ks) (fill p ?kr (extend offs bs w)) =
      fill p (refs_bytes r kids) (extend offs bs w)"
    using fill_append [of p ?kr "refs_bytes r ks" "extend offs bs w"] room le ld len eqs by simp
  also have "fill (q + r) (refs_bytes r vs) (fill q ?vr (fill p (refs_bytes r kids) (extend offs bs w))) =
      fill q (refs_bytes r vids) (fill p (refs_bytes r kids) (extend offs bs w))"
    using fill_append [of q ?vr "refs_bytes r vs" "fill p (refs_bytes r kids) (extend offs bs w)"]
      room le ld len eqs by (simp add: fill_def buffer_simps)
  finally show "bplist_serialize_entries ((key, v) # es) r p q w =
      Returns (fill q (refs_bytes r vids) (fill p (refs_bytes r kids) (extend offs bs w)))" .
qed

lemma writes_Array:
  assumes vs: "writes_values vs"
  shows "writes (PArray vs)"
  unfolding writes_def
proof (intro allI impI)
  fix r w offs bs
  assume r: "int_width r" and lay: "layout (PArray vs) r (reftabidx w) (dataidx w) = (offs, bs)"
    and room: "room (length offs) (length bs) w"
  let ?h = "header_bytes PLIST_TYPE_ARRAY (length vs)" and ?n = "length vs * r"
  let ?w1 = "extend [dataidx w] ?h w" and ?w2 = "(extend [dataidx w] ?h w)\<lparr>dataidx := dataidx w + length ?h + length vs * r\<rparr>"
  obtain ids o2 b2 where l2: "layout_values vs r (reftabidx ?w2) (dataidx ?w2) = (ids, o2, b2)"
    by (metis prod_cases3)
  have eqs: "offs = dataidx w # o2" "bs = ?h @ refs_bytes r ids @ b2"
    using lay l2 by (auto simp: Let_def)
  have len: "length ids = length vs" using l2 by (rule length_layout_values)
  have rm1: "room 1 (length ?h) w" using room eqs by (auto intro: room_mono)
  have h: "with_ref (\<lambda>w. c_bind (put_header PLIST_TYPE_ARRAY (length vs) w) g) w =
      c_bind (g ?w1) (\<lambda>w'. Returns (reftabidx w, w'))" for g
    using with_ref_emits [OF emits_header rm1]
    by (auto simp: with_ref_def c_bind_assoc split: prod.splits)
  have rm2: "room (length o2) (length b2) ?w2"
    using room eqs len by (simp add: room_def extend_def buffer_simps)
  have "bplist_serialize_values vs r (dataidx ?w1) ?w2 =
      Returns (fill (dataidx ?w1) (refs_bytes r ids) (extend o2 b2 ?w2))"
    using vs r l2 rm2 by (simp add: writes_values_def)
  moreover have "fill (dataidx ?w1) (refs_bytes r ids) (extend o2 b2 ?w2) = extend offs bs w"
    using put_reserved [of "dataidx w" ?h "refs_bytes r ids" b2 "buf w"] room eqs len
      put_put_append [of "reftabidx w" "[int (dataidx w)]" "map int o2" "reftab w"]
    by (simp add: fill_def extend_def room_def)
  ultimately show "bplist_serialize_object (PArray vs) r w = Returns (reftabidx w, extend offs bs w)"
    by (simp add: h Let_def)
qed

lemma writes_Dict:
  assumes es: "writes_entries es"
  shows "writes (PDict es)"
  unfolding writes_def
proof (intro allI impI)
  fix r w offs bs
  assume r: "int_width r" and lay: "layout (PDict es) r (reftabidx w) (dataidx w) = (offs, bs)"
    and room: "room (length offs) (length bs) w"
  let ?h = "header_bytes PLIST_TYPE_DICT (length es)" and ?n = "length es * r"
  let ?w1 = "extend [dataidx w] ?h w"
  let ?w2 = "?w1\<lparr>dataidx := dataidx w + length ?h + ?n + ?n\<rparr>"
  obtain ks vs o2 b2 where l2: "layout_entries es r (reftabidx ?w2) (dataidx ?w2) = (ks, vs, o2, b2)"
    by (metis prod_cases4)
  have eqs: "offs = dataidx w # o2" "bs = ?h @ refs_bytes r ks @ refs_bytes r vs @ b2"
    using lay l2 by (auto simp: Let_def)
  have len: "length ks = length es" "length vs = length es" using length_layout_entries [OF l2] by auto
  have rm1: "room 1 (length ?h) w" using room eqs by (auto intro: room_mono)
  have h: "with_ref (\<lambda>w. c_bind (put_header PLIST_TYPE_DICT (length es) w) g) w =
      c_bind (g ?w1) (\<lambda>w'. Returns (reftabidx w, w'))" for g
    using with_ref_emits [OF emits_header rm1]
    by (auto simp: with_ref_def c_bind_assoc split: prod.splits)
  have rm2: "room (length o2) (length b2) ?w2"
    using room eqs len by (simp add: room_def extend_def buffer_simps)
  let ?q = "dataidx ?w1 + ?n"
  have "bplist_serialize_entries es r (dataidx ?w1) ?q ?w2 =
      Returns (fill ?q (refs_bytes r vs) (fill (dataidx ?w1) (refs_bytes r ks) (extend o2 b2 ?w2)))"
    using es r l2 rm2 by (simp add: writes_entries_def)
  also have "fill ?q (refs_bytes r vs) (fill (dataidx ?w1) (refs_bytes r ks) (extend o2 b2 ?w2)) =
      fill (dataidx ?w1) (refs_bytes r ks @ refs_bytes r vs) (extend o2 b2 ?w2)"
    using fill_append [of "dataidx ?w1" "refs_bytes r ks" "refs_bytes r vs" "extend o2 b2 ?w2"] rm2 len
    by (simp add: room_def extend_def buffer_simps)
  also have "\<dots> = extend offs bs w"
    using put_reserved [of "dataidx w" ?h "refs_bytes r ks @ refs_bytes r vs" b2 "buf w"] room eqs len
      put_put_append [of "reftabidx w" "[int (dataidx w)]" "map int o2" "reftab w"]
    by (simp add: fill_def extend_def room_def add.assoc)
  finally show "bplist_serialize_object (PDict es) r w = Returns (reftabidx w, extend offs bs w)"
    by (simp add: h Let_def)
qed

lemma writes_all: "writes v"
proof (induction v rule: plist_induct3 [where Q = writes_values and R = writes_entries])
  case Nil_values
  then show ?case by (simp add: writes_values_def)
next
  case Nil_entries
  then show ?case by (simp add: writes_entries_def)
qed (auto intro: writes_leaf writes_Array writes_Dict writes_values_Cons writes_entries_Cons)

text \<open>The second pass, given room, writes exactly the layout of its object.\<close>

lemma serialize_object_layout:
  assumes "int_width r" and "layout v r (reftabidx w) (dataidx w) = (offs, bs)"
    and "room (length offs) (length bs) w"
  shows "bplist_serialize_object v r w = Returns (reftabidx w, extend offs bs w)"
  using writes_all [of v] assms by (simp add: writes_def)

end
