(* ===== verification/Plist_Encode.thy ===== *)
theory Plist_Encode
  imports Plist_Layout
begin

text \<open>
  The two passes together. The first pass counts the objects and references of the layout
  exactly and its bytes up to \<open>slack\<close>: for a dictionary it counts the bytes of the length of
  twice the number of entries, where the second pass writes the length of the number of entries.
  The whole file that \<open>plist_object_to_bplist\<close> returns is then \<open>bplist_file\<close>, padded at its
  end with \<open>slack\<close> zero bytes.
\<close>

section \<open>What the first pass counts\<close>

definition dict_slack :: "nat \<Rightarrow> nat" where
  "dict_slack n = (if n < 15 then 0 else integer_length (2 * int n) - integer_length (int n))"

primrec slack :: "plist \<Rightarrow> nat"
  and slack_values :: "plist list \<Rightarrow> nat"
  and slack_entries :: "(string \<times> plist) list \<Rightarrow> nat"
  and slack_entry :: "string \<times> plist \<Rightarrow> nat" where
  "slack PNull = 0"
| "slack (PPrimitive p) = 0"
| "slack (PInteger i) = 0"
| "slack (PReal x) = 0"
| "slack (PDate d) = 0"
| "slack (PData d) = 0"
| "slack (PString s) = 0"
| "slack (PUnicode s) = 0"
| "slack (PArray vs) = slack_values vs"
| "slack (PDict es) = dict_slack (length es) + slack_entries es"
| "slack_values [] = 0"
| "slack_values (v # vs) = slack v + slack_values vs"
| "slack_entries [] = 0"
| "slack_entries (e # es) = slack_entry e + slack_entries es"
| "slack_entry (k, v) = slack v"

lemma dict_slack_0_iff: "dict_slack n = 0 \<longleftrightarrow> \<not> (128 \<le> n \<and> n < 256 \<or> 2 ^ 15 \<le> n \<and> n < 2 ^ 16 \<or> 2 ^ 31 \<le> n \<and> n < 2 ^ 32)"
  by (auto simp: dict_slack_def integer_length_def)

lemma length_header_bytes:
  "length (header_bytes t n) = (if n < 15 then 1 else 1 + 1 + integer_length (int n))"
  by (simp add: header_bytes_def)

lemma length_header_dict:
  "(if n < 15 then 1 else 1 + 1 + integer_length (2 * int n)) = length (header_bytes t n) + dict_slack n"
  using integer_length_mono [of "int n" "2 * int n"]
  by (auto simp: length_header_bytes dict_slack_def)

lemma analyze_string_layout: "analyze_string (length (c_str s)) = length (string_layout s)"
  by (simp add: analyze_string_def string_layout_def length_header_bytes)

definition counted :: "plist \<Rightarrow> bool" where
  "counted v \<longleftrightarrow> (\<exists>n m. (\<forall>ob by re. bplist_analyze v (ob, by, re) = (ob + (m + 1), by + n, re + m)) \<and>
     (\<forall>r k d offs bs. layout v r k d = (offs, bs) \<longrightarrow> length offs = m + 1 \<and> length bs + slack v = n + m * r))"

definition counted_values :: "plist list \<Rightarrow> bool" where
  "counted_values vs \<longleftrightarrow> (\<exists>n m. (\<forall>ob by re. bplist_analyze_values vs (ob, by, re) = (ob + (m + length vs), by + n, re + m)) \<and>
     (\<forall>r k d ids offs bs. layout_values vs r k d = (ids, offs, bs) \<longrightarrow>
        length offs = m + length vs \<and> length bs + slack_values vs = n + m * r))"

definition counted_entries :: "(string \<times> plist) list \<Rightarrow> bool" where
  "counted_entries es \<longleftrightarrow> (\<exists>n m. (\<forall>ob by re. bplist_analyze_entries es (ob, by, re) = (ob + (m + 2 * length es), by + n, re + m)) \<and>
     (\<forall>r k d kids vids offs bs. layout_entries es r k d = (kids, vids, offs, bs) \<longrightarrow>
        length offs = m + 2 * length es \<and> length bs + slack_entries es = n + m * r))"

lemma counted_leaf:
  assumes "\<forall>vs. v \<noteq> PArray vs" and "\<forall>es. v \<noteq> PDict es"
  shows "counted v"
  unfolding counted_def using assms
  by (cases v)
     (auto simp: analyze_string_def string_layout_def length_header_bytes intro!: exI [of _ 0])

lemma counted_Array: "counted_values vs \<Longrightarrow> counted (PArray vs)"
  unfolding counted_def counted_values_def
proof (elim exE conjE)
  fix n m
  assume a: "\<forall>ob by re. bplist_analyze_values vs (ob, by, re) = (ob + (m + length vs), by + n, re + m)"
    and l: "\<forall>r k d ids offs bs. layout_values vs r k d = (ids, offs, bs) \<longrightarrow>
        length offs = m + length vs \<and> length bs + slack_values vs = n + m * r"
  have "length offs = m + length vs + 1 \<and>
      length bs + slack (PArray vs) = length (header_bytes PLIST_TYPE_ARRAY (length vs)) + n + (m + length vs) * r"
    if lay: "layout (PArray vs) r k d = (offs, bs)" for r k d offs bs
  proof -
    obtain ids o2 b2 where l2: "layout_values vs r (k + 1)
        (d + length (header_bytes PLIST_TYPE_ARRAY (length vs)) + length vs * r) = (ids, o2, b2)"
      by (metis prod_cases3)
    with l have "length o2 = m + length vs" "length b2 + slack_values vs = n + m * r" by blast+
    with lay l2 length_layout_values [OF l2] show ?thesis by (auto simp: Let_def algebra_simps)
  qed
  with a show "\<exists>n m. (\<forall>ob by re. bplist_analyze (PArray vs) (ob, by, re) = (ob + (m + 1), by + n, re + m)) \<and>
     (\<forall>r k d offs bs. layout (PArray vs) r k d = (offs, bs) \<longrightarrow>
        length offs = m + 1 \<and> length bs + slack (PArray vs) = n + m * r)"
    by (intro exI [of _ "length (header_bytes PLIST_TYPE_ARRAY (length vs)) + n"] exI [of _ "m + length vs"])
       (auto simp: Let_def length_header_bytes)
qed

lemma counted_Dict: "counted_entries es \<Longrightarrow> counted (PDict es)"
  unfolding counted_def counted_entries_def
proof (elim exE conjE)
  fix n m
  assume a: "\<forall>ob by re. bplist_analyze_entries es (ob, by, re) = (ob + (m + 2 * length es), by + n, re + m)"
    and l: "\<forall>r k d kids vids offs bs. layout_entries es r k d = (kids, vids, offs, bs) \<longrightarrow>
        length offs = m + 2 * length es \<and> length bs + slack_entries es = n + m * r"
  let ?h = "header_bytes PLIST_TYPE_DICT (length es)"
  have "length offs = m + 2 * length es + 1 \<and>
      length bs + slack (PDict es) = length ?h + dict_slack (length es) + n + (m + 2 * length es) * r"
    if lay: "layout (PDict es) r k d = (offs, bs)" for r k d offs bs
  proof -
    obtain ks vs o2 b2 where l2: "layout_entries es r (k + 1)
        (d + length ?h + length es * r + length es * r) = (ks, vs, o2, b2)"
      by (metis prod_cases4)
    with l have "length o2 = m + 2 * length es" "length b2 + slack_entries es = n + m * r" by blast+
    with lay l2 length_layout_entries [OF l2] show ?thesis by (auto simp: Let_def algebra_simps)
  qed
  with a show "\<exists>n m. (\<forall>ob by re. bplist_analyze (PDict es) (ob, by, re) = (ob + (m + 1), by + n, re + m)) \<and>
     (\<forall>r k d offs bs. layout (PDict es) r k d = (offs, bs) \<longrightarrow>
        length offs = m + 1 \<and> length bs + slack (PDict es) = n + m * r)"
    by (intro exI [of _ "length ?h + dict_slack (length es) + n"] exI [of _ "m + 2 * length es"])
       (auto simp: Let_def length_header_dict [where t = PLIST_TYPE_DICT])
qed

lemma counted_values_Cons:
  assumes "counted v" and "counted_values vs"
  shows "counted_values (v # vs)"
proof -
  obtain n m where
    a1: "\<forall>ob by re. bplist_analyze v (ob, by, re) = (ob + (m + 1), by + n, re + m)"
    and l1: "\<forall>r k d offs bs. layout v r k d = (offs, bs) \<longrightarrow> length offs = m + 1 \<and> length bs + slack v = n + m * r"
    using assms(1) unfolding counted_def by blast
  obtain n' m' where
    a2: "\<forall>ob by re. bplist_analyze_values vs (ob, by, re) = (ob + (m' + length vs), by + n', re + m')"
    and l2: "\<forall>r k d ids offs bs. layout_values vs r k d = (ids, offs, bs) \<longrightarrow>
        length offs = m' + length vs \<and> length bs + slack_values vs = n' + m' * r"
    using assms(2) unfolding counted_values_def by blast
  have "length offs = m + m' + length (v # vs) \<and> length bs + slack_values (v # vs) = n + n' + (m + m') * r"
    if "layout_values (v # vs) r k d = (ids, offs, bs)" for r k d ids offs bs
    using that l1 l2 by (fastforce simp: algebra_simps split: prod.splits)
  with a1 a2 show ?thesis
    unfolding counted_values_def by (intro exI [of _ "n + n'"] exI [of _ "m + m'"]) auto
qed

lemma counted_entries_Cons:
  assumes "counted v" and "counted_entries es"
  shows "counted_entries ((key, v) # es)"
proof -
  obtain n m where
    a1: "\<forall>ob by re. bplist_analyze v (ob, by, re) = (ob + (m + 1), by + n, re + m)"
    and l1: "\<forall>r k d offs bs. layout v r k d = (offs, bs) \<longrightarrow> length offs = m + 1 \<and> length bs + slack v = n + m * r"
    using assms(1) unfolding counted_def by blast
  obtain n' m' where
    a2: "\<forall>ob by re. bplist_analyze_entries es (ob, by, re) = (ob + (m' + 2 * length es), by + n', re + m')"
    and l2: "\<forall>r k d kids vids offs bs. layout_entries es r k d = (kids, vids, offs, bs) \<longrightarrow>
        length offs = m' + 2 * length es \<and> length bs + slack_entries es = n' + m' * r"
    using assms(2) unfolding counted_entries_def by blast
  have "length offs = m + m' + 2 * length ((key, v) # es) \<and>
      length bs + slack_entries ((key, v) # es) = length (string_layout key) + n + n' + (m + m') * r"
    if "layout_entries ((key, v) # es) r k d = (kids, vids, offs, bs)" for r k d kids vids offs bs
    using that l1 l2 by (fastforce simp: Let_def algebra_simps split: prod.splits)
  with a1 a2 show ?thesis
    unfolding counted_entries_def
    by (intro exI [of _ "length (string_layout key) + n + n'"] exI [of _ "m + m'"])
       (auto simp: analyze_string_layout)
qed

lemma counted_all: "counted v"
proof (induction v rule: plist_induct3 [where Q = counted_values and R = counted_entries])
  case Nil_values
  then show ?case unfolding counted_values_def by (intro exI [of _ 0]) auto
next
  case Nil_entries
  then show ?case unfolding counted_entries_def by (intro exI [of _ 0]) auto
qed (auto intro: counted_leaf counted_Array counted_Dict counted_values_Cons counted_entries_Cons)

text \<open>
  The first pass on an object: the number of objects is that of the offsets, there is one
  reference for each object but the root, and bytes and references make up the layout.
\<close>

lemma analyze_layout:
  assumes "layout v r k d = (offs, bs)" and "bplist_analyze v (0, 0, 0) = (ob, by, re)"
  shows "length offs = ob \<and> ob = re + 1 \<and> by + re * r = length bs + slack v"
  using counted_all [of v] assms unfolding counted_def by fastforce

section \<open>The file\<close>

definition trailer_bytes :: "nat \<Rightarrow> nat \<Rightarrow> nat \<Rightarrow> nat \<Rightarrow> u8 list" where
  "trailer_bytes offlen reflen ob reftaboffset =
     replicate 6 0 @ [word_of_nat offlen, word_of_nat reflen] @ be_bytes 8 ob @ be_bytes 8 0 @
     be_bytes 8 reftaboffset"

lemma length_trailer_bytes [simp]: "length (trailer_bytes offlen reflen ob ro) = 32"
  by (simp add: trailer_bytes_def)

definition bplist_reflen :: "plist \<Rightarrow> nat" where
  "bplist_reflen v = (case bplist_analyze v (0, 0, 0) of (ob, by, re) \<Rightarrow> integer_length (int re))"

definition bplist_offlen :: "plist \<Rightarrow> nat" where
  "bplist_offlen v =
     (case bplist_analyze v (0, 0, 0) of (ob, by, re) \<Rightarrow>
        integer_length (int (8 + (by + re * bplist_reflen v))))"

definition bplist_file :: "plist \<Rightarrow> u8 list" where
  "bplist_file v =
     (let (offs, bs) = layout v (bplist_reflen v) 0 8
      in bytes_of ''bplist00'' @ bs @ refs_bytes (bplist_offlen v) offs @
         trailer_bytes (bplist_offlen v) (bplist_reflen v) (length offs) (8 + length bs))"

lemma length_bplist_file:
  assumes "bplist_analyze v (0, 0, 0) = (ob, bt, re)"
  shows "length (bplist_file v) + slack v = 40 + (bt + re * bplist_reflen v) + ob * bplist_offlen v"
proof -
  obtain ofs bs where lay: "layout v (bplist_reflen v) 0 8 = (ofs, bs)" by (metis surj_pair)
  have "length ofs = ob" "bt + re * bplist_reflen v = length bs + slack v"
    using analyze_layout [OF lay assms] by auto
  then show ?thesis by (simp add: bplist_file_def lay)
qed

lemma emits_offsets:
  assumes "int_width n"
  shows "emits (put_offsets n (map int offs)) (refs_bytes n offs)"
proof (induction offs)
  case Nil
  then show ?case using emits_Returns by (simp add: emits_def)
next
  case (Cons x offs)
  have "emits (\<lambda>w. c_bind (put_integer n (int x) w) (put_offsets n (map int offs)))
      (be_int n (int x) @ refs_bytes n offs)"
    using assms Cons by (intro emits_bind emits_integer)
  moreover have "put_offsets n (map int (x # offs)) =
      (\<lambda>w. c_bind (put_integer n (int x) w) (put_offsets n (map int offs)))"
    by (rule ext) simp
  ultimately show ?case by (simp add: be_int_nat)
qed

text \<open>Skipping bytes of a zeroed buffer writes zeros.\<close>

lemma skip_zeros:
  assumes "slice (dataidx w) n (buf w) = replicate n 0" and "dataidx w + n \<le> length (buf w)"
  shows "w\<lparr>dataidx := dataidx w + n\<rparr> = extend [] (replicate n 0) w"
proof -
  have "put (buf w) (dataidx w) (replicate n 0) = buf w"
    using assms(1) append_take_drop_id [of n "drop (dataidx w) (buf w)"]
    by (simp add: put_def slice_def add.commute)
  then show ?thesis by (simp add: extend_def)
qed

lemma put_zeros: "length ys \<le> n \<Longrightarrow> put (replicate n z) 0 ys = ys @ replicate (n - length ys) z"
  by (simp add: put_def)

definition zero_writer :: "nat \<Rightarrow> nat \<Rightarrow> bplist_writer" where
  "zero_writer ob n = \<lparr>reftab = replicate ob 0, reftabidx = 0, buf = replicate n 0, dataidx = 0\<rparr>"

lemma buf_zero_writer:
  "length bs \<le> n \<Longrightarrow> buf (extend offs bs (zero_writer ob n)) = bs @ replicate (n - length bs) 0"
  by (simp add: extend_def zero_writer_def put_zeros)

lemma zeros_ahead:
  assumes "w = extend offs bs (zero_writer ob n)" and "length bs + k \<le> n"
  shows "slice (dataidx w) k (buf w) = replicate k 0"
proof -
  have "dataidx w = length bs" by (simp add: assms(1) zero_writer_def)
  then show ?thesis using assms(2) by (simp add: assms(1) buf_zero_writer slice_def)
qed

text \<open>The trailer as the code writes it, from where the offset table ends.\<close>

definition put_trailer :: "nat \<Rightarrow> nat \<Rightarrow> nat \<Rightarrow> nat \<Rightarrow> bplist_writer \<Rightarrow> bplist_writer c_run" where
  "put_trailer offlen reflen ob reftaboffset w =
     c_bind (put_integer 1 (int offlen) (w\<lparr>dataidx := dataidx w + 6\<rparr>)) (\<lambda>w.
     c_bind (put_integer 1 (int reflen) w) (\<lambda>w.
     c_bind (put_integer 8 (int ob) w) (\<lambda>w.
     c_bind (put_integer 8 0 w) (put_integer 8 (int reftaboffset)))))"

lemma put_trailer_extend:
  assumes "slice (dataidx w) 6 (buf w) = replicate 6 0" and r: "room 0 32 w"
  shows "put_trailer offlen reflen ob ro w = Returns (extend [] (trailer_bytes offlen reflen ob ro) w)"
proof -
  let ?f = "\<lambda>w. c_bind (put_integer 1 (int offlen) w) (\<lambda>w. c_bind (put_integer 1 (int reflen) w) (\<lambda>w.
     c_bind (put_integer 8 (int ob) w) (\<lambda>w. c_bind (put_integer 8 0 w) (put_integer 8 (int ro)))))"
  let ?bs = "be_int 1 (int offlen) @ be_int 1 (int reflen) @ be_int 8 (int ob) @ be_int 8 0 @ be_int 8 (int ro)"
  have e: "emits ?f ?bs" by (intro emits_bind emits_integer) (simp_all add: int_width_def)
  have bs: "trailer_bytes offlen reflen ob ro = replicate 6 0 @ ?bs"
    using be_int_nat [of 8 0] by (simp add: trailer_bytes_def be_int_nat be_bytes_1)
  have "w\<lparr>dataidx := dataidx w + 6\<rparr> = extend [] (replicate 6 0) w"
    using assms by (intro skip_zeros) (auto simp: room_def)
  then have "put_trailer offlen reflen ob ro w = ?f (extend [] (replicate 6 0) w)"
    by (simp only: put_trailer_def)
  also have "\<dots> = Returns (extend [] ?bs (extend [] (replicate 6 0) w))"
    by (rule emitsD [OF e], rule room_extend) (simp add: r)
  also have "extend [] ?bs (extend [] (replicate 6 0) w) = extend [] (replicate 6 0 @ ?bs) w"
    using r by (subst extend_extend) simp_all
  finally show ?thesis by (simp only: bs)
qed

theorem to_bplist_eq:
  assumes lay: "layout v (bplist_reflen v) 0 8 = (offs, bs)"
  shows "plist_object_to_bplist alloc v =
    Returns (if v = PNull then (- 1, None)
      else if \<not> alloc (length (bplist_file v) + slack v) then (- 2, None)
      else if \<not> alloc (8 * length offs) then (- 3, None)
      else (0, Some (bplist_file v @ replicate (slack v) 0)))"
proof -
  obtain ob bt re where an: "bplist_analyze v (0, 0, 0) = (ob, bt, re)" by (metis prod_cases3)
  let ?r = "bplist_reflen v" and ?o = "bplist_offlen v" and ?m = "bytes_of ''bplist00''"
  have r: "?r = integer_length (int re)" and o: "?o = integer_length (int (8 + (bt + re * ?r)))"
    by (simp_all add: bplist_reflen_def bplist_offlen_def an)
  have cnt: "length offs = ob" "bt + re * ?r = length bs + slack v"
    using analyze_layout [OF lay an] by auto
  let ?n = "8 + (bt + re * ?r) + ob * ?o + 32"
  let ?ot = "refs_bytes ?o offs" and ?t = "trailer_bytes ?o ?r ob (8 + length bs)"
  have fl: "bplist_file v = ?m @ bs @ ?ot @ ?t" by (simp add: bplist_file_def lay cnt)
  have lt: "length ?t = 32" by (simp add: trailer_bytes_def)
  have n: "?n = length (bplist_file v) + slack v" using cnt lt by (simp add: fl)
  let ?w0 = "zero_writer ob ?n"
  let ?w1 = "extend [] ?m ?w0"
  let ?w2 = "extend offs bs ?w1"
  let ?w3 = "extend [] ?ot ?w2"
  have room: "room ob (length (bplist_file v)) ?w0" using n by (simp add: room_def zero_writer_def)
  then have rm1: "room ob (length bs + length ?ot + 32) ?w1"
    using lt by - (rule room_extend, simp add: fl)
  then have rm2: "room 0 (length ?ot + 32) ?w2"
    using cnt by - (rule room_extend, simp add: add.assoc)
  then have rm3: "room 0 32 ?w3" by - (rule room_extend, simp)
  have s1: "put_bytes ?m ?w0 = Returns ?w1"
    using room by (intro emitsD [OF emits_bytes] room_mono [OF room]) (auto simp: fl)
  have idx: "reftabidx ?w1 = 0" "dataidx ?w1 = 8" by (simp_all add: zero_writer_def)
  have "room (length offs) (length bs) ?w1" using cnt by (intro room_mono [OF rm1]) auto
  moreover have "layout v ?r (reftabidx ?w1) (dataidx ?w1) = (offs, bs)" using lay by (simp only: idx)
  moreover have "int_width ?r" using r by simp
  ultimately have s2: "bplist_serialize_object v ?r ?w1 = Returns (0, ?w2)"
    using serialize_object_layout [of ?r v ?w1 offs bs] idx(1) by (simp only:)
  have tab: "take ob (reftab ?w2) = map int offs"
    using cnt put_zeros [of "map int offs" ob 0] by (simp add: extend_def zero_writer_def)
  have s3: "put_offsets ?o (map int offs) ?w2 = Returns ?w3"
    using o by (intro emitsD [OF emits_offsets] room_mono [OF rm2]) auto
  have w3: "?w3 = extend offs (?m @ bs @ ?ot) ?w0"
    using room_mono [OF room] lt cnt by (simp add: extend_extend fl)
  have zeros: "slice (dataidx ?w3) 6 (buf ?w3) = replicate 6 0"
    using n lt by (intro zeros_ahead [OF w3]) (simp add: fl)
  have s4: "put_trailer ?o ?r ob (8 + length bs) ?w3 = Returns (extend [] ?t ?w3)"
    using zeros rm3 by (rule put_trailer_extend)
  have "extend [] ?t ?w3 = extend offs (bplist_file v) ?w0"
    unfolding w3 using room_mono [OF room] lt cnt by (simp add: extend_extend fl)
  then have buf: "buf (extend [] ?t ?w3) = bplist_file v @ replicate (slack v) 0"
    using n by (simp add: buf_zero_writer)
  have d2: "dataidx ?w2 = 8 + length bs" by (simp add: zero_writer_def)
  show ?thesis
  proof (cases "v \<noteq> PNull \<and> alloc ?n \<and> alloc (ob * 8)")
    case True
    then have "plist_object_to_bplist alloc v =
      c_bind (put_bytes ?m ?w0) (\<lambda>w. c_bind (bplist_serialize_object v ?r w) (\<lambda>(_, w).
        c_bind (put_offsets ?o (take ob (reftab w)) w) (\<lambda>w'.
        c_bind (put_trailer ?o ?r ob (dataidx w) w') (\<lambda>w. Returns (0, Some (buf w))))))"
      by (simp add: plist_object_to_bplist_def an Let_def r o BPLIST_HEADER_LEN_def
          BPLIST_TRAILER_LEN_def zero_writer_def put_trailer_def c_bind_assoc del: put_offsets.simps)
    also have "\<dots> = Returns (0, Some (bplist_file v @ replicate (slack v) 0))"
      by (simp only: s1 s2 s3 s4 tab d2 buf c_bind.simps prod.case)
    finally show ?thesis using True cnt(1) by (simp only: n mult.commute simp_thms if_False if_True)
  next
    case False
    moreover have "plist_object_to_bplist alloc v =
      (if v = PNull then Returns (- 1, None) else if \<not> alloc ?n then Returns (- 2, None)
       else Returns (- 3, None))" if "\<not> (v \<noteq> PNull \<and> alloc ?n \<and> alloc (ob * 8))"
      using that by (auto simp: plist_object_to_bplist_def an Let_def r o BPLIST_HEADER_LEN_def
          BPLIST_TRAILER_LEN_def)
    ultimately show ?thesis using cnt(1) by (auto simp: n mult.commute)
  qed
qed

end
