(* ===== verification/Plist_Parse.thy ===== *)
theory Plist_Parse
  imports Plist_Integer
begin

text \<open>
  The parser of the binary format, \<open>bplist_parse_object\<close> and \<open>plist_object_from_bplist\<close> of
  \<open>src/utils/plist.cpp\<close>. \<open>PNull\<close> is the null pointer of a failed parse. Every read of the input
  is checked against its length, so an over-read of the code is a value
  \<open>Undefined (Out_of_bounds _ _)\<close>. Nothing in the code bounds the recursion: the parser takes a
  bound on its depth and \<open>Out_of_fuel\<close> is the run that would go deeper. The memory a failed parse
  frees is not modelled.
\<close>

section \<open>The marker byte and the length after it\<close>

text \<open>
  The marker byte (the type is its high nibble), the length and the index of what follows; \<open>None\<close> is the early
  \<open>return NULL\<close>.
\<close>

definition bplist_marker :: "u8 list \<Rightarrow> nat \<Rightarrow> (u8 \<times> nat \<times> nat) option c_run" where
  "bplist_marker data dataidx =
     (if length data \<le> dataidx then Returns None
      else c_bind (c_nth data dataidx) (\<lambda>type.
        let dataidx = dataidx + 1
        in if type AND 0x0f < 15 then Returns (Some (type, unat (type AND 0x0f), dataidx))
           else if length data \<le> dataidx then Returns None
           else c_bind (c_nth data dataidx) (\<lambda>lentype.
             let dataidx = dataidx + 1; lenlength = 2 ^ unat (lentype AND 0x0f) mod 256
             in if lentype AND 0xf0 \<noteq> PLIST_TYPE_INTEGER then Returns None
                else if length data < wrap64 (dataidx + lenlength) then Returns None
                else c_bind (parse_integer data dataidx lenlength) (\<lambda>ret.
                  case ret of
                    None \<Rightarrow> Returns None
                  | Some lenvalue \<Rightarrow>
                      if lenvalue < 0 then Returns None
                      else Returns (Some (type, nat lenvalue, dataidx + lenlength))))))"

section \<open>The loops over the references of a container\<close>

text \<open>
  One pass over \<open>n\<close> references of \<open>reflen\<close> bytes: \<open>step\<close> is what the loop does with a reference,
  \<open>None\<close> its \<open>break\<close>. The result is the index after the loop and the parts, \<open>None\<close> when the loop
  broke off.
\<close>

primrec parse_refs ::
  "(int \<Rightarrow> 'a option c_run) \<Rightarrow> u8 list \<Rightarrow> nat \<Rightarrow> nat \<Rightarrow> nat \<Rightarrow> (nat \<times> 'a list option) c_run" where
  "parse_refs step data reflen 0 = (\<lambda>dataidx. Returns (dataidx, Some []))"
| "parse_refs step data reflen (Suc n) = (\<lambda>dataidx.
     if length data < wrap64 (dataidx + reflen) then Returns (dataidx, None)
     else c_bind (parse_integer data dataidx reflen) (\<lambda>ret.
       case ret of
         None \<Rightarrow> Returns (dataidx, None)
       | Some idx \<Rightarrow>
           c_bind (step idx) (\<lambda>part.
             case part of
               None \<Rightarrow> Returns (dataidx + reflen, None)
             | Some v \<Rightarrow> c_bind (parse_refs step data reflen n (dataidx + reflen))
                 (\<lambda>(dataidx, vs). Returns (dataidx, map_option ((#) v) vs)))))"

text \<open>An index that is passed on as an \<open>uint64_t\<close>.\<close>

definition to_u64 :: "int \<Rightarrow> nat" where
  "to_u64 z = nat (z mod 2 ^ 64)"

definition non_null :: "plist \<Rightarrow> plist option" where
  "non_null v = (if v = PNull then None else Some v)"

definition array_step :: "(nat \<Rightarrow> plist c_run) \<Rightarrow> int \<Rightarrow> plist option c_run" where
  "array_step parse valueidx =
     (if valueidx < 0 then Returns None
      else c_bind (parse (to_u64 valueidx)) (\<lambda>v. Returns (non_null v)))"

definition value_step :: "(nat \<Rightarrow> plist c_run) \<Rightarrow> int \<Rightarrow> plist option c_run" where
  "value_step parse valueidx = c_bind (parse (to_u64 valueidx)) (\<lambda>v. Returns (non_null v))"

definition key_step :: "(nat \<Rightarrow> plist c_run) \<Rightarrow> int \<Rightarrow> string option c_run" where
  "key_step parse keyidx =
     c_bind (parse (to_u64 keyidx)) (\<lambda>obj. Returns (case obj of PString s \<Rightarrow> Some s | _ \<Rightarrow> None))"

section \<open>One object\<close>

text \<open>
  The branches on the type, after the marker. \<open>1 << length\<close> is computed on an \<open>uint64_t\<close> in the
  bounds check and on an \<open>int\<close> in the argument, which is then cut down to a \<open>uint8_t\<close>. The values
  of a dictionary are read even when the keys broke off, from wherever the keys stopped.
\<close>

definition parse_integer_object :: "u8 list \<Rightarrow> nat \<Rightarrow> nat \<Rightarrow> plist c_run" where
  "parse_integer_object data dataidx len =
     (if 64 \<le> len then Undefined (Bad_shift len)
      else if length data < wrap64 (dataidx + 2 ^ len) then Returns PNull
      else if 32 \<le> len then Undefined (Bad_shift len)
      else c_bind (parse_integer data dataidx (2 ^ len mod 256))
        (\<lambda>ret. Returns (case ret of None \<Rightarrow> PNull | Some v \<Rightarrow> PInteger v)))"

definition parse_real_object :: "u8 list \<Rightarrow> nat \<Rightarrow> nat \<Rightarrow> plist c_run" where
  "parse_real_object data dataidx len =
     (if 64 \<le> len then Undefined (Bad_shift len)
      else if length data < wrap64 (dataidx + 2 ^ len) then Returns PNull
      else c_bind (parse_real data dataidx (2 ^ len))
        (\<lambda>ret. Returns (case ret of None \<Rightarrow> PNull | Some v \<Rightarrow> PReal v)))"

definition parse_bytes_object ::
  "allocator \<Rightarrow> nat \<Rightarrow> (u8 list \<Rightarrow> plist) \<Rightarrow> u8 list \<Rightarrow> nat \<Rightarrow> nat \<Rightarrow> plist c_run" where
  "parse_bytes_object alloc needed make data dataidx len =
     (if length data < wrap64 (dataidx + len) then Returns PNull
      else if \<not> alloc needed then Returns PNull
      else c_bind (c_load data dataidx len) (\<lambda>bs. Returns (make bs)))"

definition parse_array_object ::
  "allocator \<Rightarrow> (nat \<Rightarrow> plist c_run) \<Rightarrow> u8 list \<Rightarrow> nat \<Rightarrow> nat \<Rightarrow> nat \<Rightarrow> plist c_run" where
  "parse_array_object alloc parse data reflen dataidx len =
     (if length data < wrap64 (dataidx + len * reflen) then Returns PNull
      else if \<not> alloc (len * sizeof_ptr) then Returns PNull
      else c_bind (parse_refs (array_step parse) data reflen len dataidx)
        (\<lambda>(_, vs). Returns (case vs of None \<Rightarrow> PNull | Some vs \<Rightarrow> PArray vs)))"

definition parse_dict_object ::
  "allocator \<Rightarrow> (nat \<Rightarrow> plist c_run) \<Rightarrow> u8 list \<Rightarrow> nat \<Rightarrow> nat \<Rightarrow> nat \<Rightarrow> plist c_run" where
  "parse_dict_object alloc parse data reflen dataidx len =
     (if length data < wrap64 (dataidx + 2 * len * reflen) then Returns PNull
      else if \<not> alloc (len * sizeof_ptr) then Returns PNull
      else c_bind (parse_refs (key_step parse) data reflen len dataidx) (\<lambda>(dataidx, ks).
        c_bind (parse_refs (value_step parse) data reflen len dataidx) (\<lambda>(_, vs).
        Returns (case (ks, vs) of (Some ks, Some vs) \<Rightarrow> PDict (zip ks vs) | _ \<Rightarrow> PNull))))"

definition parse_body ::
  "allocator \<Rightarrow> (nat \<Rightarrow> plist c_run) \<Rightarrow> u8 list \<Rightarrow> nat \<Rightarrow> u8 \<Rightarrow> nat \<Rightarrow> nat \<Rightarrow> plist c_run" where
  "parse_body alloc parse data reflen type len dataidx =
     (let kind = type AND 0xf0
      in if kind = PLIST_TYPE_PRIMITIVE then Returns (PPrimitive (type AND 0x0f))
      else if kind = PLIST_TYPE_INTEGER then parse_integer_object data dataidx len
      else if kind = PLIST_TYPE_REAL then parse_real_object data dataidx len
      else if kind = PLIST_TYPE_DATE then parse_bytes_object alloc 8 PDate data dataidx 8
      else if kind = PLIST_TYPE_DATA then parse_bytes_object alloc len PData data dataidx len
      else if kind = PLIST_TYPE_STRING then
        parse_bytes_object alloc (len + 1) (\<lambda>bs. PString (string_of bs)) data dataidx len
      else if kind = PLIST_TYPE_UNICODE_STRING then
        parse_bytes_object alloc (len + 1) (\<lambda>bs. PUnicode (string_of bs)) data dataidx len
      else if kind = PLIST_TYPE_ARRAY then parse_array_object alloc parse data reflen dataidx len
      else if kind = PLIST_TYPE_DICT then parse_dict_object alloc parse data reflen dataidx len
      else Returns PNull)"

primrec bplist_parse_object :: "allocator \<Rightarrow> int list \<Rightarrow> u8 list \<Rightarrow> nat \<Rightarrow> nat \<Rightarrow> nat \<Rightarrow> plist c_run" where
  "bplist_parse_object alloc reftab data reflen 0 = (\<lambda>reftabidx. Out_of_fuel)"
| "bplist_parse_object alloc reftab data reflen (Suc fuel) = (\<lambda>reftabidx.
     if length reftab \<le> reftabidx then Returns PNull
     else c_bind (c_nth reftab reftabidx) (\<lambda>off.
       c_bind (bplist_marker data (to_u64 off)) (\<lambda>marker.
         case marker of
           None \<Rightarrow> Returns PNull
         | Some (type, len, dataidx) \<Rightarrow>
             if \<not> alloc sizeof_object then Returns PNull
             else parse_body alloc (bplist_parse_object alloc reftab data reflen fuel)
                    data reflen type len dataidx)))"

section \<open>The whole file\<close>

text \<open>
  The trailer holds the widths of the offsets and of the references, the number of objects, the
  root and the position of the offset table. An offset of another width than 1, 2, 4 or 8 is left
  at the 0 of \<open>calloc\<close>. The loop counter over the objects is an \<open>int\<close>. A null \<open>data\<close> is \<open>None\<close>.
\<close>

definition read_offset :: "u8 list \<Rightarrow> nat \<Rightarrow> nat \<Rightarrow> nat \<Rightarrow> int c_run" where
  "read_offset data reftaboffset offlen i =
     c_bind (parse_integer data (wrap64 (reftaboffset + i * offlen)) offlen)
       (\<lambda>v. Returns (case v of None \<Rightarrow> 0 | Some v \<Rightarrow> v))"

definition read_field :: "u8 list \<Rightarrow> nat \<Rightarrow> int c_run" where
  "read_field trailer i = c_bind (parse_integer trailer i 8) (\<lambda>v. Returns (case v of None \<Rightarrow> 0 | Some v \<Rightarrow> v))"

definition parse_table ::
  "allocator \<Rightarrow> nat \<Rightarrow> u8 list \<Rightarrow> nat \<Rightarrow> nat \<Rightarrow> int \<Rightarrow> int \<Rightarrow> int \<Rightarrow> plist c_run" where
  "parse_table alloc fuel data offlen reflen objects rootid reftaboffset =
     (if objects \<le> 0 then Returns PNull
      else if rootid < 0 \<or> objects \<le> rootid then Returns PNull
      else if reftaboffset < 8 then Returns PNull
      else if \<not> in_s64 (objects * int offlen) \<or> \<not> in_s64 (reftaboffset + objects * int offlen)
        then Undefined Signed_overflow
      else if int (length data) < reftaboffset + objects * int offlen then Returns PNull
      else if \<not> alloc (nat objects * 8) then Returns PNull
      else if 2 ^ 31 \<le> objects then Undefined Signed_overflow
      else c_bind (c_map (read_offset data (nat reftaboffset) offlen) [0..<nat objects])
        (\<lambda>reftab. bplist_parse_object alloc reftab data reflen fuel (nat rootid)))"

definition plist_object_from_bplist :: "allocator \<Rightarrow> nat \<Rightarrow> u8 list option \<Rightarrow> plist c_run" where
  "plist_object_from_bplist alloc fuel data_ptr =
     (case data_ptr of
        None \<Rightarrow> Returns PNull
      | Some data \<Rightarrow>
          if length data < 32 then Returns PNull
          else let trailer = drop (length data - 32) data
               in c_bind (c_nth trailer 6) (\<lambda>offlen.
                  c_bind (c_nth trailer 7) (\<lambda>reflen.
                  c_bind (read_field trailer 8) (\<lambda>objects.
                  c_bind (read_field trailer 16) (\<lambda>rootid.
                  c_bind (read_field trailer 24) (\<lambda>reftaboffset.
                  parse_table alloc fuel data (unat offlen) (unat reflen) objects rootid reftaboffset))))))"

section \<open>Memory safety\<close>

text \<open>
  The undefined behaviour the parser can reach: the signed arithmetic on the fields of the trailer,
  a shift by a length the input chooses, and the eight bytes that are read for a real whose marker
  announces one or two. Every other read stays inside the input.
\<close>

definition parse_allowed :: "nat \<Rightarrow> ub \<Rightarrow> bool" where
  "parse_allowed n u =
     (case u of
        Signed_overflow \<Rightarrow> True
      | Bad_shift k \<Rightarrow> 32 \<le> k
      | Out_of_bounds i m \<Rightarrow> m = 8 \<and> i < n \<and> n < i + 8
      | Null_deref \<Rightarrow> False
      | Uncaught_exception \<Rightarrow> False)"

text \<open>An input and a reference width as they can occur.\<close>

definition parse_env :: "u8 list \<Rightarrow> nat \<Rightarrow> bool" where
  "parse_env data reflen \<longleftrightarrow> length data < 2 ^ 63 \<and> reflen < 256"

lemma wrap64_fits:
  "length data < wrap64 (i + n) \<longleftrightarrow> length data < i + n" if "i \<le> 2 ^ 63" "n < 2 ^ 63"
  using that by simp

lemma safe_load [safe_intros]: "i + n \<le> length xs \<Longrightarrow> fails_only P (c_load xs i n)"
  by (simp add: c_load_def)

lemma safe_nth [safe_intros]: "i < length xs \<Longrightarrow> fails_only P (c_nth xs i)"
  by (simp add: c_nth_def)

lemma safe_parse_integer [safe_intros]: "i + n \<le> length data \<Longrightarrow> fails_only P (parse_integer data i n)"
  by (cases "int_width n") (auto simp: parse_integer_load parse_integer_None intro!: safe_intros)

lemma parse_integer_range: "parse_integer data i n = Returns (Some v) \<Longrightarrow> in_s64 v"
proof (cases "int_width n")
  case True
  assume "parse_integer data i n = Returns (Some v)"
  then have le: "i + n \<le> length data"
    and v: "v = (if n = 8 then sgn64 (int (be_value (slice i n data))) else int (be_value (slice i n data)))"
    using True by (auto simp: parse_integer_load c_load_def split: if_splits)
  have "be_value (slice i n data) < 256 ^ n"
    using be_value_lt [of "slice i n data"] le by (simp add: slice_def)
  then show "in_s64 v" using True v by (auto simp: int_width_def in_s64_def [of "int _"])
qed (simp add: parse_integer_None)

lemma safe_marker: "length data < 2 ^ 63 \<Longrightarrow> fails_only P (bplist_marker data i)"
  unfolding bplist_marker_def Let_def by (auto intro!: safe_intros split: option.splits)

lemma marker_bounds:
  assumes "bplist_marker data i = Returns (Some (type, len, j))" and "length data < 2 ^ 63"
  shows "j \<le> length data \<and> len < 2 ^ 63"
proof -
  have "unat (type AND 0x0f) < 2 ^ 63" for type :: u8
    by (rule less_trans [OF unat_u8_lt]) simp
  moreover have "2 ^ k mod 256 < (256 :: nat)" for k by simp
  ultimately show ?thesis
    using assms unfolding bplist_marker_def Let_def
    by (auto simp: c_nth_def in_s64_def dest!: parse_integer_range split: if_splits option.splits)
qed
lemma safe_refs:
  assumes "length data < 2 ^ 63" "reflen < 256" "\<And>idx. fails_only P (step idx)" "i \<le> length data"
  shows "fails_only P (parse_refs step data reflen n i)"
  using assms(4)
proof (induction n arbitrary: i)
  case (Suc n)
  have "\<not> length data < wrap64 (i + reflen) \<Longrightarrow> i + reflen \<le> length data"
    using Suc.prems assms(1,2) by (simp add: wrap64_fits)
  then show ?case
    using assms(3) Suc by (auto intro!: safe_intros split: option.splits)
qed simp

lemma refs_bounds:
  assumes "length data < 2 ^ 63" "reflen < 256"
    and "parse_refs step data reflen n i = Returns (j, vs)" and "i \<le> length data"
  shows "j \<le> length data"
  using assms(3,4)
proof (induction n arbitrary: i vs)
  case (Suc n)
  have "\<not> length data < wrap64 (i + reflen) \<Longrightarrow> i + reflen \<le> length data"
    using Suc.prems assms(1,2) by (simp add: wrap64_fits)
  then show ?case
    using Suc by (fastforce split: if_splits option.splits)
qed simp

lemma safe_array_step: "(\<And>i. fails_only P (parse i)) \<Longrightarrow> fails_only P (array_step parse idx)"
  unfolding array_step_def by (auto intro!: safe_intros)

lemma safe_value_step: "(\<And>i. fails_only P (parse i)) \<Longrightarrow> fails_only P (value_step parse idx)"
  unfolding value_step_def by (auto intro!: safe_intros)

lemma safe_key_step: "(\<And>i. fails_only P (parse i)) \<Longrightarrow> fails_only P (key_step parse idx)"
  unfolding key_step_def by (auto intro!: safe_intros)

lemma safe_integer_object:
  assumes "length data < 2 ^ 63" "i \<le> length data"
  shows "fails_only (parse_allowed (length data)) (parse_integer_object data i len)"
proof (cases "64 \<le> len")
  case False
  then have "(2 :: nat) ^ len \<le> 2 ^ 63" by (intro power_increasing) auto
  then have "wrap64 (i + 2 ^ len) = i + 2 ^ len" using assms by simp
  then show ?thesis
    using False unfolding parse_integer_object_def
    by (auto intro!: safe_intros intro: order_trans [OF add_left_mono [OF mod_less_eq_dividend]] 
        simp: parse_allowed_def)
qed (simp add: parse_integer_object_def parse_allowed_def)

lemma safe_real_object:
  assumes "length data < 2 ^ 63" "i \<le> length data"
  shows "fails_only (parse_allowed (length data)) (parse_real_object data i len)"
proof (cases "64 \<le> len")
  case False
  then have "(2 :: nat) ^ len \<le> 2 ^ 63" by (intro power_increasing) auto
  then have w: "wrap64 (i + 2 ^ len) = i + 2 ^ len" using assms by simp
  have "(1 :: nat) \<le> 2 ^ len" by simp
  then have "fails_only (parse_allowed (length data)) (parse_real data i (2 ^ len))"
    if "i + 2 ^ len \<le> length data"
    using that \<open>1 \<le> 2 ^ len\<close> order_less_le_trans [of i "i + 2 ^ len" "length data"]
    unfolding parse_real_def by (auto intro!: fails_only_bind simp: c_load_def parse_allowed_def)
  then show ?thesis
    using False w unfolding parse_real_object_def by (auto intro!: safe_intros)
qed (simp add: parse_real_object_def parse_allowed_def)

lemma safe_bytes_object:
  assumes "length data < 2 ^ 63" "i \<le> length data" "len < 2 ^ 63"
  shows "fails_only P (parse_bytes_object alloc needed make data i len)"
  using assms unfolding parse_bytes_object_def by (auto intro!: safe_intros simp: wrap64_fits)

lemma safe_body:
  assumes env: "parse_env data reflen"
    and parse: "\<And>i. fails_only (parse_allowed (length data)) (parse i)"
    and i: "i \<le> length data" and len: "len < 2 ^ 63"
  shows "fails_only (parse_allowed (length data)) (parse_body alloc parse data reflen type len i)"
proof -
  have d: "length data < 2 ^ 63" "reflen < 256" using env by (auto simp: parse_env_def)
  have "fails_only (parse_allowed (length data)) (parse_array_object alloc parse data reflen i len)"
    unfolding parse_array_object_def using d i parse
    by (auto intro!: safe_intros safe_refs safe_array_step)
  moreover have "fails_only (parse_allowed (length data)) (parse_dict_object alloc parse data reflen i len)"
    unfolding parse_dict_object_def using d i parse
    by (auto intro!: safe_intros safe_refs safe_key_step safe_value_step dest!: refs_bounds [OF d])
  moreover have "fails_only (parse_allowed (length data)) (parse_bytes_object alloc needed make data i m)"
    if "m < 2 ^ 63" for needed make m
    using safe_bytes_object d i that by blast
  ultimately show ?thesis
    unfolding parse_body_def Let_def using d i len
    by (intro fails_only_if safe_integer_object safe_real_object) simp_all
qed

lemma safe_object:
  assumes "parse_env data reflen"
  shows "fails_only (parse_allowed (length data)) (bplist_parse_object alloc reftab data reflen fuel idx)"
proof (induction fuel arbitrary: idx)
  case (Suc fuel)
  have d: "length data < 2 ^ 63" using assms by (simp add: parse_env_def)
  show ?case
    using Suc assms marker_bounds [OF _ d]
    by (auto intro!: fails_only_bind safe_nth safe_marker [OF d] safe_body split: option.splits)
qed simp

lemma safe_table:
  assumes "parse_env data reflen" "offlen < 256" "length data < 2 ^ 32"
  shows "fails_only (parse_allowed (length data)) (parse_table alloc fuel data offlen reflen objects rootid off)"
proof (cases "0 < objects \<and> 8 \<le> off \<and> off + objects * int offlen \<le> int (length data) \<and> objects < 2 ^ 31")
  case True
  have "fails_only (parse_allowed (length data)) (read_offset data (nat off) offlen i)" if "i < nat objects" for i
  proof -
    have "int i + 1 \<le> objects" using that by linarith
    then have "(int i + 1) * int offlen \<le> objects * int offlen" by (rule mult_right_mono) simp
    then have "int (nat off + i * offlen + offlen) \<le> int (length data)"
      using True by (simp add: algebra_simps)
    then have "nat off + i * offlen + offlen \<le> length data" by linarith
    then show ?thesis
      using assms(3) unfolding read_offset_def by (auto intro!: safe_intros)
  qed
  then show ?thesis
    unfolding parse_table_def using assms(1)
    by (auto intro!: fails_only_bind fails_only_map safe_object simp: parse_allowed_def)
qed (auto simp: parse_table_def parse_allowed_def)

theorem safe_from_bplist:
  assumes "length data < 2 ^ 32"
  shows "fails_only (parse_allowed (length data)) (plist_object_from_bplist alloc fuel (Some data))"
proof -
  have "parse_env data (unat (r :: u8))" for r using assms by (simp add: parse_env_def)
  then show ?thesis
    unfolding plist_object_from_bplist_def read_field_def Let_def using assms
    by (auto intro!: safe_intros safe_table)
qed

end
