(* ===== verification/Plist_Roundtrip.thy ===== *)
theory Plist_Roundtrip
  imports Plist_Encode Plist_Parse
begin

text \<open>
  Serializer and parser together: what \<open>plist_object_from_bplist\<close> reads back from the bytes that
  \<open>plist_object_to_bplist\<close> wrote. The lemmas go by the layout: where the offsets and bytes of
  an object's layout lie in the tables the parser has, \<open>bplist_parse_object\<close> returns the object
  (\<open>canonical\<close>: strings cut at their first NUL, and a real with its bytes reversed, since the
  serializer copies its memory image and the parser swaps it).
\<close>

section \<open>Markers\<close>

lemma nibble_small: "unat (x :: u8) < 16 \<Longrightarrow> x AND 0x0f = x"
proof -
  assume "unat x < 16"
  then have "take_bit 4 x = x"
    by (intro word_unat_eq_iff [THEN iffD2]) (simp only: unsigned_take_bit_eq, simp add: take_bit_eq_mod)
  then show ?thesis by (simp add: take_bit_eq_mask mask_eq_exp_minus_1)
qed

lemma marker_byte:
  assumes "t AND 0xf0 = t" and "unat (x :: u8) < 16"
  shows "(t OR x) AND 0xf0 = t" and "(t OR x) AND 0x0f = x"
proof -
  have x: "x = x AND 0x0f" using nibble_small [OF assms(2)] by simp
  have "x AND 0xf0 = x AND (0x0f AND 0xf0)" by (subst x) (simp only: and.assoc)
  then have "x AND 0xf0 = 0" by simp
  moreover have "t AND 0x0f = t AND (0xf0 AND 0x0f)" by (subst assms(1) [symmetric]) (simp only: and.assoc)
  then have "t AND 0x0f = 0" by simp
  ultimately show "(t OR x) AND 0xf0 = t" "(t OR x) AND 0x0f = x"
    using assms(1) x by (simp_all add: bit.conj_disj_distrib2)
qed

definition marker_of :: "u8 \<Rightarrow> nat \<Rightarrow> u8" where
  "marker_of t n = t OR (if n < 15 then word_of_nat n else 0x0f)"

lemma marker_of_kind: "t AND 0xf0 = t \<Longrightarrow> marker_of t n AND 0xf0 = t"
  by (simp add: marker_of_def marker_byte)

lemma marker_holds:
  assumes h: "holds_at data d (header_bytes t n)" and t: "t AND 0xf0 = t"
    and n: "n < 2 ^ 63" and data: "length data < 2 ^ 63"
  shows "bplist_marker data d = Returns (Some (marker_of t n, n, d + length (header_bytes t n)))"
proof (cases "n < 15")
  case True
  then have "unat (word_of_nat n :: u8) < 15" by simp
  then show ?thesis
    using True h t by (auto simp: bplist_marker_def header_bytes_def marker_of_def buffer_simps
        marker_byte c_nth_def word_less_nat_alt Let_def)
next
  case False
  let ?k = "blist_integer_length (int n)" and ?l = "integer_length (int n)"
  have k: "unat (word_of_nat ?k :: u8) = ?k" "?k < 16"
    using blist_integer_length_le [of "int n"] by simp_all
  have h': "d < length data" "data ! d = t OR 0x0f" "d + 1 < length data"
    "data ! (d + 1) = PLIST_TYPE_INTEGER OR word_of_nat ?k" "holds_at data (d + 2) (be_bytes ?l n)"
    using False h by (auto simp: header_bytes_def buffer_simps)
  have l: "d + 2 + ?l \<le> length data" using holds_at_le [OF h'(5)] by simp
  have "n < 256 ^ ?l" using integer_length_fits [of "int n"] n by (simp add: in_s64_def)
  then have p: "parse_integer data (d + 2) ?l = Returns (Some (int n))"
    using h'(5) n by (intro parse_integer_nat) auto
  have "2 ^ ?k mod 256 = ?l"
    unfolding integer_length_marker by (rule mod_less) (rule le_less_trans [OF integer_length_pos(3)], simp)
  moreover have "(PLIST_TYPE_INTEGER OR word_of_nat ?k) AND 0xf0 = PLIST_TYPE_INTEGER"
    "(PLIST_TYPE_INTEGER OR word_of_nat ?k) AND 0x0f = word_of_nat ?k"
    using k by (intro marker_byte; simp add: PLIST_TYPE_INTEGER_def)+
  ultimately show ?thesis
    using False h' l p t k data
    by (simp add: bplist_marker_def c_nth_def marker_byte marker_of_def header_bytes_def Let_def)
qed

section \<open>What can be read back\<close>

text \<open>
  Objects without dates and Unicode strings (which the serializer leaves empty), with primitives
  that fit the marker's nibble and integers of an \<open>int64_t\<close>.
\<close>

primrec readable :: "plist \<Rightarrow> bool"
  and readable_values :: "plist list \<Rightarrow> bool"
  and readable_entries :: "(string \<times> plist) list \<Rightarrow> bool"
  and readable_entry :: "string \<times> plist \<Rightarrow> bool" where
  "readable PNull = True"
| "readable (PPrimitive p) = (unat p < 15)"
| "readable (PInteger i) = in_s64 i"
| "readable (PReal x) = True"
| "readable (PDate d) = False"
| "readable (PData d) = True"
| "readable (PString s) = True"
| "readable (PUnicode s) = False"
| "readable (PArray vs) = readable_values vs"
| "readable (PDict es) = readable_entries es"
| "readable_values [] = True"
| "readable_values (v # vs) = (readable v \<and> readable_values vs)"
| "readable_entries [] = True"
| "readable_entries (e # es) = (readable_entry e \<and> readable_entries es)"
| "readable_entry (k, v) = readable v"

primrec canonical :: "plist \<Rightarrow> plist"
  and canonical_values :: "plist list \<Rightarrow> plist list"
  and canonical_entries :: "(string \<times> plist) list \<Rightarrow> (string \<times> plist) list"
  and canonical_entry :: "string \<times> plist \<Rightarrow> string \<times> plist" where
  "canonical PNull = PPrimitive 0"
| "canonical (PPrimitive p) = PPrimitive p"
| "canonical (PInteger i) = PInteger i"
| "canonical (PReal x) = PReal (ntohll x)"
| "canonical (PDate d) = PNull"
| "canonical (PData d) = PData d"
| "canonical (PString s) = PString (c_str s)"
| "canonical (PUnicode s) = PNull"
| "canonical (PArray vs) = PArray (canonical_values vs)"
| "canonical (PDict es) = PDict (canonical_entries es)"
| "canonical_values [] = []"
| "canonical_values (v # vs) = canonical v # canonical_values vs"
| "canonical_entries [] = []"
| "canonical_entries (e # es) = canonical_entry e # canonical_entries es"
| "canonical_entry (k, v) = (c_str k, canonical v)"

text \<open>The recursion depth of the parser, the keys of a dictionary included.\<close>

primrec depth :: "plist \<Rightarrow> nat"
  and depth_values :: "plist list \<Rightarrow> nat"
  and depth_entries :: "(string \<times> plist) list \<Rightarrow> nat"
  and depth_entry :: "string \<times> plist \<Rightarrow> nat" where
  "depth PNull = 1"
| "depth (PPrimitive p) = 1"
| "depth (PInteger i) = 1"
| "depth (PReal x) = 1"
| "depth (PDate d) = 1"
| "depth (PData d) = 1"
| "depth (PString s) = 1"
| "depth (PUnicode s) = 1"
| "depth (PArray vs) = Suc (depth_values vs)"
| "depth (PDict es) = Suc (depth_entries es)"
| "depth_values [] = 0"
| "depth_values (v # vs) = max (depth v) (depth_values vs)"
| "depth_entries [] = 0"
| "depth_entries (e # es) = max (depth_entry e) (depth_entries es)"
| "depth_entry (k, v) = depth v"

lemma depth_pos: "0 < depth v"
  by (cases v) auto

lemma canonical_not_null: "readable v \<Longrightarrow> canonical v \<noteq> PNull"
  by (cases v) auto

lemma map_fst_canonical: "map fst (canonical_entries es) = map (\<lambda>e. c_str (fst e)) es"
  by (induction es) auto

lemma length_canonical_entries [simp]: "length (canonical_entries es) = length es"
  by (induction es) auto

definition reads_env :: "allocator \<Rightarrow> int list \<Rightarrow> u8 list \<Rightarrow> nat \<Rightarrow> bool" where
  "reads_env alloc tab data r \<longleftrightarrow>
     int_width r \<and> length tab \<le> 256 ^ r \<and> length tab < 2 ^ 63 \<and> length data < 2 ^ 62 \<and>
     (\<forall>n \<le> 8 * length data + 32. alloc n)"

lemma to_u64_nat [simp]: "n < 2 ^ 64 \<Longrightarrow> to_u64 (int n) = n"
  by (simp add: to_u64_def)

lemma parse_object_marker:
  assumes env: "reads_env alloc tab data r" and "holds_at tab k (int d # ofs)"
    and "d < length data" and "bplist_marker data d = Returns (Some (mt, n, j))"
  shows "bplist_parse_object alloc tab data r (Suc fuel) k =
    parse_body alloc (bplist_parse_object alloc tab data r fuel) data r mt n j"
proof -
  have "d < 2 ^ 64" using assms(1,3) by (simp add: reads_env_def)
  moreover have "alloc sizeof_object" using env by (simp add: reads_env_def sizeof_object_def)
  moreover have "k < length tab" "tab ! k = int d" using assms(2) by (auto simp: buffer_simps)
  ultimately show ?thesis using assms(4) by (simp add: c_nth_def)
qed

declare bplist_parse_object.simps [simp del]

lemma parse_object_header:
  assumes env: "reads_env alloc tab data r" and "holds_at tab k (int d # ofs)"
    and h: "holds_at data d (header_bytes t n @ rest)" and t: "t AND 0xf0 = t" and n: "n < 2 ^ 63"
  shows "bplist_parse_object alloc tab data r (Suc fuel) k =
    parse_body alloc (bplist_parse_object alloc tab data r fuel) data r (marker_of t n) n
      (d + length (header_bytes t n))"
proof (rule parse_object_marker [OF env assms(2)])
  have len: "length data < 2 ^ 63" using env by (simp add: reads_env_def)
  have "holds_at data d (header_bytes t n)" using h by (simp add: holds_at_append)
  then show "bplist_marker data d = Returns (Some (marker_of t n, n, d + length (header_bytes t n)))"
    using t n len by (rule marker_holds)
  have "1 \<le> length (header_bytes t n)" by (simp only: length_header_bytes) simp
  then show "d < length data" using holds_at_le [OF h] by (simp del: One_nat_def)
qed

lemma parse_refs_Cons:
  assumes env: "reads_env alloc tab data r" and "holds_at data i (be_bytes r idn)"
    and "idn < length tab" and "step (int idn) = Returns (Some v)"
    and "parse_refs step data r n (i + r) = Returns (j, Some vs)"
  shows "parse_refs step data r (Suc n) i = Returns (j, Some (v # vs))"
proof -
  have "i + r \<le> length data" using holds_at_le [OF assms(2)] by simp
  moreover have "length data < 2 ^ 64" using env by (simp add: reads_env_def)
  moreover have "parse_integer data i r = Returns (Some (int idn))"
    using env assms(2,3) by (intro parse_integer_nat) (auto simp: reads_env_def)
  ultimately show ?thesis using assms(4,5) by simp
qed

section \<open>Reading a layout\<close>

lemma header_bytes_small: "n < 15 \<Longrightarrow> header_bytes t n = [t OR word_of_nat n]"
  by (simp add: header_bytes_def)

lemma body_kinds:
  "marker_of PLIST_TYPE_PRIMITIVE n AND 0xf0 = PLIST_TYPE_PRIMITIVE"
  "marker_of PLIST_TYPE_INTEGER n AND 0xf0 = PLIST_TYPE_INTEGER"
  "marker_of PLIST_TYPE_REAL n AND 0xf0 = PLIST_TYPE_REAL"
  "marker_of PLIST_TYPE_DATA n AND 0xf0 = PLIST_TYPE_DATA"
  "marker_of PLIST_TYPE_STRING n AND 0xf0 = PLIST_TYPE_STRING"
  "marker_of PLIST_TYPE_ARRAY n AND 0xf0 = PLIST_TYPE_ARRAY"
  "marker_of PLIST_TYPE_DICT n AND 0xf0 = PLIST_TYPE_DICT"
  by (rule marker_of_kind, simp add: plist_type_defs)+

lemma kinds_distinct:
  "PLIST_TYPE_INTEGER \<noteq> PLIST_TYPE_PRIMITIVE"
  "PLIST_TYPE_REAL \<noteq> PLIST_TYPE_PRIMITIVE" "PLIST_TYPE_REAL \<noteq> PLIST_TYPE_INTEGER"
  "PLIST_TYPE_DATA \<noteq> PLIST_TYPE_PRIMITIVE" "PLIST_TYPE_DATA \<noteq> PLIST_TYPE_INTEGER"
  "PLIST_TYPE_DATA \<noteq> PLIST_TYPE_REAL" "PLIST_TYPE_DATA \<noteq> PLIST_TYPE_DATE"
  "PLIST_TYPE_STRING \<noteq> PLIST_TYPE_PRIMITIVE" "PLIST_TYPE_STRING \<noteq> PLIST_TYPE_INTEGER"
  "PLIST_TYPE_STRING \<noteq> PLIST_TYPE_REAL" "PLIST_TYPE_STRING \<noteq> PLIST_TYPE_DATE"
  "PLIST_TYPE_STRING \<noteq> PLIST_TYPE_DATA"
  "PLIST_TYPE_ARRAY \<noteq> PLIST_TYPE_PRIMITIVE" "PLIST_TYPE_ARRAY \<noteq> PLIST_TYPE_INTEGER"
  "PLIST_TYPE_ARRAY \<noteq> PLIST_TYPE_REAL" "PLIST_TYPE_ARRAY \<noteq> PLIST_TYPE_DATE"
  "PLIST_TYPE_ARRAY \<noteq> PLIST_TYPE_DATA" "PLIST_TYPE_ARRAY \<noteq> PLIST_TYPE_STRING"
  "PLIST_TYPE_ARRAY \<noteq> PLIST_TYPE_UNICODE_STRING"
  "PLIST_TYPE_DICT \<noteq> PLIST_TYPE_PRIMITIVE" "PLIST_TYPE_DICT \<noteq> PLIST_TYPE_INTEGER"
  "PLIST_TYPE_DICT \<noteq> PLIST_TYPE_REAL" "PLIST_TYPE_DICT \<noteq> PLIST_TYPE_DATE"
  "PLIST_TYPE_DICT \<noteq> PLIST_TYPE_DATA" "PLIST_TYPE_DICT \<noteq> PLIST_TYPE_STRING"
  "PLIST_TYPE_DICT \<noteq> PLIST_TYPE_UNICODE_STRING" "PLIST_TYPE_DICT \<noteq> PLIST_TYPE_ARRAY"
  by (simp_all add: plist_type_defs)

lemmas body_simps = parse_body_def Let_def body_kinds kinds_distinct

lemma type_nibbles:
  "PLIST_TYPE_PRIMITIVE AND 0xf0 = PLIST_TYPE_PRIMITIVE"
  "PLIST_TYPE_INTEGER AND 0xf0 = PLIST_TYPE_INTEGER"
  "PLIST_TYPE_REAL AND 0xf0 = PLIST_TYPE_REAL"
  "PLIST_TYPE_DATA AND 0xf0 = PLIST_TYPE_DATA"
  "PLIST_TYPE_STRING AND 0xf0 = PLIST_TYPE_STRING"
  "PLIST_TYPE_ARRAY AND 0xf0 = PLIST_TYPE_ARRAY"
  "PLIST_TYPE_DICT AND 0xf0 = PLIST_TYPE_DICT"
  by (simp_all add: plist_type_defs)

lemma parse_string_layout:
  assumes env: "reads_env alloc tab data r" and "holds_at tab k (int d # ofs)"
    and h: "holds_at data d (string_layout s)"
  shows "bplist_parse_object alloc tab data r (Suc fuel) k = Returns (PString (c_str s))"
proof -
  let ?n = "length (c_str s)" and ?h = "header_bytes PLIST_TYPE_STRING (length (c_str s))"
  have le: "d + length ?h + ?n \<le> length data" and len: "length data < 2 ^ 62"
    using holds_at_le [OF h] env by (simp_all add: string_layout_def reads_env_def)
  have "bplist_parse_object alloc tab data r (Suc fuel) k =
    parse_body alloc (bplist_parse_object alloc tab data r fuel) data r
      (marker_of PLIST_TYPE_STRING ?n) ?n (d + length ?h)"
    by (rule parse_object_header [OF env assms(2) h [unfolded string_layout_def] type_nibbles(5)])
       (use le len in simp)
  moreover have "alloc (?n + 1)" using env le by (simp add: reads_env_def)
  moreover have "holds_at data (d + length ?h) (bytes_of (c_str s))"
    using h by (simp add: string_layout_def holds_at_append)
  ultimately show ?thesis
    using le len by (simp add: body_simps parse_bytes_object_def buffer_simps)
qed

lemma parse_leaf:
  assumes env: "reads_env alloc tab data r" and lay: "layout v r k d = (ofs, bs)"
    and tab: "holds_at tab k (map int ofs)" and h: "holds_at data d bs" and "readable v"
    and leaf: "\<forall>vs. v \<noteq> PArray vs" "\<forall>es. v \<noteq> PDict es"
  shows "bplist_parse_object alloc tab data r (Suc fuel) k = Returns (canonical v)"
proof -
  have "ofs = [d]" using lay leaf by (cases v) auto
  then have k: "holds_at tab k [int d]" using tab by simp
  note object = parse_object_header [OF env k]
  have len: "length data < 2 ^ 62" using env by (simp add: reads_env_def)
  show ?thesis
  proof (cases v)
    case PNull
    then have "holds_at data d (header_bytes PLIST_TYPE_PRIMITIVE 0 @ [])"
      using lay h by (simp add: header_bytes_def PLIST_TYPE_PRIMITIVE_def)
    from object [OF this] show ?thesis
      using PNull lay by (simp add: type_nibbles body_simps marker_of_def PLIST_TYPE_PRIMITIVE_def)
  next
    case (PPrimitive p)
    then have p: "unat p < 15" using assms(5) by simp
    then have "holds_at data d (header_bytes PLIST_TYPE_PRIMITIVE (unat p) @ [])"
      using PPrimitive lay h by (simp add: header_bytes_small)
    from object [OF this] have "bplist_parse_object alloc tab data r (Suc fuel) k =
        Returns (PPrimitive (marker_of PLIST_TYPE_PRIMITIVE (unat p) AND 0x0f))"
      using PPrimitive lay p by (simp add: type_nibbles body_simps)
    also have "marker_of PLIST_TYPE_PRIMITIVE (unat p) AND 0x0f = p"
      using p by (simp add: marker_of_def marker_byte type_nibbles)
    finally show ?thesis using PPrimitive by simp
  next
    case (PInteger i)
    let ?k = "blist_integer_length i" and ?l = "integer_length i"
    have k15: "?k < 15" using blist_integer_length_le [of i] by simp
    then have h': "holds_at data d (header_bytes PLIST_TYPE_INTEGER ?k @ be_int ?l i)"
      using PInteger lay h by (simp add: header_bytes_small)
    then have b: "holds_at data (d + 1) (be_int ?l i)" using k15 by (simp add: holds_at_append holds_at_Cons header_bytes_small)
    have "parse_integer data (d + 1) ?l = Returns (Some i)"
      using b assms(5) PInteger by (intro parse_integer_be_int) auto
    moreover have "2 ^ ?k mod 256 = ?l"
      unfolding integer_length_marker by (rule mod_less) (rule le_less_trans [OF integer_length_pos(3)], simp)
    moreover have "d + 1 + ?l \<le> length data" using holds_at_le [OF b] by simp
    moreover from object [OF h'] have "bplist_parse_object alloc tab data r (Suc fuel) k =
        parse_integer_object data (d + 1) ?k"
      using PInteger lay k15 by (simp add: type_nibbles body_simps header_bytes_small)
    ultimately show ?thesis
      using PInteger k15 len by (simp add: parse_integer_object_def integer_length_marker)
  next
    case (PReal x)
    then have h': "holds_at data d (header_bytes PLIST_TYPE_REAL 3 @ le_bytes 8 (unat x))"
      using lay h by (simp add: header_bytes_small)
    then have b: "holds_at data (d + 1) (le_bytes 8 (unat x))" by (simp add: holds_at_append holds_at_Cons header_bytes_small)
    moreover from object [OF h'] have "bplist_parse_object alloc tab data r (Suc fuel) k =
        parse_real_object data (d + 1) 3"
      using PReal lay by (simp add: type_nibbles body_simps header_bytes_small)
    ultimately show ?thesis
      using PReal len holds_at_le [OF b] parse_real_8 [OF b] by (simp add: parse_real_object_def)
  next
    case (PData bs')
    let ?h = "header_bytes PLIST_TYPE_DATA (length bs')"
    have h': "holds_at data d (?h @ bs')" using PData lay h by simp
    then have b: "holds_at data (d + length ?h) bs'" by (simp add: holds_at_append)
    have "alloc (length bs')" using env holds_at_le [OF b] by (simp add: reads_env_def)
    moreover from object [OF h'] have "bplist_parse_object alloc tab data r (Suc fuel) k =
        parse_bytes_object alloc (length bs') PData data (d + length ?h) (length bs')"
      using PData lay len holds_at_le [OF b] by (simp add: type_nibbles body_simps)
    ultimately show ?thesis
      using PData b len holds_at_le [OF b] by (simp add: parse_bytes_object_def buffer_simps)
  next
    case (PString s)
    then show ?thesis
      using parse_string_layout [OF env k, of s] lay h by simp
  qed (use assms(5) leaf in auto)
qed

declare parse_refs.simps(2) [simp del]

text \<open>
  The loops over the references of an array, of the keys and of the values of a dictionary, for
  parts whose layouts start at the object id \<open>k\<close> and the offset \<open>d\<close>.
\<close>

definition reads :: "allocator \<Rightarrow> int list \<Rightarrow> u8 list \<Rightarrow> nat \<Rightarrow> plist \<Rightarrow> bool" where
  "reads alloc tab data r v \<longleftrightarrow> (\<forall>k d ofs bs fuel. layout v r k d = (ofs, bs) \<longrightarrow>
     holds_at tab k (map int ofs) \<longrightarrow> holds_at data d bs \<longrightarrow> readable v \<longrightarrow> depth v \<le> fuel \<longrightarrow>
     bplist_parse_object alloc tab data r fuel k = Returns (canonical v))"

definition reads_values :: "allocator \<Rightarrow> int list \<Rightarrow> u8 list \<Rightarrow> nat \<Rightarrow> plist list \<Rightarrow> bool" where
  "reads_values alloc tab data r vs \<longleftrightarrow> (\<forall>k d ids ofs bs fuel i. layout_values vs r k d = (ids, ofs, bs) \<longrightarrow>
     holds_at tab k (map int ofs) \<longrightarrow> holds_at data d bs \<longrightarrow> holds_at data i (refs_bytes r ids) \<longrightarrow>
     readable_values vs \<longrightarrow> depth_values vs \<le> fuel \<longrightarrow>
     parse_refs (array_step (bplist_parse_object alloc tab data r fuel)) data r (length vs) i =
       Returns (i + length vs * r, Some (canonical_values vs)))"

definition reads_entries :: "allocator \<Rightarrow> int list \<Rightarrow> u8 list \<Rightarrow> nat \<Rightarrow> (string \<times> plist) list \<Rightarrow> bool" where
  "reads_entries alloc tab data r es \<longleftrightarrow> (\<forall>k d kids vids ofs bs fuel i j.
     layout_entries es r k d = (kids, vids, ofs, bs) \<longrightarrow>
     holds_at tab k (map int ofs) \<longrightarrow> holds_at data d bs \<longrightarrow>
     holds_at data i (refs_bytes r kids) \<longrightarrow> holds_at data j (refs_bytes r vids) \<longrightarrow>
     readable_entries es \<longrightarrow> depth_entries es \<le> fuel \<longrightarrow>
     parse_refs (key_step (bplist_parse_object alloc tab data r fuel)) data r (length es) i =
       Returns (i + length es * r, Some (map fst (canonical_entries es))) \<and>
     parse_refs (value_step (bplist_parse_object alloc tab data r fuel)) data r (length es) j =
       Returns (j + length es * r, Some (map snd (canonical_entries es))))"

lemma layout_nonempty: "layout v r k d = (ofs, bs) \<Longrightarrow> \<exists>ofs'. ofs = d # ofs'"
  by (cases v) (auto simp: Let_def split: prod.splits)

lemma reads_values_Cons:
  assumes env: "reads_env alloc tab data r"
    and v: "reads alloc tab data r v" and vs: "reads_values alloc tab data r vs"
  shows "reads_values alloc tab data r (v # vs)"
  unfolding reads_values_def
proof (intro allI impI)
  fix k d ids ofs bs fuel i
  assume a: "layout_values (v # vs) r k d = (ids, ofs, bs)" "holds_at tab k (map int ofs)"
    "holds_at data d bs" "holds_at data i (refs_bytes r ids)" "readable_values (v # vs)"
    "depth_values (v # vs) \<le> fuel"
  obtain o1 b1 where l1: "layout v r k d = (o1, b1)" by (metis surj_pair)
  obtain ids2 o2 b2 where l2: "layout_values vs r (k + length o1) (d + length b1) = (ids2, o2, b2)"
    by (metis prod_cases3)
  have e: "ids = k # ids2" "ofs = o1 @ o2" "bs = b1 @ b2" using a(1) l1 l2 by auto
  have "bplist_parse_object alloc tab data r fuel k = Returns (canonical v)"
    using v [unfolded reads_def, rule_format, OF l1] a e by (auto simp: holds_at_append)
  moreover have k: "k < length tab"
    using layout_nonempty [OF l1] a(2) e by (auto simp: holds_at_Cons)
  moreover have "length tab < 2 ^ 63" using env by (simp add: reads_env_def)
  ultimately have "array_step (bplist_parse_object alloc tab data r fuel) (int k) = Returns (Some (canonical v))"
    using canonical_not_null a(5) by (simp add: array_step_def non_null_def)
  moreover have "parse_refs (array_step (bplist_parse_object alloc tab data r fuel)) data r (length vs) (i + r) =
      Returns (i + r + length vs * r, Some (canonical_values vs))"
    using vs [unfolded reads_values_def, rule_format, OF l2] a e by (auto simp: holds_at_append)
  ultimately show "parse_refs (array_step (bplist_parse_object alloc tab data r fuel)) data r (length (v # vs)) i =
      Returns (i + length (v # vs) * r, Some (canonical_values (v # vs)))"
    using parse_refs_Cons [OF env, of i k] k a(4) e by (simp add: holds_at_append add.assoc)
qed

lemma reads_entries_Cons:
  assumes env: "reads_env alloc tab data r"
    and v: "reads alloc tab data r v" and es: "reads_entries alloc tab data r es"
  shows "reads_entries alloc tab data r ((key, v) # es)"
  unfolding reads_entries_def
proof (intro allI impI)
  fix k d kids vids ofs bs fuel i j
  assume a: "layout_entries ((key, v) # es) r k d = (kids, vids, ofs, bs)" "holds_at tab k (map int ofs)"
    "holds_at data d bs" "holds_at data i (refs_bytes r kids)" "holds_at data j (refs_bytes r vids)"
    "readable_entries ((key, v) # es)" "depth_entries ((key, v) # es) \<le> fuel"
  obtain o1 b1 where l1: "layout v r (k + 1) (d + length (string_layout key)) = (o1, b1)" by (metis surj_pair)
  obtain kids2 vids2 o2 b2 where l2: "layout_entries es r (k + Suc (length o1))
      (d + (length (string_layout key) + length b1)) = (kids2, vids2, o2, b2)"
    by (metis prod_cases4)
  have e: "kids = k # kids2" "vids = Suc k # vids2" "ofs = d # o1 @ o2" "bs = string_layout key @ b1 @ b2"
    using a(1) l1 l2 by (auto simp: Let_def)
  obtain f where f: "fuel = Suc f" using a(7) depth_pos [of v] by (cases fuel) auto
  have parsed: "bplist_parse_object alloc tab data r fuel (Suc k) = Returns (canonical v)"
    using v [unfolded reads_def, rule_format, OF l1] a e by (auto simp: holds_at_append holds_at_Cons)
  have k: "Suc k < length tab"
    using layout_nonempty [OF l1] a(2) e by (auto simp: holds_at_Cons)
  have t: "length tab < 2 ^ 63" using env by (simp add: reads_env_def)
  have "bplist_parse_object alloc tab data r fuel k = Returns (PString (c_str key))"
    unfolding f using a(2,3) e by (intro parse_string_layout [OF env]) (auto simp: holds_at_append)
  then have ks: "key_step (bplist_parse_object alloc tab data r fuel) (int k) = Returns (Some (c_str key))"
    using k t by (simp add: key_step_def)
  have vs: "value_step (bplist_parse_object alloc tab data r fuel) (int (Suc k)) = Returns (Some (canonical v))"
    using parsed k t canonical_not_null a(6) by (simp add: value_step_def non_null_def del: of_nat_Suc)
  have rest: "parse_refs (key_step (bplist_parse_object alloc tab data r fuel)) data r (length es) (i + r) =
       Returns (i + r + length es * r, Some (map fst (canonical_entries es))) \<and>
     parse_refs (value_step (bplist_parse_object alloc tab data r fuel)) data r (length es) (j + r) =
       Returns (j + r + length es * r, Some (map snd (canonical_entries es)))"
    using es [unfolded reads_entries_def, rule_format, OF l2, of "i + r" "j + r" fuel] a e
    by (auto simp: holds_at_append holds_at_Cons add.assoc)
  show "parse_refs (key_step (bplist_parse_object alloc tab data r fuel)) data r (length ((key, v) # es)) i =
       Returns (i + length ((key, v) # es) * r, Some (map fst (canonical_entries ((key, v) # es)))) \<and>
     parse_refs (value_step (bplist_parse_object alloc tab data r fuel)) data r (length ((key, v) # es)) j =
       Returns (j + length ((key, v) # es) * r, Some (map snd (canonical_entries ((key, v) # es))))"
    using parse_refs_Cons [OF env, of i k _ "c_str key"] parse_refs_Cons [OF env, of j "Suc k" _ "canonical v"]
      rest ks vs k a(4,5) e by (simp add: holds_at_append add.assoc del: of_nat_Suc)
qed

lemma reads_Array:
  assumes env: "reads_env alloc tab data r" and vs: "reads_values alloc tab data r vs"
  shows "reads alloc tab data r (PArray vs)"
  unfolding reads_def
proof (intro allI impI)
  fix k d ofs bs fuel
  assume a: "layout (PArray vs) r k d = (ofs, bs)" "holds_at tab k (map int ofs)"
    "holds_at data d bs" "readable (PArray vs)" "depth (PArray vs) \<le> fuel"
  let ?h = "header_bytes PLIST_TYPE_ARRAY (length vs)"
  let ?i = "d + length ?h"
  obtain ids o2 b2 where l: "layout_values vs r (k + 1) (?i + length vs * r) = (ids, o2, b2)"
    by (metis prod_cases3)
  have e: "ofs = d # o2" "bs = ?h @ refs_bytes r ids @ b2" using a(1) l by (auto simp: Let_def)
  have ids: "length ids = length vs" using length_layout_values [OF l] .
  obtain f where f: "fuel = Suc f" "depth_values vs \<le> f" using a(5) by (cases fuel) auto
  have h: "holds_at data d (?h @ refs_bytes r ids @ b2)" using a(3) e by simp
  have le: "?i + length vs * r \<le> length data" using holds_at_le [OF h] ids by simp
  have len: "length data < 2 ^ 62" and r: "1 \<le> r" using env by (auto simp: reads_env_def int_width_def)
  have n: "length vs \<le> length data" using le r order_trans [OF _ le] by (cases r) auto
  have "parse_refs (array_step (bplist_parse_object alloc tab data r f)) data r (length vs) ?i =
      Returns (?i + length vs * r, Some (canonical_values vs))"
    using vs [unfolded reads_values_def, rule_format, OF l, of ?i f] a(2,4) h e f ids
    by (auto simp: holds_at_append holds_at_Cons)
  moreover have "bplist_parse_object alloc tab data r (Suc f) k =
      parse_array_object alloc (bplist_parse_object alloc tab data r f) data r ?i (length vs)"
    using parse_object_header [OF env _ h type_nibbles(6)] a(2) e n len by (simp add: body_simps)
  moreover have "alloc (length vs * sizeof_ptr)"
    using env n by (simp add: reads_env_def sizeof_ptr_def)
  ultimately show "bplist_parse_object alloc tab data r fuel k = Returns (canonical (PArray vs))"
    using f le len by (simp add: parse_array_object_def)
qed

lemma reads_Dict:
  assumes env: "reads_env alloc tab data r" and es: "reads_entries alloc tab data r es"
  shows "reads alloc tab data r (PDict es)"
  unfolding reads_def
proof (intro allI impI)
  fix k d ofs bs fuel
  assume a: "layout (PDict es) r k d = (ofs, bs)" "holds_at tab k (map int ofs)"
    "holds_at data d bs" "readable (PDict es)" "depth (PDict es) \<le> fuel"
  let ?h = "header_bytes PLIST_TYPE_DICT (length es)"
  let ?i = "d + length ?h"
  obtain ks vs o2 b2 where l: "layout_entries es r (k + 1) (?i + length es * r + length es * r) = (ks, vs, o2, b2)"
    by (metis prod_cases4)
  have e: "ofs = d # o2" "bs = ?h @ refs_bytes r ks @ refs_bytes r vs @ b2" using a(1) l by (auto simp: Let_def)
  have ids: "length ks = length es" "length vs = length es" using length_layout_entries [OF l] by auto
  obtain f where f: "fuel = Suc f" "depth_entries es \<le> f" using a(5) by (cases fuel) auto
  have h: "holds_at data d (?h @ refs_bytes r ks @ refs_bytes r vs @ b2)" using a(3) e by simp
  have le: "?i + 2 * length es * r \<le> length data" using holds_at_le [OF h] ids by simp
  have len: "length data < 2 ^ 62" and r: "1 \<le> r" using env by (auto simp: reads_env_def int_width_def)
  have n: "length es \<le> length data" using le r by (cases r) auto
  have refs: "parse_refs (key_step (bplist_parse_object alloc tab data r f)) data r (length es) ?i =
       Returns (?i + length es * r, Some (map fst (canonical_entries es))) \<and>
     parse_refs (value_step (bplist_parse_object alloc tab data r f)) data r (length es) (?i + length es * r) =
       Returns (?i + length es * r + length es * r, Some (map snd (canonical_entries es)))"
    using es [unfolded reads_entries_def, rule_format, OF l, of ?i "?i + length es * r" f] a(2,4) h e f ids
    by (auto simp: holds_at_append holds_at_Cons add.assoc)
  moreover have "bplist_parse_object alloc tab data r (Suc f) k =
      parse_dict_object alloc (bplist_parse_object alloc tab data r f) data r ?i (length es)"
    using parse_object_header [OF env _ h type_nibbles(7)] a(2) e n len by (simp add: body_simps)
  moreover have "alloc (length es * sizeof_ptr)"
    using env n by (simp add: reads_env_def sizeof_ptr_def)
  ultimately show "bplist_parse_object alloc tab data r fuel k = Returns (canonical (PDict es))"
    using f le len by (simp add: parse_dict_object_def zip_map_fst_snd)
qed

lemma reads_all:
  assumes env: "reads_env alloc tab data r"
  shows "reads alloc tab data r v"
proof (induction v rule: plist_induct3
    [where Q = "reads_values alloc tab data r" and R = "reads_entries alloc tab data r"])
  case (Leaf v)
  show ?case
    unfolding reads_def
  proof (intro allI impI)
    fix k d ofs bs fuel
    assume "layout v r k d = (ofs, bs)" "holds_at tab k (map int ofs)" "holds_at data d bs"
      "readable v" "depth v \<le> fuel"
    then show "bplist_parse_object alloc tab data r fuel k = Returns (canonical v)"
      using parse_leaf [OF env] Leaf depth_pos [of v] by (cases fuel) auto
  qed
next
  case Nil_values
  then show ?case by (simp add: reads_values_def)
next
  case Nil_entries
  then show ?case by (simp add: reads_entries_def)
qed (auto intro: reads_Array [OF env] reads_Dict [OF env] reads_values_Cons [OF env] reads_entries_Cons [OF env])

section \<open>Reading the file\<close>

definition offsets_within :: "plist \<Rightarrow> bool" where
  "offsets_within v \<longleftrightarrow> (\<forall>r k d ofs bs. layout v r k d = (ofs, bs) \<longrightarrow>
     (\<forall>x \<in> set ofs. x \<le> d + length bs))"

definition offsets_within_values :: "plist list \<Rightarrow> bool" where
  "offsets_within_values vs \<longleftrightarrow> (\<forall>r k d ids ofs bs. layout_values vs r k d = (ids, ofs, bs) \<longrightarrow>
     (\<forall>x \<in> set ofs. x \<le> d + length bs))"

definition offsets_within_entries :: "(string \<times> plist) list \<Rightarrow> bool" where
  "offsets_within_entries es \<longleftrightarrow> (\<forall>r k d kids vids ofs bs. layout_entries es r k d = (kids, vids, ofs, bs) \<longrightarrow>
     (\<forall>x \<in> set ofs. x \<le> d + length bs))"

lemma offsets_within_all: "offsets_within v"
proof (induction v rule: plist_induct3
    [where Q = offsets_within_values and R = offsets_within_entries])
  case (Leaf v)
  then show ?case by (cases v) (auto simp: offsets_within_def)
next
  case (Array vs)
  then show ?case
    unfolding offsets_within_def offsets_within_values_def
    by (fastforce simp: Let_def length_layout_values split: prod.splits)
next
  case (Dict es)
  then show ?case
    unfolding offsets_within_def offsets_within_entries_def
    by (fastforce simp: Let_def length_layout_entries split: prod.splits)
next
  case (Cons_values v vs)
  then show ?case
    unfolding offsets_within_def offsets_within_values_def
    by (fastforce split: prod.splits)
next
  case (Cons_entries k v es)
  then show ?case
    unfolding offsets_within_def offsets_within_entries_def
    by (fastforce simp: Let_def split: prod.splits)
qed (auto simp: offsets_within_values_def offsets_within_entries_def)

lemma layout_offsets_le: "layout v r k d = (ofs, bs) \<Longrightarrow> x \<in> set ofs \<Longrightarrow> x \<le> d + length bs"
  using offsets_within_all [of v] by (auto simp: offsets_within_def)

lemma refs_bytes_nth:
  "holds_at data j (refs_bytes o' ofs) \<Longrightarrow> i < length ofs \<Longrightarrow> holds_at data (j + i * o') (be_bytes o' (ofs ! i))"
proof (induction ofs arbitrary: i j)
  case (Cons x ofs)
  then show ?case by (cases i) (auto simp: holds_at_append add.assoc [symmetric])
qed simp

lemma read_field_be: "holds_at t i (be_bytes 8 n) \<Longrightarrow> n < 2 ^ 63 \<Longrightarrow> read_field t i = Returns (int n)"
  unfolding read_field_def by (subst parse_integer_nat) (auto simp: int_width_def)

lemma read_table:
  assumes "holds_at data j (refs_bytes n ofs)" and "int_width n" and "length data < 2 ^ 63"
    and "\<And>x. x \<in> set ofs \<Longrightarrow> x < 256 ^ n \<and> x < 2 ^ 63"
  shows "c_map (read_offset data j n) [0..<length ofs] = Returns (map int ofs)"
proof -
  have "read_offset data j n i = Returns (int (ofs ! i))" if "i \<in> set [0..<length ofs]" for i
  proof -
    have i: "i < length ofs" using that by simp
    have h: "holds_at data (j + i * n) (be_bytes n (ofs ! i))" using refs_bytes_nth [OF assms(1) i] .
    then have "parse_integer data (j + i * n) n = Returns (Some (int (ofs ! i)))"
      using assms(2,4) i by (intro parse_integer_nat) auto
    moreover have "j + i * n < 2 ^ 64" using holds_at_le [OF h] assms(3) by simp
    ultimately show ?thesis by (simp add: read_offset_def)
  qed
  then have "c_map (read_offset data j n) [0..<length ofs] = Returns (map (\<lambda>i. int (ofs ! i)) [0..<length ofs])"
    by (rule c_map_Returns)
  also have "map (\<lambda>i. int (ofs ! i)) [0..<length ofs] = map int ofs"
    by (rule nth_equalityI) auto
  finally show ?thesis .
qed

lemma drop_tail: "length t = m \<Longrightarrow> drop (length (xs @ t) - m) (xs @ t) = t"
  by simp

lemma tail_of_file:
  assumes "length xs + 32 < 2 ^ 32" and p: "length p = 6" and "n \<le> 8" and "m \<le> 8" and "ob < 2 ^ 63" and "ro < 2 ^ 63"
  shows "plist_object_from_bplist alloc fuel (Some (xs @ p @ [word_of_nat n, word_of_nat m] @ be_bytes 8 ob @ be_bytes 8 0 @ be_bytes 8 ro)) =
    parse_table alloc fuel
      (xs @ p @ [word_of_nat n, word_of_nat m] @ be_bytes 8 ob @ be_bytes 8 0 @ be_bytes 8 ro) n m (int ob) 0 (int ro)"
proof -
  let ?t = "p @ [word_of_nat n, word_of_nat m] @ be_bytes 8 ob @ be_bytes 8 0 @ be_bytes 8 ro"
  let ?p = "p @ [word_of_nat n, word_of_nat m]"
  have t: "?t = ?p @ be_bytes 8 ob @ be_bytes 8 0 @ be_bytes 8 ro" by simp
  have len: "length ?t = 32" by (simp add: p)
  have "holds_at ?t 0 (?p @ be_bytes 8 ob @ be_bytes 8 0 @ be_bytes 8 ro)"
    by (rule holds_atI [of _ "[]" _ "[]"]) simp_all
  then have h: "holds_at ?t 8 (be_bytes 8 ob)" "holds_at ?t 16 (be_bytes 8 0)" "holds_at ?t 24 (be_bytes 8 ro)"
    by (simp_all only: holds_at_append length_append length_be_bytes p) simp_all
  have w: "c_nth ?t 6 = Returns (word_of_nat n)" "c_nth ?t 7 = Returns (word_of_nat m)"
    by (simp_all add: c_nth_def len) (simp_all add: p nth_append)
  have u: "unat (word_of_nat n :: u8) = n" "unat (word_of_nat m :: u8) = m" using assms(3,4) by simp_all
  have "plist_object_from_bplist alloc fuel (Some (xs @ ?t)) =
    c_bind (c_nth ?t 6) (\<lambda>offlen. c_bind (c_nth ?t 7) (\<lambda>reflen. c_bind (read_field ?t 8) (\<lambda>objects.
      c_bind (read_field ?t 16) (\<lambda>rootid. c_bind (read_field ?t 24) (\<lambda>reftaboffset.
      parse_table alloc fuel (xs @ ?t) (unat offlen) (unat reflen) objects rootid reftaboffset)))))"
    using len drop_tail [OF len, of xs] by (simp add: plist_object_from_bplist_def Let_def del: drop_append)
  moreover have "read_field ?t 8 = Returns (int ob)" "read_field ?t 16 = Returns 0" "read_field ?t 24 = Returns (int ro)"
    using read_field_be [OF h(1)] read_field_be [OF h(2)] read_field_be [OF h(3)] assms by simp_all
  ultimately show ?thesis by (simp only: w u c_bind.simps)
qed

lemma file_trailer:
  assumes "length xs + 32 < 2 ^ 32" and "n \<le> 8" and "m \<le> 8" and "ob < 2 ^ 63" and "ro < 2 ^ 63"
  shows "plist_object_from_bplist alloc fuel (Some (xs @ trailer_bytes n m ob ro)) =
    parse_table alloc fuel (xs @ trailer_bytes n m ob ro) n m (int ob) 0 (int ro)"
  unfolding trailer_bytes_def using assms by (intro tail_of_file) simp_all

lemma integer_length_fits_nat: "n < 2 ^ 63 \<Longrightarrow> n < 256 ^ integer_length (int n)"
  using integer_length_fits [of "int n"] by (simp add: in_s64_def)

lemma parse_table_ok:
  assumes h: "holds_at data ro (refs_bytes n ofs)" and n: "int_width n" "\<And>x. x \<in> set ofs \<Longrightarrow> x < 256 ^ n \<and> x < 2 ^ 63"
    and "ofs \<noteq> []" "8 \<le> ro" "length data < 2 ^ 31" "alloc (length ofs * 8)"
  shows "parse_table alloc fuel data n m (int (length ofs)) 0 (int ro) =
    bplist_parse_object alloc (map int ofs) data m fuel 0"
proof -
  have le: "ro + length ofs * n \<le> length data" using holds_at_le [OF h] by simp
  have "1 \<le> n" using n(1) by (auto simp: int_width_def)
  then have "length ofs \<le> length ofs * n" by simp
  then have ob: "length ofs < 2 ^ 31" using le assms(6) by linarith
  have bound: "int (length ofs) * int n \<le> int (length data)" "int ro + int (length ofs) * int n \<le> int (length data)"
    using le by (simp_all only: of_nat_mult [symmetric] of_nat_add [symmetric] of_nat_le_iff)
  have "- (2 ^ 63) \<le> int (length ofs) * int n" "- (2 ^ 63) \<le> int ro + int (length ofs) * int n"
    by (rule order_trans [of _ 0], simp, simp)+
  then have s64: "in_s64 (int (length ofs) * int n)" "in_s64 (int ro + int (length ofs) * int n)"
    using bound assms(6) by (simp_all add: in_s64_def)
  have "c_map (read_offset data ro n) [0..<length ofs] = Returns (map int ofs)"
    by (rule read_table [OF h n(1) _ n(2)]) (use assms(6) in auto)
  then show ?thesis
    using assms(4,5,7) s64 bound ob by (simp add: parse_table_def)
qed

lemma roundtrip_file:
  assumes "readable v" and "slack v = 0" and small: "length (bplist_file v) < 2 ^ 31"
    and alloc: "\<forall>n \<le> 8 * length (bplist_file v) + 32. alloc n" and "depth v \<le> fuel"
  shows "plist_object_from_bplist alloc fuel (Some (bplist_file v)) = Returns (canonical v)"
proof -
  let ?r = "bplist_reflen v" and ?o = "bplist_offlen v" and ?M = "bytes_of ''bplist00''"
  obtain ofs bs where lay: "layout v ?r 0 8 = (ofs, bs)" by (metis surj_pair)
  obtain ob bt re where an: "bplist_analyze v (0, 0, 0) = (ob, bt, re)" by (metis prod_cases3)
  have cnt: "length ofs = re + 1" "bt + re * ?r = length bs"
    using analyze_layout [OF lay an] assms(2) by auto
  have r: "?r = integer_length (int re)" by (simp add: bplist_reflen_def an)
  have o: "?o = integer_length (int (8 + length bs))" by (simp only: bplist_offlen_def an prod.case cnt(2))
  let ?t = "trailer_bytes ?o ?r (length ofs) (8 + length bs)"
  have fl: "bplist_file v = (?M @ bs @ refs_bytes ?o ofs) @ ?t" by (simp add: bplist_file_def lay)
  let ?d = "bplist_file v"
  have lt: "length ?t = 32" by (simp add: trailer_bytes_def)
  have len: "8 + length bs + length ofs * ?o + 32 = length ?d" using lt by (simp add: fl)
  have w: "int_width ?o" "int_width ?r" "1 \<le> ?o" "?o \<le> 8" "?r \<le> 8" unfolding o r by (simp_all only: int_width_integer_length integer_length_pos)
  have ob: "length ofs \<le> length ?d"
    using len mult_le_mono2 [OF w(3), of "length ofs"] by linarith
  have "plist_object_from_bplist alloc fuel (Some ?d) =
      parse_table alloc fuel ?d ?o ?r (int (length ofs)) 0 (int (8 + length bs))"
    unfolding fl by (rule file_trailer) (use small len w ob in auto)
  also have "\<dots> = bplist_parse_object alloc (map int ofs) ?d ?r fuel 0"
  proof (rule parse_table_ok)
    show "holds_at ?d (8 + length bs) (refs_bytes ?o ofs)"
      by (rule holds_atI [of _ "?M @ bs" _ ?t]) (simp_all add: fl)
    have "8 + length bs < 256 ^ ?o"
      unfolding o using len small by (intro integer_length_fits_nat) simp
    then show "x < 256 ^ ?o \<and> x < 2 ^ 63" if "x \<in> set ofs" for x
      using layout_offsets_le [OF lay that] len small by auto
  qed (use w(1) cnt small alloc ob in auto)
  also have "\<dots> = Returns (canonical v)"
  proof -
    have "re < 256 ^ ?r"
      unfolding r using cnt ob small by (intro integer_length_fits_nat) simp
    then have "reads_env alloc (map int ofs) ?d ?r"
      using w(2) cnt(1) ob small alloc by (simp add: reads_env_def)
    then have "reads alloc (map int ofs) ?d ?r v" by (rule reads_all)
    moreover have "holds_at (map int ofs) 0 (map int ofs)" by (rule holds_atI [of _ "[]" _ "[]"]) simp_all
    moreover have "holds_at ?d 8 bs" by (rule holds_atI [of _ ?M _ "refs_bytes ?o ofs @ ?t"]) (simp_all add: fl)
    ultimately show ?thesis using lay assms(1,5) by (simp add: reads_def)
  qed
  finally show ?thesis .
qed

end
