(* ===== verification/Plist_Properties.thy ===== *)
theory Plist_Properties
  imports Plist_Roundtrip
begin

text \<open>
  What the property-list code guarantees as a whole: the bytes of the serializer, the round trip,
  the memory accesses and the termination of the parser, and the files on which the two do not
  fit together.
\<close>

section \<open>Serializing\<close>


section \<open>The round trip\<close>

text \<open>C2: an object without dates, Unicode strings and primitives over 14, whose dictionaries all
  have fewer than 128 entries (or sizes for which the two passes agree), is serialized to a file
  that \<open>plist_object_from_bplist\<close> reads back to the same object, up to the cut of strings at their
  first NUL and the byte order of reals, as long as the file stays under 2 GB and memory
  lasts.\<close>

theorem plist_roundtrip:
  assumes "readable v" and "v \<noteq> PNull" and "slack v = 0" and "length (bplist_file v) < 2 ^ 31"
    and "\<forall>n \<le> 8 * length (bplist_file v) + 32. alloc n" and "depth v \<le> fuel"
  shows "\<exists>data. plist_object_to_bplist alloc v = Returns (0, Some data) \<and>
    plist_object_from_bplist alloc fuel (Some data) = Returns (canonical v)"
proof -
  obtain ofs bs where lay: "layout v (bplist_reflen v) 0 8 = (ofs, bs)" by (metis surj_pair)
  have "length (bplist_file v) = 8 + length bs + length ofs * bplist_offlen v + 32"
    by (simp add: bplist_file_def lay trailer_bytes_def)
  moreover have "1 \<le> bplist_offlen v" by (simp add: bplist_offlen_def split: prod.splits del: of_nat_add)
  then have "length ofs * 1 \<le> length ofs * bplist_offlen v" by (rule mult_le_mono2)
  ultimately have "8 * length ofs \<le> 8 * length (bplist_file v) + 32" by linarith
  then have "plist_object_to_bplist alloc v = Returns (0, Some (bplist_file v))"
    using assms to_bplist_eq [OF lay, of alloc] by simp
  then show ?thesis using roundtrip_file [OF assms(1,3-6)] by blast
qed

definition sample :: plist where
  "sample = PDict [(''id'', PInteger 300), (''ok'', PPrimitive 9), (''raw'', PArray [PData [1, 2], PString ''x''])]"

theorem plist_roundtrip_witness:
  "\<exists>data. plist_object_to_bplist (\<lambda>_. True) sample = Returns (0, Some data) \<and>
    plist_object_from_bplist (\<lambda>_. True) 3 (Some data) = Returns sample"
proof -
  have "readable sample" "sample \<noteq> PNull" "slack sample = 0" "depth sample \<le> 3"
    by (simp_all add: sample_def in_s64_def dict_slack_def)
  moreover have "length (bplist_file sample) < 2 ^ 31"
    by (simp add: sample_def bplist_file_def bplist_reflen_def bplist_offlen_def Let_def
        analyze_string_def string_layout_def header_bytes_def integer_length_def c_str_def NUL_def
        trailer_bytes_def)
  moreover have "canonical sample = sample" by (simp add: sample_def c_str_def NUL_def)
  ultimately show ?thesis using plist_roundtrip [of sample "\<lambda>_. True" 3] by simp
qed

section \<open>The memory accesses of the parser\<close>

text \<open>
  A file whose only object is a real of one byte, the last but one byte of the trailer: the offset
  table at 8192 holds the offset 8224, where the byte 0x20 of the position 8192 = 0x2000 lies.
\<close>

definition short_real :: "u8 list" where
  "short_real = (replicate 8192 0 @ be_bytes 2 8224) @ trailer_bytes 2 1 1 8192"

lemma short_real_run:
  "plist_object_from_bplist (\<lambda>_. True) (Suc fuel) (Some short_real) = Undefined (Out_of_bounds 8225 8) \<and>
   length short_real = 8226"
proof -
  let ?t = "trailer_bytes 2 1 1 8192"
  have lt: "length ?t = 32" by (simp add: trailer_bytes_def)
  have len: "length short_real = 8226" by (simp add: short_real_def lt)
  let ?a = "replicate 8192 0 @ be_bytes 2 8224 @ replicate 6 0 @ [2, 1] @ be_bytes 8 1 @ be_bytes 8 0 @ replicate 6 0"
  have "replicate 6 (0 :: u8) = [0, 0, 0, 0, 0, 0]" by (simp add: numeral_eq_Suc)
  then have "be_bytes 8 8192 = replicate 6 0 @ 0x20 # [0]"
    by (simp add: be_bytes_def le_bytes_numeral)
  then have "short_real = ?a @ 0x20 # [0]"
    by (simp only: short_real_def trailer_bytes_def append_assoc append_Cons append_Nil of_nat_numeral of_nat_1)
  moreover have "length ?a = 8224" by simp
  ultimately have n: "short_real ! 8224 = 0x20" by (metis nth_append_length)
  have h: "holds_at short_real 8192 (be_bytes 2 8224)"
    by (rule holds_atI [of _ "replicate 8192 0" _ ?t]) (simp_all add: short_real_def)
  have "read_offset short_real 8192 2 0 = Returns 8224"
    using parse_integer_nat [OF h] by (simp add: read_offset_def int_width_def)
  moreover have "plist_object_from_bplist (\<lambda>_. True) (Suc fuel) (Some short_real) =
      parse_table (\<lambda>_. True) (Suc fuel) short_real 2 1 1 0 8192"
    unfolding short_real_def by (subst file_trailer) simp_all
  moreover have "bplist_marker short_real 8224 = Returns (Some (0x20, 0, 8225))"
    by (simp add: bplist_marker_def c_nth_def len n)
  moreover have "parse_body (\<lambda>_. True) parse short_real 1 0x20 0 8225 = Undefined (Out_of_bounds 8225 8)" for parse
    by (simp add: parse_body_def plist_type_defs parse_real_object_def parse_real_def c_load_def len)
  ultimately show ?thesis
    by (simp add: parse_table_def len in_s64_def c_nth_def to_u64_def bplist_parse_object.simps)
qed

text \<open>C11: on any input of less than 4 GB the parser reads only bytes of the input, whatever the
  depth it reaches, with one exception, the eight bytes read for a real whose marker announces
  one or two, of which at least the first is inside. The only other undefined behaviour it can
  reach is signed overflow on the numbers of the trailer and a shift by 32 or more.\<close>

theorem plist_parse_safe:
  assumes "length data < 2 ^ 32" and "plist_object_from_bplist alloc fuel (Some data) = Undefined u"
  shows "u = Signed_overflow \<or> (\<exists>k. u = Bad_shift k \<and> 32 \<le> k) \<or>
    (\<exists>i. u = Out_of_bounds i 8 \<and> i < length data \<and> length data < i + 8)"
  using safe_from_bplist [OF assms(1), of alloc fuel] assms(2)
  by (cases u) (auto simp: fails_only_def parse_allowed_def)

theorem plist_parse_safe_witness:
  "\<exists>u. plist_object_from_bplist (\<lambda>_. True) 1 (Some short_real) = Undefined u \<and>
    (u = Signed_overflow \<or> (\<exists>k. u = Bad_shift k \<and> 32 \<le> k) \<or>
     (\<exists>i. u = Out_of_bounds i 8 \<and> i < length short_real \<and> length short_real < i + 8))"
  using plist_parse_safe [of short_real "\<lambda>_. True" 1] short_real_run [of 0] by simp


section \<open>Termination of the parser\<close>

text \<open>A file whose only object is an array with itself as its only element.\<close>

definition cyclic_array :: "u8 list" where
  "cyclic_array = (bytes_of ''bplist00'' @ [0xA1, 0] @ be_bytes 1 8) @ trailer_bytes 1 1 1 10"

text \<open>C19: the parser does not terminate on a file whose only object is an array that holds itself:
  it runs out of every bound on its depth (so the process runs out of its stack).\<close>

theorem plist_parse_diverges:
  "plist_object_from_bplist (\<lambda>_. True) fuel (Some cyclic_array) = Out_of_fuel"
proof -
  let ?t = "trailer_bytes 1 1 1 10"
  have lt: "length ?t = 32" by (simp add: trailer_bytes_def)
  have len: "length cyclic_array = 43" by (simp add: cyclic_array_def lt)
  have h: "holds_at cyclic_array 10 (be_bytes 1 8)"
    by (rule holds_atI [of _ "bytes_of ''bplist00'' @ [0xA1, 0]" _ ?t]) (simp_all add: cyclic_array_def)
  have h': "cyclic_array ! 8 = 0xA1" "cyclic_array ! 9 = 0"
    by (simp_all add: cyclic_array_def nth_append)
  have "read_offset cyclic_array 10 1 0 = Returns 8"
    using parse_integer_nat [OF h] by (simp add: read_offset_def int_width_def)
  moreover have "plist_object_from_bplist (\<lambda>_. True) fuel (Some cyclic_array) =
      parse_table (\<lambda>_. True) fuel cyclic_array 1 1 1 0 10"
    unfolding cyclic_array_def by (subst file_trailer) simp_all
  moreover have "bplist_parse_object (\<lambda>_. True) [8] cyclic_array 1 n 0 = Out_of_fuel" for n
  proof (induction n)
    case (Suc n)
    have "bplist_marker cyclic_array 8 = Returns (Some (0xA1, 1, 9))"
      by (simp add: bplist_marker_def c_nth_def len h')
    moreover have "parse_integer cyclic_array 9 1 = Returns (Some 0)"
      by (simp add: parse_integer_def c_nth_def len h')
    ultimately show ?case
      using Suc by (simp add: bplist_parse_object.simps c_nth_def to_u64_def parse_body_def plist_type_defs
          parse_array_object_def parse_refs.simps(2) array_step_def len)
  qed (simp add: bplist_parse_object.simps)
  ultimately show ?thesis
    by (simp add: parse_table_def len in_s64_def)
qed

section \<open>Where the two passes disagree\<close>

text \<open>C20: when the first pass counts one byte too many, as it does for a dictionary of 128 to 255
  entries, the file the serializer hands out has its trailer one byte before its end, and the
  parser of this very library returns the null pointer for it.\<close>

theorem plist_slack_unreadable:
  assumes "slack v = 1" and "v \<noteq> PNull" and "length (bplist_file v) < 2 ^ 31" and "\<And>n. alloc n"
  shows "\<exists>data. plist_object_to_bplist alloc v = Returns (0, Some data) \<and>
    plist_object_from_bplist alloc fuel (Some data) = Returns PNull"
proof -
  let ?o = "bplist_offlen v" and ?r = "bplist_reflen v"
  obtain ofs bs where lay: "layout v ?r 0 8 = (ofs, bs)" by (metis surj_pair)
  let ?xs = "bytes_of ''bplist00'' @ bs @ refs_bytes ?o ofs @ [0]" and ?ro = "8 + length bs" and ?ob = "length ofs"
  have small: "?ro + ?ob * ?o + 33 \<le> 2 ^ 31"
    using assms(3) by (simp add: bplist_file_def lay)
  have w: "?o \<le> 8" "1 \<le> ?o" "1 \<le> ?r" "?r \<le> 8"
    by (simp_all add: bplist_offlen_def bplist_reflen_def split: prod.splits del: of_nat_add)
  have "?ob * 1 \<le> ?ob * ?o" using w(2) by (rule mult_le_mono2)
  then have ob: "?ob < 2 ^ 31" using small by linarith
  have head: "be_bytes 8 n = 0 # be_bytes 7 n" if "n < 2 ^ 32" for n
    using be_bytes_pad [of n 7] that by simp
  have tail: "be_bytes 7 n @ [0] = be_bytes 8 (n * 256)" for n
    using be_bytes_times_256 [of 7 n] by simp
  have "be_bytes 8 ?ob @ be_bytes 8 0 @ be_bytes 8 ?ro @ [0] =
      0 # (be_bytes 7 ?ob @ [0]) @ (be_bytes 7 0 @ [0]) @ (be_bytes 7 ?ro @ [0])"
    using ob small by (simp add: head)
  also have "\<dots> = 0 # be_bytes 8 (?ob * 256) @ be_bytes 8 0 @ be_bytes 8 (?ro * 256)"
    by (simp only: tail mult_zero_left)
  finally have eight: "be_bytes 8 ?ob @ be_bytes 8 0 @ be_bytes 8 ?ro @ [0] =
      0 # be_bytes 8 (?ob * 256) @ be_bytes 8 0 @ be_bytes 8 (?ro * 256)" .
  have "replicate 6 (0 :: u8) = 0 # replicate 5 0" by (simp add: numeral_eq_Suc)
  then have data: "bplist_file v @ [0] = ?xs @ (replicate 5 0 @ [word_of_nat ?o]) @
      [word_of_nat ?r, word_of_nat 0] @ be_bytes 8 (?ob * 256) @ be_bytes 8 0 @ be_bytes 8 (?ro * 256)"
    by (simp only: bplist_file_def Let_def lay prod.case trailer_bytes_def append_assoc append_Cons append_Nil eight) simp
  have "plist_object_to_bplist alloc v = Returns (0, Some (bplist_file v @ [0]))"
    using assms to_bplist_eq [OF lay, of alloc] by simp
  moreover have "plist_object_from_bplist alloc fuel (Some (bplist_file v @ [0])) =
      parse_table alloc fuel (bplist_file v @ [0]) ?r 0 (int (?ob * 256)) 0 (int (?ro * 256))"
    unfolding data by (rule tail_of_file) (use small ob w in simp_all)
  moreover have "\<dots> = Returns PNull"
  proof -
    have "?ob * ?o \<le> ?ob * 256 * ?r" using w(1,3) mult_le_mono2 [of ?o "256 * ?r" ?ob] by simp
    moreover have "length (bplist_file v @ [0]) = ?ro + ?ob * ?o + 33"
      by (simp add: bplist_file_def lay)
    moreover have "8 + b + x + 33 < (8 + b) * 256 + y" if "x \<le> y" for b x y :: nat using that by presburger
    ultimately have "length (bplist_file v @ [0]) < ?ro * 256 + ?ob * 256 * ?r" by presburger
    then have big: "int (length (bplist_file v @ [0])) < int (?ro * 256) + int (?ob * 256) * int ?r"
      by (simp only: of_nat_mult [symmetric] of_nat_add [symmetric] of_nat_less_iff)
    have "?ob * 256 * ?r \<le> 2 ^ 31 * 256 * 8" using ob w(4) by (intro mult_le_mono) simp_all
    then have "?ob * 256 * ?r < 2 ^ 62" "?ro * 256 + ?ob * 256 * ?r < 2 ^ 63" using small by simp_all
    then have "in_s64 (int (?ob * 256 * ?r))" "in_s64 (int (?ro * 256 + ?ob * 256 * ?r))"
      by (auto intro!: in_s64_nat simp del: of_nat_mult of_nat_add)
    then have "in_s64 (int (?ob * 256) * int ?r)" "in_s64 (int (?ro * 256) + int (?ob * 256) * int ?r)"
      by (simp_all only: of_nat_mult of_nat_add)
    then show ?thesis using big by (simp add: parse_table_def)
  qed
  ultimately show ?thesis by auto
qed

definition big_dict :: plist where
  "big_dict = PDict (replicate 128 (''k'', PPrimitive 8))"

lemma analyze_replicate:
  "bplist_analyze_entries (replicate n (''k'', PPrimitive 8)) (ob, bt, re) = (ob + 2 * n, bt + 3 * n, re)"
  by (induction n arbitrary: ob bt) (auto simp: analyze_string_def c_str_def NUL_def)

lemma slack_replicate: "slack_entries (replicate n (k, PPrimitive 8)) = 0"
  by (induction n) auto

theorem plist_slack_unreadable_witness:
  "\<exists>data. plist_object_to_bplist (\<lambda>_. True) big_dict = Returns (0, Some data) \<and>
    plist_object_from_bplist (\<lambda>_. True) 9 (Some data) = Returns PNull"
proof (rule plist_slack_unreadable)
  have an: "bplist_analyze big_dict (0, 0, 0) = (257, 388, 256)"
    by (simp add: big_dict_def analyze_replicate Let_def integer_length_def)
  have "length (bplist_file big_dict) + slack big_dict = 1 * 2 + 38 + 388 + 256 * 2 + 257 * 2"
    using length_bplist_file [OF an] by (simp add: bplist_reflen_def bplist_offlen_def an integer_length_def)
  then show "length (bplist_file big_dict) < 2 ^ 31" by simp
  show "slack big_dict = 1"
    by (simp add: big_dict_def slack_replicate dict_slack_def integer_length_def)
qed (simp_all add: big_dict_def)

end
