(* ===== verification/Std_Map.thy ===== *)
theory Std_Map
  imports Aps_Prelude "HOL-Library.List_Lexorder" "HOL-Library.Char_ord"
begin

text \<open>
  \<open>std::map\<close> as the association list its iterators run through, in the strict order of the keys.
  On strings this is the lexicographic order by unsigned character codes, the order of
  \<open>std::string\<close>. The code uses it for headers, routes, sessions and media data; the locale
  states what those clients rely on.
\<close>

type_synonym ('k, 'v) std_map = "('k \<times> 'v) list"

text \<open>\<open>m[k] = v\<close>, \<open>m.find(k)\<close> and \<open>m.erase(k)\<close>.\<close>

fun map_set :: "'k::linorder \<Rightarrow> 'v \<Rightarrow> ('k, 'v) std_map \<Rightarrow> ('k, 'v) std_map" where
  "map_set k v [] = [(k, v)]"
| "map_set k v ((k', v') # m) =
     (if k < k' then (k, v) # (k', v') # m
      else if k = k' then (k, v) # m
      else (k', v') # map_set k v m)"

fun map_find :: "'k::linorder \<Rightarrow> ('k, 'v) std_map \<Rightarrow> 'v option" where
  "map_find k [] = None"
| "map_find k ((k', v') # m) = (if k = k' then Some v' else map_find k m)"

fun map_erase :: "'k::linorder \<Rightarrow> ('k, 'v) std_map \<Rightarrow> ('k, 'v) std_map" where
  "map_erase k [] = []"
| "map_erase k ((k', v') # m) = (if k = k' then m else (k', v') # map_erase k m)"

definition map_ok :: "('k::linorder, 'v) std_map \<Rightarrow> bool" where
  "map_ok m \<longleftrightarrow> sorted_wrt (<) (map fst m)"

section \<open>The contract\<close>

locale ordered_map =
  fixes find :: "'k \<Rightarrow> 'm \<Rightarrow> 'v option" and set :: "'k \<Rightarrow> 'v \<Rightarrow> 'm \<Rightarrow> 'm"
    and erase :: "'k \<Rightarrow> 'm \<Rightarrow> 'm" and empty :: 'm and ok :: "'m \<Rightarrow> bool"
  assumes find_empty: "find k empty = None" and ok_empty: "ok empty"
    and find_set: "find k (set k' v m) = (if k = k' then Some v else find k m)"
    and ok_set: "ok m \<Longrightarrow> ok (set k v m)"
    and find_erase: "ok m \<Longrightarrow> find k (erase k' m) = (if k = k' then None else find k m)"
    and ok_erase: "ok m \<Longrightarrow> ok (erase k m)"
begin

text \<open>A map built by a sequence of assignments holds the last value assigned to each key.\<close>

definition build :: "('k \<times> 'v) list \<Rightarrow> 'm \<Rightarrow> 'm" where
  "build kvs m = fold (\<lambda>(k, v). set k v) kvs m"

lemma build_Nil: "build [] m = m"
  by (simp add: build_def)

lemma build_Cons: "build ((k, v) # kvs) m = build kvs (set k v m)"
  by (simp add: build_def)

lemma find_build: "find k (build kvs m) = (case map_of (rev kvs) k of None \<Rightarrow> find k m | Some v \<Rightarrow> Some v)"
proof (induction kvs arbitrary: m)
  case (Cons kv kvs)
  then show ?case
    by (cases kv) (auto simp: build_Cons find_set map_add_def split: option.splits)
qed (simp add: build_def)

lemma ok_build: "ok m \<Longrightarrow> ok (build kvs m)"
proof (induction kvs arbitrary: m)
  case (Cons kv kvs)
  then show ?case by (cases kv) (simp add: build_Cons ok_set)
qed (simp add: build_def)

end

section \<open>The association list keeps it\<close>

lemma map_find_map_of: "map_find k m = map_of m k"
  by (induction k m rule: map_find.induct) auto

lemma map_find_set: "map_find k (map_set k' v m) = (if k = k' then Some v else map_find k m)"
  by (induction k' v m rule: map_set.induct) auto

lemma set_map_set: "fst ` set (map_set k v m) = insert k (fst ` set m)"
  by (induction k v m rule: map_set.induct) auto

lemma map_ok_set: "map_ok m \<Longrightarrow> map_ok (map_set k v m)"
proof (induction k v m rule: map_set.induct)
  case (2 k v k' v' m)
  then show ?case
    using set_map_set [of k v m] by (auto simp: map_ok_def dest: order.strict_trans)
qed (simp add: map_ok_def)

lemma map_find_erase: "map_ok m \<Longrightarrow> map_find k (map_erase k' m) = (if k = k' then None else map_find k m)"
proof (induction k' m rule: map_erase.induct)
  case (2 k' k'' v m)
  have "map_find k'' m = None" if "\<forall>x \<in> fst ` set m. k'' < x"
    using that by (auto simp: map_find_map_of map_of_eq_None_iff)
  with 2 show ?case by (auto simp: map_ok_def)
qed simp

lemma set_map_erase: "set (map_erase k m) \<subseteq> set m"
  by (induction k m rule: map_erase.induct) auto

lemma map_ok_erase: "map_ok m \<Longrightarrow> map_ok (map_erase k m)"
proof (induction k m rule: map_erase.induct)
  case (2 k k' v m)
  then show ?case using set_map_erase [of k m] by (fastforce simp: map_ok_def)
qed (simp add: map_ok_def)

interpretation std: ordered_map map_find map_set map_erase "[]" map_ok
  by unfold_locales
     (simp_all add: map_find_set map_ok_set map_find_erase map_ok_erase map_ok_def [of "[]"])

text \<open>Assigning the entries of an ordered map one after the other rebuilds it.\<close>

lemma map_set_last: "(\<And>x. x \<in> fst ` set m \<Longrightarrow> x < k) \<Longrightarrow> map_set k v m = m @ [(k, v)]"
proof (induction m)
  case (Cons kv m)
  then show ?case by (cases kv) (force simp: dest: order.strict_implies_not_eq)
qed simp

lemma build_map_ok:
  assumes "map_ok m"
  shows "std.build m [] = m"
proof -
  have "std.build m' m = m @ m'" if "map_ok (m @ m')" for m m' :: "('a, 'b) std_map"
    using that
  proof (induction m' arbitrary: m)
    case (Cons kv m')
    obtain k v where kv: "kv = (k, v)" by (cases kv)
    have "map_set k v m = m @ [(k, v)]"
      using Cons.prems kv by (intro map_set_last) (force simp: map_ok_def sorted_wrt_append)
    moreover have "std.build m' (m @ [(k, v)]) = (m @ [(k, v)]) @ m'"
      using Cons.prems kv by (intro Cons.IH) simp
    ultimately show ?case using kv by (simp add: std.build_Cons)
  qed (simp add: std.build_Nil)
  from this [of "[]" m] show ?thesis using assms by simp
qed

end
