(* ===== verification/Xtxp_Message.thy ===== *)
theory Xtxp_Message
  imports Std_Map
begin

text \<open>
  The HTTP and RTSP messages of \<open>src/network/xtxp_message.h\<close> and
  \<open>src/network/xtxp_message.cpp\<close>: the message with its builders, requests, responses and their
  serialization. A \<open>char\<close> and a byte are the same datum in the code; strings are lists of
  \<open>char\<close>, contents lists of \<open>u8\<close>. The default constructor of \<open>xtxp_message\<close> leaves
  \<open>content_length\<close> uninitialised, which is an argument here.
\<close>

definition CR :: char where "CR = CHR 0x0D"
definition LF :: char where "LF = CHR 0x0A"
definition RN_LINE_BREAK :: string where "RN_LINE_BREAK = [CR, LF]"
definition RNRN_LINE_BREAK :: string where "RNRN_LINE_BREAK = [CR, LF, CR, LF]"
definition HEADER_CONTENT_TYPE :: string where "HEADER_CONTENT_TYPE = ''Content-Type''"
definition HEADER_CONTENT_LENGTH :: string where "HEADER_CONTENT_LENGTH = ''Content-Length''"

type_synonym header_map = "(string, string) std_map"

record xtxp_message =
  scheme_version :: string
  content_length :: nat
  content_type :: string
  headers :: header_map
  content :: "u8 list"

definition new_message :: "nat \<Rightarrow> xtxp_message" where
  "new_message uninitialised =
     \<lparr>scheme_version = '''', content_length = uninitialised, content_type = '''', headers = [], content = []\<rparr>"

definition new_message_scheme :: "string \<Rightarrow> xtxp_message" where
  "new_message_scheme scm_ver =
     \<lparr>scheme_version = scm_ver, content_length = 0, content_type = '''', headers = [], content = []\<rparr>"

section \<open>Builders\<close>

text \<open>Only the overload for a byte vector replaces the content; the others append to it.\<close>

definition with_content_type :: "string \<Rightarrow> 'a xtxp_message_scheme \<Rightarrow> 'a xtxp_message_scheme" where
  "with_content_type type m = m\<lparr>content_type := type\<rparr>"

definition with_content_string :: "string \<Rightarrow> 'a xtxp_message_scheme \<Rightarrow> 'a xtxp_message_scheme" where
  "with_content_string data m =
     m\<lparr>content := content m @ bytes_of data, content_length := length data\<rparr>"

definition with_content :: "u8 list \<Rightarrow> 'a xtxp_message_scheme \<Rightarrow> 'a xtxp_message_scheme" where
  "with_content data m = m\<lparr>content := data, content_length := length data\<rparr>"

definition with_content_buffer :: "u8 list \<Rightarrow> 'a xtxp_message_scheme \<Rightarrow> 'a xtxp_message_scheme" where
  "with_content_buffer data m =
     m\<lparr>content := content m @ data, content_length := length data\<rparr>"

definition with_header :: "string \<Rightarrow> string \<Rightarrow> 'a xtxp_message_scheme \<Rightarrow> 'a xtxp_message_scheme" where
  "with_header name val m = m\<lparr>headers := map_set name val (headers m)\<rparr>"

section \<open>Serialization\<close>

text \<open>Decimal output of an unsigned number on a stream.\<close>

fun decimal :: "nat \<Rightarrow> string" where
  "decimal n = (if n < 10 then [char_of (48 + n)] else decimal (n div 10) @ [char_of (48 + n mod 10)])"

declare decimal.simps [simp del]

definition header_line :: "string \<times> string \<Rightarrow> string" where
  "header_line kv = fst kv @ '':'' @ '' '' @ snd kv @ RN_LINE_BREAK"

definition serialize_headers :: "'a xtxp_message_scheme \<Rightarrow> string" where
  "serialize_headers m =
     concat (map header_line (headers m)) @
     header_line (HEADER_CONTENT_LENGTH, decimal (content_length m)) @
     (if content_type m \<noteq> '''' then header_line (HEADER_CONTENT_TYPE, content_type m) else []) @
     RN_LINE_BREAK"

definition message_serialize :: "'a xtxp_message_scheme \<Rightarrow> string" where
  "message_serialize m = serialize_headers m @ string_of (content m)"

section \<open>Requests and responses\<close>

record request = xtxp_message +
  req_method :: string
  uri :: string

record response = xtxp_message +
  status_code :: int
  status_text :: string

definition new_request :: "string \<Rightarrow> string \<Rightarrow> string \<Rightarrow> request" where
  "new_request scheme_ver methot u =
     xtxp_message.extend (new_message_scheme scheme_ver) (request.fields methot u)"

definition empty_request :: "nat \<Rightarrow> request" where
  "empty_request uninitialised =
     xtxp_message.extend (new_message uninitialised) (request.fields '''' '''')"

definition request_line :: "request \<Rightarrow> string" where
  "request_line r = req_method r @ '' '' @ uri r @ '' '' @ scheme_version r @ RN_LINE_BREAK"

definition request_serialize :: "request \<Rightarrow> string" where
  "request_serialize r = request_line r @ message_serialize r"

definition switching_protocols :: int where "switching_protocols = 101"
definition ok :: int where "ok = 200"
definition bad_request :: int where "bad_request = 400"
definition not_found :: int where "not_found = 404"
definition method_not_allowed :: int where "method_not_allowed = 405"
definition internal_error :: int where "internal_error = 500"

definition g_status_code_string_map :: "(int \<times> string) list" where
  "g_status_code_string_map =
     [(switching_protocols, ''Switching Protocols''), (ok, ''OK''), (bad_request, ''Bad Request''),
      (not_found, ''Not Found''), (method_not_allowed, ''Method Not Allowed''),
      (internal_error, ''Internal Error'')]"

definition new_response :: "string \<Rightarrow> response" where
  "new_response scheme_ver =
     xtxp_message.extend (new_message_scheme scheme_ver) (response.fields ok ''OK'')"

definition empty_response :: "nat \<Rightarrow> response" where
  "empty_response uninitialised =
     xtxp_message.extend (new_message uninitialised) (response.fields ok ''OK'')"

definition with_status :: "int \<Rightarrow> response \<Rightarrow> response" where
  "with_status code r = r\<lparr>status_code := code,
     status_text := (case map_find code g_status_code_string_map of
                       Some text \<Rightarrow> text | None \<Rightarrow> ''No Description'')\<rparr>"

text \<open>A \<open>status_type_t\<close> is printed as the number it is; a negative one with its sign.\<close>

definition decimal_int :: "int \<Rightarrow> string" where
  "decimal_int z = (if z < 0 then ''-'' @ decimal (nat (- z)) else decimal (nat z))"

definition status_line :: "response \<Rightarrow> string" where
  "status_line r =
     scheme_version r @ '' '' @ decimal_int (status_code r) @ '' '' @ status_text r @ RN_LINE_BREAK"

definition response_serialize :: "response \<Rightarrow> string" where
  "response_serialize r = status_line r @ message_serialize r"

lemmas message_defs =
  new_message_def new_message_scheme_def new_request_def empty_request_def new_response_def
  empty_response_def xtxp_message.defs request.defs response.defs

lemmas builder_defs =
  with_content_type_def with_content_string_def with_content_def with_content_buffer_def
  with_header_def with_status_def

section \<open>Builders and the length of the content\<close>

text \<open>
  The builders keep the announced length equal to the length of the content when the content
  was empty before, as for every message the code builds once.
\<close>

lemma with_content_length:
  "content_length (with_content data m) = length (content (with_content data m))"
  "content m = [] \<Longrightarrow> content_length (with_content_string s m) = length (content (with_content_string s m))"
  "content m = [] \<Longrightarrow> content_length (with_content_buffer data m) = length (content (with_content_buffer data m))"
  by (simp_all add: builder_defs)

lemma with_content_twice:
  "content (with_content_string s2 (with_content_string s1 m)) = content m @ bytes_of s1 @ bytes_of s2"
  "content_length (with_content_string s2 (with_content_string s1 m)) = length s2"
  by (simp_all add: builder_defs bytes_of_def)

end
