(* ===== verification/Http_Parser.thy ===== *)
theory Http_Parser
  imports Xtxp_Message
begin

text \<open>
  \<open>http_message_parser\<close> of \<open>src/network/xtxp_message.h\<close>: the character classes, \<open>strtol\<close> as the
  code uses it, the two state machines \<open>consume\<close> (one for requests, one for responses) and the
  two loops \<open>parse\<close>. The parser keeps its state and its buffers from one message to the next, so
  they are passed and returned. Whether \<open>char\<close> is signed makes no difference: a code over 127 is
  rejected either way. The message is taken to have fewer than \<open>2 ^ 31\<close> characters, as the loop
  counter is an \<open>int\<close>.
\<close>

section \<open>Character classes\<close>

definition is_char :: "char \<Rightarrow> bool" where
  "is_char c \<longleftrightarrow> (of_char c :: nat) \<le> 127"

definition is_ctl :: "char \<Rightarrow> bool" where
  "is_ctl c \<longleftrightarrow> (of_char c :: nat) \<le> 31 \<or> (of_char c :: nat) = 127"

definition is_tspecial :: "char \<Rightarrow> bool" where
  "is_tspecial c \<longleftrightarrow> c \<in> set (''()<>@,;:'' @ [CHR 0x5C, CHR 0x22] @ ''/[]?={} '' @ [CHR 0x09])"

definition is_digit :: "char \<Rightarrow> bool" where
  "is_digit c \<longleftrightarrow> 48 \<le> (of_char c :: nat) \<and> (of_char c :: nat) \<le> 57"

text \<open>What may occur in a method, a header name or at the start of a message.\<close>

definition is_token :: "char \<Rightarrow> bool" where
  "is_token c \<longleftrightarrow> is_char c \<and> \<not> is_ctl c \<and> \<not> is_tspecial c"

section \<open>\<open>strtol\<close> in base 10\<close>

text \<open>
  White space, a sign, the longest run of digits, clamped to the range of a 64-bit \<open>long\<close>; 0 when
  there is no digit.
\<close>

definition is_space :: "char \<Rightarrow> bool" where
  "is_space c \<longleftrightarrow> (of_char c :: nat) = 32 \<or> 9 \<le> (of_char c :: nat) \<and> (of_char c :: nat) \<le> 13"

fun digits_value :: "nat \<Rightarrow> string \<Rightarrow> nat" where
  "digits_value n [] = n"
| "digits_value n (c # cs) = (if is_digit c then digits_value (10 * n + (of_char c - 48)) cs else n)"

definition clamp_long :: "int \<Rightarrow> int" where
  "clamp_long z = (if z < - (2 ^ 63) then - (2 ^ 63) else if 2 ^ 63 \<le> z then 2 ^ 63 - 1 else z)"

definition strtol :: "string \<Rightarrow> int" where
  "strtol s =
     (case dropWhile is_space s of
        [] \<Rightarrow> 0
      | c # cs \<Rightarrow>
          clamp_long
            (if c = CHR ''-'' then - int (digits_value 0 cs)
             else if c = CHR ''+'' then int (digits_value 0 cs)
             else int (digits_value 0 (c # cs))))"

text \<open>The conversions of a \<open>long\<close> to \<open>size_t\<close> and to the \<open>unsigned int\<close> of the status enumeration.\<close>

definition to_size :: "int \<Rightarrow> nat" where
  "to_size z = nat (z mod 2 ^ 64)"

definition to_status :: "int \<Rightarrow> int" where
  "to_status z = z mod 2 ^ 32"

section \<open>The parser\<close>

datatype state =
    token_start
  | token_method
  | token_uri
  | token_scheme_version
  | token_status_code
  | token_status_text
  | token_expecting_new_line
  | token_header_line_start
  | token_header_lws
  | token_header_name
  | token_space_before_header_value
  | token_header_value
  | token_expecting_last_line

datatype parse_result = parse_more | parse_done | parse_fail

record http_message_parser =
  pstate :: state
  pcode :: string
  pname :: string
  pvalue :: string

definition new_parser :: http_message_parser where
  "new_parser = \<lparr>pstate = token_start, pcode = '''', pname = '''', pvalue = ''''\<rparr>"

definition reset :: "http_message_parser \<Rightarrow> http_message_parser" where
  "reset p = p\<lparr>pstate := token_start\<rparr>"

text \<open>The end of a header line: the two headers the parser knows, and the map of all of them.\<close>

definition store_header :: "string \<Rightarrow> string \<Rightarrow> 'a xtxp_message_scheme \<Rightarrow> 'a xtxp_message_scheme" where
  "store_header name val m =
     (let m = (if c_str name = HEADER_CONTENT_LENGTH then m\<lparr>content_length := to_size (strtol val)\<rparr> else m);
          m = (if c_str name = HEADER_CONTENT_TYPE then m\<lparr>content_type := val\<rparr> else m)
      in m\<lparr>headers := map_set name val (headers m)\<rparr>)"

definition consume_request ::
  "http_message_parser \<Rightarrow> request \<Rightarrow> char \<Rightarrow> parse_result \<times> http_message_parser \<times> request" where
  "consume_request p req input =
     (case pstate p of
        token_start \<Rightarrow>
          (if \<not> is_char input \<or> is_ctl input \<or> is_tspecial input then (parse_fail, p, req)
           else (parse_more, p\<lparr>pstate := token_method\<rparr>, req\<lparr>req_method := req_method req @ [input]\<rparr>))
      | token_method \<Rightarrow>
          (if input = CHR '' '' then (parse_more, p\<lparr>pstate := token_uri\<rparr>, req)
           else if \<not> is_char input \<or> is_ctl input \<or> is_tspecial input then (parse_fail, p, req)
           else (parse_more, p, req\<lparr>req_method := req_method req @ [input]\<rparr>))
      | token_uri \<Rightarrow>
          (if input = CHR '' '' then (parse_more, p\<lparr>pstate := token_scheme_version\<rparr>, req)
           else if \<not> is_char input \<or> is_ctl input then (parse_fail, p, req)
           else (parse_more, p, req\<lparr>uri := uri req @ [input]\<rparr>))
      | token_scheme_version \<Rightarrow>
          (if input = CR then (parse_more, p\<lparr>pstate := token_expecting_new_line\<rparr>, req)
           else if \<not> is_char input then (parse_fail, p, req)
           else (parse_more, p, req\<lparr>scheme_version := scheme_version req @ [input]\<rparr>))
      | token_expecting_new_line \<Rightarrow>
          (if input = LF then (parse_more, p\<lparr>pname := '''', pstate := token_header_line_start\<rparr>, req)
           else (parse_fail, p, req))
      | token_header_line_start \<Rightarrow>
          (if input = CR then (parse_more, p\<lparr>pstate := token_expecting_last_line\<rparr>, req)
           else if \<not> is_char input \<or> is_ctl input \<or> is_tspecial input then (parse_fail, p, req)
           else (parse_more, p\<lparr>pname := pname p @ [input], pstate := token_header_name\<rparr>, req))
      | token_header_name \<Rightarrow>
          (if input = CHR '':'' then (parse_more, p\<lparr>pvalue := '''', pstate := token_space_before_header_value\<rparr>, req)
           else if \<not> is_char input \<or> is_ctl input \<or> is_tspecial input then (parse_fail, p, req)
           else (parse_more, p\<lparr>pname := pname p @ [input]\<rparr>, req))
      | token_space_before_header_value \<Rightarrow>
          (if input = CHR '' '' then (parse_more, p\<lparr>pstate := token_header_value\<rparr>, req)
           else (parse_fail, p, req))
      | token_header_value \<Rightarrow>
          (if input = CR then (parse_more, p\<lparr>pstate := token_expecting_new_line\<rparr>, store_header (pname p) (pvalue p) req)
           else if is_ctl input then (parse_fail, p, req)
           else (parse_more, p\<lparr>pvalue := pvalue p @ [input]\<rparr>, req))
      | token_expecting_last_line \<Rightarrow>
          (if input = LF then (parse_done, p, req) else (parse_fail, p, req))
      | _ \<Rightarrow> (parse_fail, p, req))"

definition consume_response ::
  "http_message_parser \<Rightarrow> response \<Rightarrow> char \<Rightarrow> parse_result \<times> http_message_parser \<times> response" where
  "consume_response p res input =
     (case pstate p of
        token_start \<Rightarrow>
          (if \<not> is_char input \<or> is_ctl input \<or> is_tspecial input then (parse_fail, p, res)
           else (parse_more, p\<lparr>pstate := token_scheme_version\<rparr>, res\<lparr>scheme_version := scheme_version res @ [input]\<rparr>))
      | token_scheme_version \<Rightarrow>
          (if input = CHR '' '' then (parse_more, p\<lparr>pstate := token_status_code, pcode := ''''\<rparr>, res)
           else if \<not> is_char input then (parse_fail, p, res)
           else (parse_more, p, res\<lparr>scheme_version := scheme_version res @ [input]\<rparr>))
      | token_status_code \<Rightarrow>
          (if input = CHR '' '' then
             (parse_more, p\<lparr>pstate := token_status_text\<rparr>, res\<lparr>status_code := to_status (strtol (pcode p))\<rparr>)
           else if \<not> is_digit input \<or> is_ctl input then (parse_fail, p, res)
           else (parse_more, p\<lparr>pcode := pcode p @ [input]\<rparr>, res))
      | token_status_text \<Rightarrow>
          (if input = CR then (parse_more, p\<lparr>pstate := token_expecting_new_line\<rparr>, res)
           else if \<not> is_char input then (parse_fail, p, res)
           else (parse_more, p, res\<lparr>status_text := status_text res @ [input]\<rparr>))
      | token_expecting_new_line \<Rightarrow>
          (if input = LF then (parse_more, p\<lparr>pname := '''', pstate := token_header_line_start\<rparr>, res)
           else (parse_fail, p, res))
      | token_header_line_start \<Rightarrow>
          (if input = CR then (parse_more, p\<lparr>pstate := token_expecting_last_line\<rparr>, res)
           else if \<not> is_char input \<or> is_ctl input \<or> is_tspecial input then (parse_fail, p, res)
           else (parse_more, p\<lparr>pname := pname p @ [input], pstate := token_header_name\<rparr>, res))
      | token_header_name \<Rightarrow>
          (if input = CHR '':'' then (parse_more, p\<lparr>pstate := token_space_before_header_value\<rparr>, res)
           else if \<not> is_char input \<or> is_ctl input \<or> is_tspecial input then (parse_fail, p, res)
           else (parse_more, p\<lparr>pname := pname p @ [input]\<rparr>, res))
      | token_space_before_header_value \<Rightarrow>
          (if input = CHR '' '' then (parse_more, p\<lparr>pstate := token_header_value, pvalue := ''''\<rparr>, res)
           else (parse_fail, p, res))
      | token_header_value \<Rightarrow>
          (if input = CR then (parse_more, p\<lparr>pstate := token_expecting_new_line\<rparr>, store_header (pname p) (pvalue p) res)
           else if is_ctl input then (parse_fail, p, res)
           else (parse_more, p\<lparr>pvalue := pvalue p @ [input]\<rparr>, res))
      | token_expecting_last_line \<Rightarrow>
          (if input = LF then (parse_done, p, res) else (parse_fail, p, res))
      | _ \<Rightarrow> (parse_fail, p, res))"

text \<open>
  The loop of both \<open>parse\<close> functions over \<open>consume\<close>. It goes on after \<open>parse_done\<close>, so a message
  may be followed by another one in the same data.
\<close>

fun parse_loop ::
  "(http_message_parser \<Rightarrow> 'm \<Rightarrow> char \<Rightarrow> parse_result \<times> http_message_parser \<times> 'm) \<Rightarrow>
   http_message_parser \<Rightarrow> 'm \<Rightarrow> string \<Rightarrow> bool \<times> http_message_parser \<times> 'm" where
  "parse_loop consume p m [] = (True, p, m)"
| "parse_loop consume p m (c # data) =
     (let (result, p, m) = consume p m c;
          p = (if result \<noteq> parse_more then reset p else p)
      in if result = parse_fail then (False, p, m) else parse_loop consume p m data)"

definition parse_request ::
  "http_message_parser \<Rightarrow> request \<Rightarrow> string \<Rightarrow> bool \<times> http_message_parser \<times> request" where
  "parse_request p req data =
     parse_loop consume_request p
       (req\<lparr>req_method := '''', uri := '''', scheme_version := '''', headers := [], content := [], content_length := 0\<rparr>)
       data"

definition parse_response ::
  "http_message_parser \<Rightarrow> response \<Rightarrow> string \<Rightarrow> bool \<times> http_message_parser \<times> response" where
  "parse_response p res data =
     parse_loop consume_response p
       (res\<lparr>scheme_version := '''', status_code := ok, status_text := '''', content_length := 0, content_type := ''''\<rparr>)
       data"

end
