(* ===== verification/Http_Roundtrip.thy ===== *)
theory Http_Roundtrip
  imports Http_Parser
begin

text \<open>
  What the message parser makes of what the messages serialize to, where a message ends, and what
  cannot get into a parsed request. The two state machines treat the header part of a message alike;
  the locale \<open>header_machine\<close> holds what they share, and both \<open>consume\<close> functions are instances.
\<close>

section \<open>Decimal numbers\<close>

lemma is_digit_char_of: "n < 10 \<Longrightarrow> is_digit (char_of (48 + n :: nat))"
  by (simp add: is_digit_def)

lemma decimal_digits: "c \<in> set (decimal n) \<Longrightarrow> is_digit c"
proof (induction n rule: decimal.induct)
  case (1 n)
  have "is_digit (char_of (48 + n mod 10))" by (rule is_digit_char_of) simp
  with 1 show ?case
    by (cases "n < 10") (auto simp: decimal.simps [of n] is_digit_char_of)
qed

lemma decimal_nonempty: "decimal n \<noteq> []"
  by (simp add: decimal.simps)

lemma digits_value_append:
  "(\<And>c. c \<in> set xs \<Longrightarrow> is_digit c) \<Longrightarrow> digits_value k (xs @ ys) = digits_value (digits_value k xs) ys"
  by (induction xs arbitrary: k) auto

lemma digits_value_decimal: "digits_value 0 (decimal n) = n"
proof (induction n rule: decimal.induct)
  case (1 n)
  show ?case
  proof (cases "n < 10")
    case True
    then show ?thesis by (simp add: decimal.simps is_digit_char_of)
  next
    case False
    have d: "is_digit (char_of (48 + n mod 10))" by (rule is_digit_char_of) simp
    have "digits_value 0 (decimal n) = 10 * digits_value 0 (decimal (n div 10)) + n mod 10"
      using False d by (simp add: decimal.simps [of n] digits_value_append decimal_digits)
    then show ?thesis using 1 False by simp
  qed
qed

lemma strtol_decimal: "n < 2 ^ 63 \<Longrightarrow> strtol (decimal n) = int n"
proof -
  assume n: "n < 2 ^ 63"
  obtain c cs where d: "decimal n = c # cs" using decimal_nonempty [of n] by (cases "decimal n") auto
  have c: "is_digit c" using decimal_digits [of c n] d by simp
  then have "\<not> is_space c" "c \<noteq> CHR ''-''" "c \<noteq> CHR ''+''"
    by (auto simp: is_space_def is_digit_def)
  then show ?thesis
    using n digits_value_decimal [of n] by (simp add: strtol_def d clamp_long_def)
qed

lemma to_size_nat: "n < 2 ^ 63 \<Longrightarrow> to_size (int n) = n"
  by (simp add: to_size_def)

section \<open>The loop\<close>

lemma parse_loop_more:
  "consume p m c = (parse_more, p', m') \<Longrightarrow> parse_loop consume p m (c # data) = parse_loop consume p' m' data"
  by simp

lemma parse_loop_append:
  "parse_loop consume p m (xs @ ys) =
     (case parse_loop consume p m xs of
        (True, p', m') \<Rightarrow> parse_loop consume p' m' ys
      | (False, p', m') \<Rightarrow> (False, p', m'))"
  by (induction xs arbitrary: p m) (auto simp: Let_def split: prod.splits bool.splits)

text \<open>A failed parse and a finished message both leave the parser at its start.\<close>

lemma parse_loop_fail: "parse_loop consume p m data = (False, p', m') \<Longrightarrow> pstate p' = token_start"
  by (induction data arbitrary: p m) (auto simp: Let_def reset_def split: prod.splits if_splits)

lemma parse_loop_invariant:
  assumes "\<And>p m c r p' m'. I p m \<Longrightarrow> consume p m c = (r, p', m') \<Longrightarrow> I p' m'"
    and "\<And>p m. I p m \<Longrightarrow> I (reset p) m"
  shows "I p m \<Longrightarrow> parse_loop consume p m data = (b, p', m') \<Longrightarrow> I p' m'"
  using assms by (induction data arbitrary: p m) (fastforce simp: Let_def split: prod.splits if_splits)+

section \<open>The header part\<close>

definition line_ok :: "string \<times> string \<Rightarrow> bool" where
  "line_ok kv \<longleftrightarrow> fst kv \<noteq> [] \<and> (\<forall>c \<in> set (fst kv). is_token c) \<and> (\<forall>c \<in> set (snd kv). \<not> is_ctl c)"

locale header_machine =
  fixes consume :: "http_message_parser \<Rightarrow> 'm \<Rightarrow> char \<Rightarrow> parse_result \<times> http_message_parser \<times> 'm"
    and store :: "string \<Rightarrow> string \<Rightarrow> 'm \<Rightarrow> 'm"
  assumes line_start_token: "pstate p = token_header_line_start \<Longrightarrow> is_token c \<Longrightarrow>
      consume p m c = (parse_more, p\<lparr>pname := pname p @ [c], pstate := token_header_name\<rparr>, m)"
    and name_token: "pstate p = token_header_name \<Longrightarrow> is_token c \<Longrightarrow>
      consume p m c = (parse_more, p\<lparr>pname := pname p @ [c]\<rparr>, m)"
    and colon_space: "pstate p = token_header_name \<Longrightarrow>
      \<exists>p'. parse_loop consume p m ('': '' @ rest) = parse_loop consume p' m rest \<and>
        pstate p' = token_header_value \<and> pname p' = pname p \<and> pvalue p' = ''''"
    and value_char: "pstate p = token_header_value \<Longrightarrow> \<not> is_ctl c \<Longrightarrow>
      consume p m c = (parse_more, p\<lparr>pvalue := pvalue p @ [c]\<rparr>, m)"
    and value_CR: "pstate p = token_header_value \<Longrightarrow>
      consume p m CR = (parse_more, p\<lparr>pstate := token_expecting_new_line\<rparr>, store (pname p) (pvalue p) m)"
    and new_line: "pstate p = token_expecting_new_line \<Longrightarrow>
      consume p m LF = (parse_more, p\<lparr>pname := '''', pstate := token_header_line_start\<rparr>, m)"
    and line_start_CR: "pstate p = token_header_line_start \<Longrightarrow>
      consume p m CR = (parse_more, p\<lparr>pstate := token_expecting_last_line\<rparr>, m)"
    and last_line: "pstate p = token_expecting_last_line \<Longrightarrow> consume p m LF = (parse_done, p, m)"
begin

lemma name_run:
  assumes "pstate p = token_header_name" and "\<And>c. c \<in> set cs \<Longrightarrow> is_token c"
  shows "\<exists>p'. parse_loop consume p m (cs @ rest) = parse_loop consume p' m rest \<and>
    pstate p' = token_header_name \<and> pname p' = pname p @ cs"
  using assms
proof (induction cs arbitrary: p)
  case (Cons c cs)
  have "parse_loop consume p m ((c # cs) @ rest) = parse_loop consume (p\<lparr>pname := pname p @ [c]\<rparr>) m (cs @ rest)"
    using Cons.prems by (simp add: name_token)
  then show ?case using Cons.IH [of "p\<lparr>pname := pname p @ [c]\<rparr>"] Cons.prems by auto
qed auto

lemma value_run:
  assumes "pstate p = token_header_value" and "\<And>c. c \<in> set cs \<Longrightarrow> \<not> is_ctl c"
  shows "\<exists>p'. parse_loop consume p m (cs @ rest) = parse_loop consume p' m rest \<and>
    pstate p' = token_header_value \<and> pname p' = pname p \<and> pvalue p' = pvalue p @ cs"
  using assms
proof (induction cs arbitrary: p)
  case (Cons c cs)
  have "parse_loop consume p m ((c # cs) @ rest) = parse_loop consume (p\<lparr>pvalue := pvalue p @ [c]\<rparr>) m (cs @ rest)"
    using Cons.prems by (simp add: value_char)
  then show ?case using Cons.IH [of "p\<lparr>pvalue := pvalue p @ [c]\<rparr>"] Cons.prems by auto
qed auto

lemma line_run:
  assumes p: "pstate p = token_header_line_start" "pname p = ''''" and kv: "line_ok (n, v)"
  shows "\<exists>p'. parse_loop consume p m (header_line (n, v) @ rest) = parse_loop consume p' (store n v m) rest \<and>
    pstate p' = token_header_line_start \<and> pname p' = ''''"
proof -
  obtain c cs where n: "n = c # cs" using kv by (cases n) (auto simp: line_ok_def)
  let ?rest = "RN_LINE_BREAK @ rest"
  have 1: "parse_loop consume p m (header_line (n, v) @ rest) =
      parse_loop consume (p\<lparr>pname := [c], pstate := token_header_name\<rparr>) m (cs @ '': '' @ v @ ?rest)"
    using p kv by (simp add: n header_line_def line_start_token line_ok_def)
  obtain p1 where p1: "parse_loop consume (p\<lparr>pname := [c], pstate := token_header_name\<rparr>) m (cs @ '': '' @ v @ ?rest) =
      parse_loop consume p1 m ('': '' @ v @ ?rest)" "pstate p1 = token_header_name" "pname p1 = n"
    using name_run [of "p\<lparr>pname := [c], pstate := token_header_name\<rparr>" cs m "'': '' @ v @ ?rest"] kv n
    by (auto simp: line_ok_def)
  obtain p2 where p2: "parse_loop consume p1 m ('': '' @ v @ ?rest) = parse_loop consume p2 m (v @ ?rest)"
      "pstate p2 = token_header_value" "pname p2 = n" "pvalue p2 = ''''"
    using colon_space [OF p1(2), of m "v @ ?rest"] p1(3) by auto
  obtain p3 where p3: "parse_loop consume p2 m (v @ ?rest) = parse_loop consume p3 m ?rest"
      "pstate p3 = token_header_value" "pname p3 = n" "pvalue p3 = v"
    using value_run [OF p2(2), of v m ?rest] p2(3,4) kv by (auto simp: line_ok_def)
  have "parse_loop consume p3 m ?rest =
      parse_loop consume (p3\<lparr>pstate := token_expecting_new_line, pname := '''', pstate := token_header_line_start\<rparr>)
        (store n v m) rest"
    using p3 by (simp add: RN_LINE_BREAK_def value_CR new_line)
  with 1 p1(1) p2(1) p3(1) show ?thesis by auto
qed

lemma lines_run:
  assumes "pstate p = token_header_line_start" "pname p = ''''" and "\<And>kv. kv \<in> set kvs \<Longrightarrow> line_ok kv"
  shows "\<exists>p'. parse_loop consume p m (concat (map header_line kvs) @ rest) =
      parse_loop consume p' (fold (\<lambda>(n, v). store n v) kvs m) rest \<and>
    pstate p' = token_header_line_start \<and> pname p' = ''''"
  using assms
proof (induction kvs arbitrary: p m)
  case (Cons kv kvs)
  obtain n v where kv: "kv = (n, v)" by (cases kv)
  obtain p' where p': "parse_loop consume p m (header_line (n, v) @ concat (map header_line kvs) @ rest) =
      parse_loop consume p' (store n v m) (concat (map header_line kvs) @ rest)"
      "pstate p' = token_header_line_start" "pname p' = ''''"
    using line_run [of p n v m "concat (map header_line kvs) @ rest"] Cons.prems kv by auto
  then show ?case using Cons.IH [OF p'(2,3)] Cons.prems(3) kv by auto
qed auto

lemma header_part:
  assumes "pstate p = token_header_line_start" "pname p = ''''" and "\<And>kv. kv \<in> set kvs \<Longrightarrow> line_ok kv"
  shows "\<exists>p'. parse_loop consume p m (concat (map header_line kvs) @ RN_LINE_BREAK) =
      (True, p', fold (\<lambda>(n, v). store n v) kvs m) \<and> pstate p' = token_start"
proof -
  obtain p' where "parse_loop consume p m (concat (map header_line kvs) @ RN_LINE_BREAK) =
      parse_loop consume p' (fold (\<lambda>(n, v). store n v) kvs m) RN_LINE_BREAK"
      "pstate p' = token_header_line_start"
    using lines_run [OF assms] by blast
  then show ?thesis by (simp add: RN_LINE_BREAK_def line_start_CR last_line reset_def)
qed

end

text \<open>
  A carriage return is an error, or ends a line: what makes an empty line end a message.
\<close>

locale framed_machine = header_machine +
  assumes only_CR: "consume p m CR = (r, p', m') \<Longrightarrow> r = parse_fail \<or>
      r = parse_more \<and> pstate p' \<in> {token_expecting_new_line, token_expecting_last_line}"
    and start_CR: "pstate p = token_start \<Longrightarrow> fst (consume p m CR) = parse_fail"
begin

text \<open>Data that ends in an empty line leaves the parser at its start, whatever came before.\<close>

lemma empty_line_ends:
  assumes "parse_loop consume p m (data @ RNRN_LINE_BREAK) = (b, p', m')"
  shows "pstate p' = token_start"
proof (cases "parse_loop consume p m data")
  case (fields b1 p1 m1)
  show ?thesis
  proof (cases b1)
    case False
    then show ?thesis using fields assms parse_loop_fail by (fastforce simp: parse_loop_append)
  next
    case True
    then have l: "parse_loop consume p1 m1 [CR, LF, CR, LF] = (b, p', m')"
      using fields assms by (simp add: parse_loop_append RNRN_LINE_BREAK_def)
    obtain r p2 m2 where c: "consume p1 m1 CR = (r, p2, m2)" by (metis prod_cases3)
    show ?thesis
    proof (cases "b")
      case False
      then show ?thesis using l parse_loop_fail by (metis (full_types))
    next
      case True
      have "r = parse_more \<and> pstate p2 \<in> {token_expecting_new_line, token_expecting_last_line}"
        using only_CR [OF c] l c True by (auto simp: Let_def)
      then consider "r = parse_more" "pstate p2 = token_expecting_new_line"
        | "r = parse_more" "pstate p2 = token_expecting_last_line" by blast
      then show ?thesis
      proof cases
        case 1
        then show ?thesis using l c by (auto simp: new_line line_start_CR last_line reset_def)
      next
        case 2
        then have "parse_loop consume (reset p2) m2 [CR, LF] = (b, p', m')"
          using l c by (simp add: last_line)
        moreover have "fst (consume (reset p2) m2 CR) = parse_fail" by (rule start_CR) (simp add: reset_def)
        ultimately show ?thesis using True by (auto simp: Let_def split: prod.splits)
      qed
    qed
  qed
qed

end

lemma tokens_no_ctl: "is_token c \<Longrightarrow> \<not> is_ctl c"
  by (simp add: is_token_def)

lemma not_tokens [simp]: "\<not> is_token CHR '':''" "\<not> is_token CHR '' ''" "\<not> is_token CR" "\<not> is_token LF"
  by (simp_all add: is_token_def is_tspecial_def is_ctl_def CR_def LF_def)

lemma CR_LF_ctl [simp]: "is_ctl CR" "is_ctl LF" "is_char CR" "is_char LF" "CR \<noteq> LF" "LF \<noteq> CR"
  "CR \<noteq> CHR '' ''" "CR \<noteq> CHR '':''" "\<not> is_digit CR"
  by (simp_all add: is_ctl_def is_char_def is_digit_def CR_def LF_def)

lemma token_neq: "is_token c \<Longrightarrow> c \<noteq> CHR '':'' \<and> c \<noteq> CHR '' '' \<and> c \<noteq> CR"
  using not_tokens by blast

lemma token_parts: "is_token c \<Longrightarrow> is_char c \<and> \<not> is_ctl c \<and> \<not> is_tspecial c"
  by (simp add: is_token_def)

interpretation req: framed_machine consume_request store_header
proof
  fix p :: http_message_parser and m :: request and rest
  assume "pstate p = token_header_name"
  then show "\<exists>p'. parse_loop consume_request p m ('': '' @ rest) = parse_loop consume_request p' m rest \<and>
      pstate p' = token_header_value \<and> pname p' = pname p \<and> pvalue p' = ''''"
    by (intro exI [of _ "p\<lparr>pvalue := [], pstate := token_header_value\<rparr>"]) (simp add: consume_request_def)
qed (auto simp: consume_request_def dest: token_neq token_parts split: state.splits if_splits)

interpretation res: header_machine consume_response store_header
proof
  fix p :: http_message_parser and m :: response and rest
  assume "pstate p = token_header_name"
  then show "\<exists>p'. parse_loop consume_response p m ('': '' @ rest) = parse_loop consume_response p' m rest \<and>
      pstate p' = token_header_value \<and> pname p' = pname p \<and> pvalue p' = ''''"
    by (intro exI [of _ "p\<lparr>pstate := token_header_value, pvalue := []\<rparr>"]) (simp add: consume_response_def)
qed (auto simp: consume_response_def dest: token_neq token_parts split: state.splits if_splits)

section \<open>The first line\<close>

lemma request_method_run:
  assumes "pstate p = token_method" and "\<And>c. c \<in> set cs \<Longrightarrow> is_token c"
  shows "parse_loop consume_request p r (cs @ rest) = parse_loop consume_request p (r\<lparr>req_method := req_method r @ cs\<rparr>) rest"
  using assms(2)
proof (induction cs arbitrary: r)
  case (Cons c cs)
  then show ?case
    using assms(1) token_neq [of c] token_parts [of c] by (simp add: consume_request_def)
qed simp

lemma request_uri_run:
  assumes "pstate p = token_uri" and "\<And>c. c \<in> set cs \<Longrightarrow> is_char c \<and> \<not> is_ctl c \<and> c \<noteq> CHR '' ''"
  shows "parse_loop consume_request p r (cs @ rest) = parse_loop consume_request p (r\<lparr>uri := uri r @ cs\<rparr>) rest"
  using assms(2)
proof (induction cs arbitrary: r)
  case (Cons c cs)
  then show ?case using assms(1) by (simp add: consume_request_def)
qed simp

lemma request_scheme_run:
  assumes "pstate p = token_scheme_version" and "\<And>c. c \<in> set cs \<Longrightarrow> is_char c \<and> c \<noteq> CR"
  shows "parse_loop consume_request p r (cs @ rest) =
    parse_loop consume_request p (r\<lparr>scheme_version := scheme_version r @ cs\<rparr>) rest"
  using assms(2)
proof (induction cs arbitrary: r)
  case (Cons c cs)
  then show ?case using assms(1) by (simp add: consume_request_def)
qed simp

definition first_line_ok :: "request \<Rightarrow> bool" where
  "first_line_ok r \<longleftrightarrow> req_method r \<noteq> [] \<and> (\<forall>c \<in> set (req_method r). is_token c) \<and>
     (\<forall>c \<in> set (uri r). is_char c \<and> \<not> is_ctl c \<and> c \<noteq> CHR '' '') \<and>
     (\<forall>c \<in> set (scheme_version r). is_char c \<and> c \<noteq> CR)"

lemma request_line_run:
  assumes p: "pstate p = token_start" and ok: "first_line_ok r"
    and q: "req_method q = ''''" "uri q = ''''" "scheme_version q = ''''"
  shows "\<exists>p'. pstate p' = token_header_line_start \<and> pname p' = '''' \<and>
    parse_loop consume_request p q (request_line r @ rest) =
    parse_loop consume_request p' (q\<lparr>req_method := req_method r, uri := uri r, scheme_version := scheme_version r\<rparr>) rest"
proof -
  obtain c cs where m: "req_method r = c # cs" using ok by (cases "req_method r") (auto simp: first_line_ok_def)
  have t: "is_token c" "\<And>d. d \<in> set cs \<Longrightarrow> is_token d" using ok m by (auto simp: first_line_ok_def)
  let ?p1 = "p\<lparr>pstate := token_method\<rparr>" and ?p2 = "p\<lparr>pstate := token_uri\<rparr>"
    and ?p3 = "p\<lparr>pstate := token_scheme_version\<rparr>"
  let ?p4 = "p\<lparr>pname := '''', pstate := token_header_line_start\<rparr>"
  let ?tail = "scheme_version r @ RN_LINE_BREAK @ rest"
  have "parse_loop consume_request p q (request_line r @ rest) =
    parse_loop consume_request ?p1 (q\<lparr>req_method := [c]\<rparr>) (cs @ '' '' @ uri r @ '' '' @ ?tail)"
    using p q token_parts [OF t(1)] by (simp add: request_line_def m consume_request_def)
  also have "\<dots> = parse_loop consume_request ?p2 (q\<lparr>req_method := req_method r\<rparr>) (uri r @ '' '' @ ?tail)"
    using t(2) by (subst request_method_run) (auto simp: m consume_request_def)
  also have "\<dots> = parse_loop consume_request ?p3 (q\<lparr>req_method := req_method r, uri := uri r\<rparr>) ?tail"
    using ok q by (subst request_uri_run) (auto simp: first_line_ok_def consume_request_def)
  also have "\<dots> = parse_loop consume_request ?p4
      (q\<lparr>req_method := req_method r, uri := uri r, scheme_version := scheme_version r\<rparr>) rest"
    using ok q by (subst request_scheme_run) (auto simp: first_line_ok_def consume_request_def RN_LINE_BREAK_def)
  finally show ?thesis by (intro exI [of _ ?p4]) simp
qed

section \<open>All headers\<close>

text \<open>The header lines a message is serialized with.\<close>

definition header_lines :: "'a xtxp_message_scheme \<Rightarrow> (string \<times> string) list" where
  "header_lines m = headers m @ [(HEADER_CONTENT_LENGTH, decimal (content_length m))] @
     (if content_type m \<noteq> '''' then [(HEADER_CONTENT_TYPE, content_type m)] else [])"

lemma serialize_headers_lines:
  "serialize_headers m = concat (map header_line (header_lines m)) @ RN_LINE_BREAK"
  by (simp add: serialize_headers_def header_lines_def)

definition headers_ok :: "'a xtxp_message_scheme \<Rightarrow> bool" where
  "headers_ok m \<longleftrightarrow> (\<forall>kv \<in> set (headers m). line_ok kv \<and> fst kv \<noteq> HEADER_CONTENT_LENGTH \<and> fst kv \<noteq> HEADER_CONTENT_TYPE) \<and>
     (\<forall>c \<in> set (content_type m). \<not> is_ctl c) \<and> content_length m < 2 ^ 63"

lemma c_str_token: "(\<And>c. c \<in> set n \<Longrightarrow> is_token c) \<Longrightarrow> c_str n = n"
proof (rule c_str_id)
  have "\<not> is_token NUL" by (simp add: is_token_def is_ctl_def NUL_def)
  then show "\<And>c. (\<And>c. c \<in> set n \<Longrightarrow> is_token c) \<Longrightarrow> NUL \<notin> set n" by blast
qed

lemma header_names [simp]:
  "c_str HEADER_CONTENT_LENGTH = HEADER_CONTENT_LENGTH" "c_str HEADER_CONTENT_TYPE = HEADER_CONTENT_TYPE"
  "HEADER_CONTENT_LENGTH \<noteq> HEADER_CONTENT_TYPE" "HEADER_CONTENT_TYPE \<noteq> HEADER_CONTENT_LENGTH"
  by (simp_all add: HEADER_CONTENT_LENGTH_def HEADER_CONTENT_TYPE_def c_str_def NUL_def)

lemma header_name_tokens:
  "c \<in> set HEADER_CONTENT_LENGTH \<Longrightarrow> is_token c" "c \<in> set HEADER_CONTENT_TYPE \<Longrightarrow> is_token c"
  by (auto simp: HEADER_CONTENT_LENGTH_def HEADER_CONTENT_TYPE_def is_token_def is_char_def is_ctl_def is_tspecial_def)

lemma digit_no_ctl: "is_digit c \<Longrightarrow> \<not> is_ctl c"
  by (simp add: is_digit_def is_ctl_def)

lemma lines_ok:
  assumes "headers_ok m" and "kv \<in> set (header_lines m)"
  shows "line_ok kv"
proof -
  have "HEADER_CONTENT_LENGTH \<noteq> []" "HEADER_CONTENT_TYPE \<noteq> []"
    by (simp_all add: HEADER_CONTENT_LENGTH_def HEADER_CONTENT_TYPE_def)
  moreover have "\<not> is_ctl c" if "c \<in> set (decimal (content_length m))" for c
    using decimal_digits [OF that] by (rule digit_no_ctl)
  ultimately show ?thesis
    using assms header_name_tokens by (auto simp: headers_ok_def header_lines_def line_ok_def split: if_splits)
qed

lemma store_plain:
  "line_ok (n, v) \<Longrightarrow> n \<noteq> HEADER_CONTENT_LENGTH \<Longrightarrow> n \<noteq> HEADER_CONTENT_TYPE \<Longrightarrow>
   store_header n v m = m\<lparr>headers := map_set n v (headers m)\<rparr>"
  by (simp add: store_header_def line_ok_def c_str_token)

lemma fold_store_plain:
  "(\<And>kv. kv \<in> set kvs \<Longrightarrow> line_ok kv \<and> fst kv \<noteq> HEADER_CONTENT_LENGTH \<and> fst kv \<noteq> HEADER_CONTENT_TYPE) \<Longrightarrow>
   fold (\<lambda>(n, v). store_header n v) kvs m = m\<lparr>headers := std.build kvs (headers m)\<rparr>"
proof (induction kvs arbitrary: m)
  case (Cons kv kvs)
  obtain n v where kv: "kv = (n, v)" by (cases kv)
  have "store_header n v m = m\<lparr>headers := map_set n v (headers m)\<rparr>"
    using Cons.prems [of kv] kv by (intro store_plain) auto
  then show ?case using Cons kv by (simp add: std.build_Cons)
qed (simp add: std.build_Nil)

lemma build_append: "std.build (xs @ ys) m = std.build ys (std.build xs m)"
  by (simp add: std.build_def)

lemma fold_store_lines:
  assumes "headers_ok m"
  shows "fold (\<lambda>(n, v). store_header n v) (header_lines m) r =
    r\<lparr>headers := std.build (header_lines m) (headers r), content_length := content_length m,
      content_type := (if content_type m = '''' then content_type r else content_type m)\<rparr>"
proof -
  have n: "content_length m < 2 ^ 63" using assms by (simp add: headers_ok_def)
  have "fold (\<lambda>(n, v). store_header n v) (headers m) r = r\<lparr>headers := std.build (headers m) (headers r)\<rparr>"
    using assms by (intro fold_store_plain) (auto simp: headers_ok_def)
  then show ?thesis
    using n by (simp add: header_lines_def store_header_def Let_def strtol_decimal to_size_nat
        build_append std.build_Cons std.build_Nil)
qed

section \<open>The status line\<close>

lemma response_scheme_run:
  assumes "pstate p = token_scheme_version" and "\<And>c. c \<in> set cs \<Longrightarrow> is_char c \<and> c \<noteq> CHR '' ''"
  shows "parse_loop consume_response p r (cs @ rest) =
    parse_loop consume_response p (r\<lparr>scheme_version := scheme_version r @ cs\<rparr>) rest"
  using assms(2)
proof (induction cs arbitrary: r)
  case (Cons c cs)
  then show ?case using assms(1) by (simp add: consume_response_def)
qed simp

lemma response_code_run:
  assumes "pstate p = token_status_code" and "\<And>c. c \<in> set cs \<Longrightarrow> is_digit c"
  shows "parse_loop consume_response p r (cs @ rest) =
    parse_loop consume_response (p\<lparr>pcode := pcode p @ cs\<rparr>) r rest"
  using assms
proof (induction cs arbitrary: p)
  case (Cons c cs)
  have "is_digit c" using Cons.prems by simp
  moreover have "\<not> is_digit CHR '' ''" by (simp add: is_digit_def)
  ultimately have "consume_response p r c = (parse_more, p\<lparr>pcode := pcode p @ [c]\<rparr>, r)"
    using Cons.prems(1) digit_no_ctl [of c] by (auto simp: consume_response_def)
  then show ?case using Cons.IH [of "p\<lparr>pcode := pcode p @ [c]\<rparr>"] Cons.prems by simp
qed simp

lemma response_text_run:
  assumes "pstate p = token_status_text" and "\<And>c. c \<in> set cs \<Longrightarrow> is_char c \<and> c \<noteq> CR"
  shows "parse_loop consume_response p r (cs @ rest) =
    parse_loop consume_response p (r\<lparr>status_text := status_text r @ cs\<rparr>) rest"
  using assms(2)
proof (induction cs arbitrary: r)
  case (Cons c cs)
  then show ?case using assms(1) by (simp add: consume_response_def)
qed simp

definition status_line_ok :: "response \<Rightarrow> bool" where
  "status_line_ok r \<longleftrightarrow> scheme_version r \<noteq> [] \<and> is_token (hd (scheme_version r)) \<and>
     (\<forall>c \<in> set (scheme_version r). is_char c \<and> c \<noteq> CHR '' '') \<and>
     0 \<le> status_code r \<and> status_code r < 2 ^ 32 \<and>
     (\<forall>c \<in> set (status_text r). is_char c \<and> c \<noteq> CR)"

lemma status_line_run:
  assumes p: "pstate p = token_start" and ok: "status_line_ok r"
    and q: "scheme_version q = ''''" "status_text q = ''''"
  shows "\<exists>p'. pstate p' = token_header_line_start \<and> pname p' = '''' \<and>
    parse_loop consume_response p q (status_line r @ rest) =
    parse_loop consume_response p'
      (q\<lparr>scheme_version := scheme_version r, status_code := status_code r, status_text := status_text r\<rparr>) rest"
proof -
  obtain c cs where m: "scheme_version r = c # cs" using ok by (cases "scheme_version r") (auto simp: status_line_ok_def)
  have t: "is_token c" "\<And>d. d \<in> set cs \<Longrightarrow> is_char d \<and> d \<noteq> CHR '' ''" using ok m by (auto simp: status_line_ok_def)
  obtain n where n: "status_code r = int n" "n < 2 ^ 32"
    using ok nonneg_int_cases [of "status_code r"] by (auto simp: status_line_ok_def)
  let ?p1 = "p\<lparr>pstate := token_scheme_version\<rparr>" and ?p2 = "p\<lparr>pstate := token_status_code, pcode := ''''\<rparr>"
    and ?p3 = "p\<lparr>pcode := decimal n, pstate := token_status_text\<rparr>"
  let ?p4 = "p\<lparr>pcode := decimal n, pname := '''', pstate := token_header_line_start\<rparr>"
  let ?tail = "status_text r @ RN_LINE_BREAK @ rest"
  have "strtol (decimal n) = int n" using n(2) by (intro strtol_decimal) simp
  then have code: "to_status (strtol (decimal n)) = status_code r" using n by (simp add: to_status_def)
  have "parse_loop consume_response p q (status_line r @ rest) =
    parse_loop consume_response ?p1 (q\<lparr>scheme_version := [c]\<rparr>) (cs @ '' '' @ decimal n @ '' '' @ ?tail)"
    using p q n token_parts [OF t(1)] by (simp add: status_line_def m consume_response_def decimal_int_def)
  also have "\<dots> = parse_loop consume_response ?p2 (q\<lparr>scheme_version := scheme_version r\<rparr>) (decimal n @ '' '' @ ?tail)"
    using t(2) by (subst response_scheme_run) (auto simp: m consume_response_def)
  also have "\<dots> = parse_loop consume_response ?p3
      (q\<lparr>scheme_version := scheme_version r, status_code := status_code r\<rparr>) ?tail"
    using code decimal_digits by (subst response_code_run) (auto simp: consume_response_def)
  also have "\<dots> = parse_loop consume_response ?p4
      (q\<lparr>scheme_version := scheme_version r, status_code := status_code r, status_text := status_text r\<rparr>) rest"
    using ok q by (subst response_text_run) (auto simp: status_line_ok_def consume_response_def RN_LINE_BREAK_def)
  finally show ?thesis by (intro exI [of _ ?p4]) simp
qed

section \<open>The heads of messages\<close>

definition request_head :: "request \<Rightarrow> string" where
  "request_head r = request_line r @ serialize_headers r"

definition response_head :: "response \<Rightarrow> string" where
  "response_head r = status_line r @ serialize_headers r"

lemma request_serialize_head: "request_serialize r = request_head r @ string_of (content r)"
  by (simp add: request_serialize_def request_head_def message_serialize_def)

lemma response_serialize_head: "response_serialize r = response_head r @ string_of (content r)"
  by (simp add: response_serialize_def response_head_def message_serialize_def)

lemma parse_request_head:
  assumes p: "pstate p = token_start" and "first_line_ok r" and h: "headers_ok r"
  shows "\<exists>p'. parse_request p r0 (request_head r) = (True, p',
      r0\<lparr>req_method := req_method r, uri := uri r, scheme_version := scheme_version r,
         headers := std.build (header_lines r) [], content := [], content_length := content_length r,
         content_type := (if content_type r = '''' then content_type r0 else content_type r)\<rparr>) \<and>
    pstate p' = token_start"
proof -
  let ?q = "r0\<lparr>req_method := '''', uri := '''', scheme_version := '''', headers := [], content := [], content_length := 0\<rparr>"
  let ?q' = "?q\<lparr>req_method := req_method r, uri := uri r, scheme_version := scheme_version r\<rparr>"
  obtain p1 where p1: "pstate p1 = token_header_line_start" "pname p1 = ''''"
    "parse_loop consume_request p ?q (request_line r @ serialize_headers r) =
     parse_loop consume_request p1 ?q' (serialize_headers r)"
    using request_line_run [OF p assms(2), of ?q "serialize_headers r"] by auto
  obtain p2 where p2: "parse_loop consume_request p1 ?q' (serialize_headers r) =
      (True, p2, fold (\<lambda>(n, v). store_header n v) (header_lines r) ?q')" "pstate p2 = token_start"
    using req.header_part [OF p1(1,2) lines_ok [OF h], where m = ?q'] by (auto simp: serialize_headers_lines)
  have "fold (\<lambda>(n, v). store_header n v) (header_lines r) ?q' =
      r0\<lparr>req_method := req_method r, uri := uri r, scheme_version := scheme_version r,
         headers := std.build (header_lines r) [], content := [], content_length := content_length r,
         content_type := (if content_type r = '''' then content_type r0 else content_type r)\<rparr>"
    unfolding fold_store_lines [OF h] by (rule request.equality) simp_all
  then show ?thesis
    using p1 p2 by (simp only: parse_request_def request_head_def) simp
qed

lemma parse_response_head:
  assumes p: "pstate p = token_start" and "status_line_ok r" and h: "headers_ok r"
  shows "\<exists>p'. parse_response p r0 (response_head r) = (True, p',
      r0\<lparr>scheme_version := scheme_version r, status_code := status_code r, status_text := status_text r,
         headers := std.build (header_lines r) (headers r0), content_length := content_length r,
         content_type := content_type r\<rparr>) \<and>
    pstate p' = token_start"
proof -
  let ?q = "r0\<lparr>scheme_version := '''', status_code := ok, status_text := '''', content_length := 0, content_type := ''''\<rparr>"
  let ?q' = "?q\<lparr>scheme_version := scheme_version r, status_code := status_code r, status_text := status_text r\<rparr>"
  obtain p1 where p1: "pstate p1 = token_header_line_start" "pname p1 = ''''"
    "parse_loop consume_response p ?q (status_line r @ serialize_headers r) =
     parse_loop consume_response p1 ?q' (serialize_headers r)"
    using status_line_run [OF p assms(2), of ?q "serialize_headers r"] by auto
  obtain p2 where p2: "parse_loop consume_response p1 ?q' (serialize_headers r) =
      (True, p2, fold (\<lambda>(n, v). store_header n v) (header_lines r) ?q')" "pstate p2 = token_start"
    using res.header_part [OF p1(1,2) lines_ok [OF h], where m = ?q'] by (auto simp: serialize_headers_lines)
  have "fold (\<lambda>(n, v). store_header n v) (header_lines r) ?q' =
      r0\<lparr>scheme_version := scheme_version r, status_code := status_code r, status_text := status_text r,
         headers := std.build (header_lines r) (headers r0), content_length := content_length r,
         content_type := content_type r\<rparr>"
    unfolding fold_store_lines [OF h] by (rule response.equality) simp_all
  then show ?thesis
    using p1 p2 by (simp only: parse_response_def response_head_def) simp
qed

end
