(* ===== verification/Http_Properties.thy ===== *)
theory Http_Properties
  imports Http_Roundtrip
begin

text \<open>What the message parser guarantees to the connections that use it.\<close>

section \<open>Clean requests\<close>

definition parser_clean :: "http_message_parser \<Rightarrow> bool" where
  "parser_clean p \<longleftrightarrow> (\<forall>c \<in> set (pname p). is_token c) \<and> (\<forall>c \<in> set (pvalue p). \<not> is_ctl c)"

definition header_clean :: "string \<times> string \<Rightarrow> bool" where
  "header_clean kv \<longleftrightarrow> (\<forall>c \<in> set (fst kv). is_token c) \<and> (\<forall>c \<in> set (snd kv). \<not> is_ctl c)"

definition request_clean :: "request \<Rightarrow> bool" where
  "request_clean r \<longleftrightarrow> (\<forall>c \<in> set (req_method r). is_token c) \<and>
     (\<forall>c \<in> set (uri r). is_char c \<and> \<not> is_ctl c \<and> c \<noteq> CHR '' '') \<and>
     (\<forall>c \<in> set (scheme_version r). is_char c \<and> c \<noteq> CR) \<and>
     (\<forall>kv \<in> set (headers r). header_clean kv)"

lemma set_map_set_subset: "set (map_set k v m) \<subseteq> insert (k, v) (set m)"
  by (induction k v m rule: map_set.induct) auto

lemma store_header_clean:
  assumes "request_clean r" and "parser_clean p"
  shows "request_clean (store_header (pname p) (pvalue p) r)"
proof -
  have "header_clean kv" if "kv \<in> set (map_set (pname p) (pvalue p) (headers r))" for kv
    using that set_map_set_subset [of "pname p" "pvalue p" "headers r"] assms
    by (fastforce simp: request_clean_def parser_clean_def header_clean_def)
  with assms show ?thesis by (simp add: request_clean_def store_header_def Let_def)
qed

lemma consume_request_clean:
  assumes "parser_clean p \<and> request_clean r" and "consume_request p r c = (res, p', r')"
  shows "parser_clean p' \<and> request_clean r'"
proof (cases "pstate p = token_header_value \<and> c = CR")
  case True
  then show ?thesis
    using assms store_header_clean by (auto simp: consume_request_def parser_clean_def)
next
  case False
  have t: "is_token c \<longleftrightarrow> \<not> (\<not> is_char c \<or> is_ctl c \<or> is_tspecial c)" by (simp add: is_token_def)
  note step = assms(2) [unfolded consume_request_def t [symmetric]]
  show ?thesis
  proof (cases "pstate p")
    case token_header_value
    then show ?thesis
      using False step assms(1) by (auto simp: parser_clean_def request_clean_def split: if_splits)
  qed (use step assms(1) t in \<open>auto simp: parser_clean_def request_clean_def split: if_splits\<close>)
qed

lemma parse_request_clean:
  assumes "parser_clean p" and "parse_request p r0 data = (b, p', r)"
  shows "parser_clean p' \<and> request_clean r"
proof -
  let ?q = "r0\<lparr>req_method := '''', uri := '''', scheme_version := '''', headers := [], content := [], content_length := 0\<rparr>"
  have "parser_clean p \<and> request_clean ?q" using assms(1) by (simp add: request_clean_def)
  moreover have "parser_clean (reset p) \<and> request_clean r" if "parser_clean p \<and> request_clean r" for p r
    using that by (simp add: parser_clean_def reset_def)
  moreover have "parse_loop consume_request p ?q data = (b, p', r)"
    using assms(2) by (simp only: parse_request_def)
  ultimately show ?thesis
    using parse_loop_invariant [of "\<lambda>p r. parser_clean p \<and> request_clean r" consume_request p ?q data b p' r]
      consume_request_clean by blast
qed

section \<open>Properties\<close>

text \<open>C3: the parser reads a serialized request head back: the method, the URI, the scheme version
  and the announced length are those of the request, every header is found with its value, and the
  content is empty. The content type, alone of all parts, is the one of the previous request when
  the request announces none. The parser is ready for the next message.\<close>

theorem http_request_roundtrip:
  assumes "pstate p = token_start" and "first_line_ok r" and "headers_ok r"
  shows "\<exists>p' r'. parse_request p r0 (request_head r) = (True, p', r') \<and> pstate p' = token_start \<and>
    req_method r' = req_method r \<and> uri r' = uri r \<and> scheme_version r' = scheme_version r \<and>
    content_length r' = content_length r \<and> content r' = [] \<and>
    content_type r' = (if content_type r = '''' then content_type r0 else content_type r) \<and>
    (\<forall>k. map_find k (headers r') =
       (if k = HEADER_CONTENT_TYPE \<and> content_type r \<noteq> '''' then Some (content_type r)
        else if k = HEADER_CONTENT_LENGTH then Some (decimal (content_length r))
        else map_of (rev (headers r)) k))"
proof -
  obtain p' where p': "pstate p' = token_start" "parse_request p r0 (request_head r) = (True, p',
      r0\<lparr>req_method := req_method r, uri := uri r, scheme_version := scheme_version r,
         headers := std.build (header_lines r) [], content := [], content_length := content_length r,
         content_type := (if content_type r = '''' then content_type r0 else content_type r)\<rparr>)"
    using parse_request_head [OF assms] by blast
  have "map_find k (std.build (header_lines r) []) =
       (if k = HEADER_CONTENT_TYPE \<and> content_type r \<noteq> '''' then Some (content_type r)
        else if k = HEADER_CONTENT_LENGTH then Some (decimal (content_length r))
        else map_of (rev (headers r)) k)" for k
    by (auto simp: std.find_build header_lines_def map_add_def split: option.splits)
  with p' show ?thesis by auto
qed

definition sample_request :: request where
  "sample_request =
     with_content_string ''ab'' (with_header ''CSeq'' ''3'' (new_request ''RTSP/1.0'' ''POST'' ''/play''))"

lemma sample_request_ok: "first_line_ok sample_request" "headers_ok sample_request"
  by (auto simp: sample_request_def first_line_ok_def headers_ok_def builder_defs message_defs line_ok_def
      is_token_def is_char_def is_ctl_def is_tspecial_def CR_def HEADER_CONTENT_LENGTH_def HEADER_CONTENT_TYPE_def)

theorem http_request_roundtrip_witness:
  "\<exists>p' r'. parse_request new_parser (empty_request 0) (request_head sample_request) = (True, p', r') \<and>
    uri r' = ''/play'' \<and> content_length r' = 2"
  using http_request_roundtrip [of new_parser sample_request "empty_request 0"] sample_request_ok
  by (auto simp: new_parser_def sample_request_def builder_defs message_defs)

text \<open>C21: the same for responses, with the status code and text. Headers and content of the response
  parsed before stay: the headers are added to those already there.\<close>

theorem http_response_roundtrip:
  assumes "pstate p = token_start" and "status_line_ok r" and "headers_ok r"
  shows "\<exists>p' r'. parse_response p r0 (response_head r) = (True, p', r') \<and> pstate p' = token_start \<and>
    scheme_version r' = scheme_version r \<and> status_code r' = status_code r \<and> status_text r' = status_text r \<and>
    content_length r' = content_length r \<and> content_type r' = content_type r \<and> content r' = content r0 \<and>
    (\<forall>k. map_find k (headers r') =
       (if k = HEADER_CONTENT_TYPE \<and> content_type r \<noteq> '''' then Some (content_type r)
        else if k = HEADER_CONTENT_LENGTH then Some (decimal (content_length r))
        else (case map_of (rev (headers r)) k of None \<Rightarrow> map_find k (headers r0) | Some v \<Rightarrow> Some v)))"
proof -
  obtain p' where p': "pstate p' = token_start" "parse_response p r0 (response_head r) = (True, p',
      r0\<lparr>scheme_version := scheme_version r, status_code := status_code r, status_text := status_text r,
         headers := std.build (header_lines r) (headers r0), content_length := content_length r,
         content_type := content_type r\<rparr>)"
    using parse_response_head [OF assms] by blast
  have "map_find k (std.build (header_lines r) (headers r0)) =
       (if k = HEADER_CONTENT_TYPE \<and> content_type r \<noteq> '''' then Some (content_type r)
        else if k = HEADER_CONTENT_LENGTH then Some (decimal (content_length r))
        else (case map_of (rev (headers r)) k of None \<Rightarrow> map_find k (headers r0) | Some v \<Rightarrow> Some v))" for k
    by (auto simp: std.find_build header_lines_def map_add_def split: option.splits)
  with p' show ?thesis by auto
qed

theorem http_response_roundtrip_witness:
  "\<exists>p' r'. parse_response new_parser (empty_response 0) (response_head (with_status not_found (new_response ''HTTP/1.1'')))
      = (True, p', r') \<and> status_code r' = 404 \<and> status_text r' = ''Not Found''"
proof -
  let ?r = "with_status not_found (new_response ''HTTP/1.1'')"
  have "status_code ?r = 404" "status_text ?r = ''Not Found''"
    by (simp_all add: builder_defs g_status_code_string_map_def not_found_def ok_def bad_request_def
        switching_protocols_def)
  moreover have "scheme_version ?r = ''HTTP/1.1''" "headers_ok ?r"
    by (simp_all add: builder_defs message_defs headers_ok_def)
  moreover from calculation have "status_line_ok ?r"
    by (auto simp: status_line_ok_def is_token_def is_char_def is_ctl_def is_tspecial_def CR_def)
  ultimately show ?thesis
    using http_response_roundtrip [of new_parser ?r "empty_response 0"] by (auto simp: new_parser_def)
qed

text \<open>C14: whatever the peer sent before, a request head that ends in an empty line (as every head the
  connection hands over does) leaves the parser at its start, whether it was accepted or not: no
  state of one request leaks into the parsing of the next.\<close>

theorem http_request_framing:
  "snd (parse_request p r0 (data @ RNRN_LINE_BREAK)) = (p', r) \<longrightarrow> pstate p' = token_start"
proof
  assume "snd (parse_request p r0 (data @ RNRN_LINE_BREAK)) = (p', r)"
  then obtain b where "parse_request p r0 (data @ RNRN_LINE_BREAK) = (b, p', r)"
    by (cases "parse_request p r0 (data @ RNRN_LINE_BREAK)") auto
  then show "pstate p' = token_start"
    unfolding parse_request_def by (rule req.empty_line_ends)
qed

theorem http_request_framing_witness:
  "pstate (fst (snd (parse_request new_parser (empty_request 0) (''GET / HTTP/1.1'' @ RNRN_LINE_BREAK)))) = token_start"
  using http_request_framing [of new_parser "empty_request 0" "''GET / HTTP/1.1''"]
  by (metis prod.collapse)


text \<open>C23: whatever bytes the peer sends, accepted or not, what reaches a handler is clean: the method
  and the header names are tokens, the URI has no blank and no control character, and no header value
  has a control character, so neither can break a line of a message it is copied into. (The scheme
  version only excludes the carriage return.)\<close>

theorem http_request_clean:
  assumes "parser_clean p" and "parse_request p r0 data = (b, p', r)"
  shows "parser_clean p' \<and>
    (\<forall>c \<in> set (req_method r). is_token c) \<and>
    (\<forall>c \<in> set (uri r). is_char c \<and> \<not> is_ctl c \<and> c \<noteq> CHR '' '') \<and>
    (\<forall>c \<in> set (scheme_version r). is_char c \<and> c \<noteq> CR) \<and>
    (\<forall>(n, v) \<in> set (headers r). (\<forall>c \<in> set n. is_token c) \<and> (\<forall>c \<in> set v. \<not> is_ctl c))"
  using parse_request_clean [OF assms] by (simp add: request_clean_def header_clean_def case_prod_beta)

theorem http_request_clean_witness:
  "list_all (\<lambda>c. \<not> is_ctl c) (uri (snd (snd (parse_request new_parser (empty_request 0) ''GET /''))))"
proof -
  obtain b p' r where e: "parse_request new_parser (empty_request 0) ''GET /'' = (b, p', r)" by (metis prod_cases3)
  have "parser_clean new_parser" by (simp add: new_parser_def parser_clean_def)
  from http_request_clean [OF this e] show ?thesis by (simp add: e list_all_iff)
qed

end
