(* ===== verification/Route_Table.thy ===== *)
theory Route_Table
  imports Xtxp_Message
begin

text \<open>
  \<open>request_route_table\<close> of \<open>src/network/xtxp_connection_base.cpp\<close>: three nested maps from scheme,
  method and path to a handler, the registration of a route and the query for a request. Handlers are
  values of a type \<open>'h\<close>. The specification is flat: the routes registered so far, of which the last
  one wins. The mutex makes each operation atomic.
\<close>

record 'h request_route =
  route_scheme :: string
  route_method :: string
  route_path :: string
  route_handler :: 'h

type_synonym 'h path_map = "(string, 'h) std_map"
type_synonym 'h method_map = "(string, 'h path_map) std_map"
type_synonym 'h scheme_map = "(string, 'h method_map) std_map"

datatype error_code = BAD_VALUE | UNKNOWN_SCHEME | UNKNOWN_METHOD | UNKNOWN_PATH

definition register_request_route :: "'h request_route \<Rightarrow> 'h scheme_map \<Rightarrow> 'h scheme_map" where
  "register_request_route route table =
     (case map_find (route_scheme route) table of
        None \<Rightarrow>
          (let path_to_handler = map_set (route_path route) (route_handler route) [];
               method_to_path = map_set (route_method route) path_to_handler []
           in map_set (route_scheme route) method_to_path table)
      | Some method_path \<Rightarrow>
          (case map_find (route_method route) method_path of
             None \<Rightarrow>
               (let path_to_handler = map_set (route_path route) (route_handler route) []
                in map_set (route_scheme route) (map_set (route_method route) path_to_handler method_path) table)
           | Some path_handler \<Rightarrow>
               map_set (route_scheme route)
                 (map_set (route_method route)
                   (map_set (route_path route) (route_handler route) path_handler) method_path) table))"

text \<open>The part of a string before the first occurrence of a character: \<open>find\<close> and \<open>substr\<close>.\<close>

definition before :: "char \<Rightarrow> string \<Rightarrow> string option" where
  "before c s = (if c \<in> set s then Some (takeWhile (\<lambda>d. d \<noteq> c) s) else None)"

definition scheme_of :: "string \<Rightarrow> string" where
  "scheme_of scheme_ver = (case before (CHR ''/'') scheme_ver of None \<Rightarrow> '''' | Some s \<Rightarrow> s)"

definition path_of :: "string \<Rightarrow> string" where
  "path_of u = (case before (CHR ''?'') u of None \<Rightarrow> u | Some s \<Rightarrow> s)"

text \<open>The handler, and what the out-parameter \<open>ec\<close> holds afterwards: it is set only when none is found.\<close>

definition query_handler :: "'h scheme_map \<Rightarrow> request \<Rightarrow> error_code \<Rightarrow> 'h option \<times> error_code" where
  "query_handler table req ec =
     (case map_find (scheme_of (scheme_version req)) table of
        None \<Rightarrow> (None, UNKNOWN_SCHEME)
      | Some method_path \<Rightarrow>
          (case map_find (req_method req) method_path of
             None \<Rightarrow> (None, UNKNOWN_METHOD)
           | Some path_handler \<Rightarrow>
               (case map_find (path_of (uri req)) path_handler of
                  Some handler \<Rightarrow> (Some handler, ec)
                | None \<Rightarrow>
                    (case map_find ''*'' path_handler of
                       Some handler \<Rightarrow> (Some handler, ec)
                     | None \<Rightarrow> (None, UNKNOWN_PATH)))))"

definition register_all :: "'h request_route list \<Rightarrow> 'h scheme_map \<Rightarrow> 'h scheme_map" where
  "register_all routes table = fold register_request_route routes table"

section \<open>Flat specification\<close>

definition route_at :: "'h scheme_map \<Rightarrow> string \<Rightarrow> string \<Rightarrow> string \<Rightarrow> 'h option" where
  "route_at table s m p =
     (case map_find s table of
        None \<Rightarrow> None
      | Some mp \<Rightarrow> (case map_find m mp of None \<Rightarrow> None | Some ph \<Rightarrow> map_find p ph))"

definition has_scheme :: "'h scheme_map \<Rightarrow> string \<Rightarrow> bool" where
  "has_scheme table s \<longleftrightarrow> map_find s table \<noteq> None"

definition has_method :: "'h scheme_map \<Rightarrow> string \<Rightarrow> string \<Rightarrow> bool" where
  "has_method table s m \<longleftrightarrow> (\<exists>mp. map_find s table = Some mp \<and> map_find m mp \<noteq> None)"

lemma route_at_register:
  "route_at (register_request_route r table) s m p =
     (if s = route_scheme r \<and> m = route_method r \<and> p = route_path r then Some (route_handler r)
      else route_at table s m p)"
  by (simp add: route_at_def register_request_route_def std.find_set Let_def split: option.splits)

lemma has_scheme_register:
  "has_scheme (register_request_route r table) s \<longleftrightarrow> s = route_scheme r \<or> has_scheme table s"
  by (auto simp: has_scheme_def register_request_route_def std.find_set Let_def split: option.splits)

lemma has_method_register:
  "has_method (register_request_route r table) s m \<longleftrightarrow>
   s = route_scheme r \<and> m = route_method r \<or> has_method table s m"
  by (auto simp: has_method_def register_request_route_def std.find_set Let_def split: option.splits)

text \<open>The last route registered for a scheme, method and path.\<close>

definition last_route :: "'h request_route list \<Rightarrow> string \<Rightarrow> string \<Rightarrow> string \<Rightarrow> 'h option" where
  "last_route routes s m p =
     map_of (rev (map (\<lambda>r. ((route_scheme r, route_method r, route_path r), route_handler r)) routes)) (s, m, p)"

lemma route_at_register_all:
  "route_at (register_all routes table) s m p =
     (case last_route routes s m p of None \<Rightarrow> route_at table s m p | Some h \<Rightarrow> Some h)"
proof (induction routes arbitrary: table)
  case (Cons r routes)
  then show ?case
    by (auto simp: register_all_def last_route_def route_at_register map_add_def split: option.splits)
qed (simp add: register_all_def last_route_def)

lemma has_scheme_register_all:
  "has_scheme (register_all routes table) s \<longleftrightarrow> s \<in> route_scheme ` set routes \<or> has_scheme table s"
  by (induction routes arbitrary: table) (auto simp: register_all_def has_scheme_register)

lemma has_method_register_all:
  "has_method (register_all routes table) s m \<longleftrightarrow>
   (s, m) \<in> (\<lambda>r. (route_scheme r, route_method r)) ` set routes \<or> has_method table s m"
  by (induction routes arbitrary: table) (auto simp: register_all_def has_method_register)

lemma empty_table [simp]: "route_at [] s m p = None" "\<not> has_scheme [] s" "\<not> has_method [] s m"
  by (simp_all add: route_at_def has_scheme_def has_method_def)

text \<open>A query in terms of the flat table.\<close>

lemma query_handler_flat:
  "query_handler table req ec =
     (let s = scheme_of (scheme_version req); m = req_method req in
      case route_at table s m (path_of (uri req)) of
        Some h \<Rightarrow> (Some h, ec)
      | None \<Rightarrow>
          (case route_at table s m ''*'' of
             Some h \<Rightarrow> (Some h, ec)
           | None \<Rightarrow> (None, if \<not> has_scheme table s then UNKNOWN_SCHEME
                            else if \<not> has_method table s m then UNKNOWN_METHOD else UNKNOWN_PATH)))"
  by (auto simp: query_handler_def route_at_def has_scheme_def has_method_def Let_def split: option.splits)

end
