(* ===== verification/Xtxp_Connection.thy ===== *)
theory Xtxp_Connection
  imports C_Machine Http_Parser Route_Table
begin

text \<open>
  \<open>xtxp_connection_base\<close> of \<open>src/network/xtxp_connection_base.h\<close> and
  \<open>src/network/xtxp_connection_base.cpp\<close>: one HTTP or RTSP connection. The asynchronous
  operations of the socket library are actions the handlers of the connection ask for; a completion
  handler is a function of the state and of what the library reports. The bytes received so far
  and not consumed are \<open>in_stream\<close>. Handlers of requests come from the derived class: a handler
  acts on the state \<open>'s\<close> of that class, on the flag \<open>is_reversed\<close> (through \<open>reverse\<close>) and on the
  response, and may run into undefined behaviour. The virtual \<open>add_common_header\<close> is an argument.
\<close>

type_synonym 's request_handler = "request \<Rightarrow> response \<Rightarrow> 's \<times> bool \<Rightarrow> (response \<times> 's \<times> bool) c_run"

record 's connection =
  conn_request :: request
  conn_response :: response
  is_reversed :: bool
  in_stream :: string
  parser :: http_message_parser
  route_table :: "'s request_handler scheme_map"
  session :: 's

datatype action =
    Read_until_blank_line      \<comment> \<open>\<open>async_read_until(RNRN_LINE_BREAK)\<close>, then \<open>on_message_head_received\<close>\<close>
  | Read_content               \<comment> \<open>\<open>async_read\<close> under \<open>body_completion_condition\<close>, then \<open>on_message_content_received\<close>\<close>
  | Write string               \<comment> \<open>\<open>async_write\<close>, then \<open>on_response_sent\<close>\<close>
  | Send string                \<comment> \<open>a blocking send\<close>
  | Shutdown_and_close
  | Log_error

definition register_route :: "'s request_handler request_route \<Rightarrow> 's connection \<Rightarrow> 's connection" where
  "register_route route c = c\<lparr>route_table := register_request_route route (route_table c)\<rparr>"

definition post_receive_message_head :: "'s connection \<Rightarrow> 's connection \<times> action list" where
  "post_receive_message_head c = (c, [Read_until_blank_line])"

definition start :: "'s connection \<Rightarrow> 's connection \<times> action list" where
  "start c = post_receive_message_head c"

definition stop :: "'s connection \<Rightarrow> 's connection \<times> action list" where
  "stop c = (c, [Shutdown_and_close])"

definition send_request :: "request \<Rightarrow> 's connection \<Rightarrow> 's connection \<times> action list" where
  "send_request req c = (c, [Send (request_serialize req)])"

definition handle_socket_error :: "socket_error \<Rightarrow> 's connection \<Rightarrow> 's connection \<times> action list" where
  "handle_socket_error e c = (case e of Eof \<Rightarrow> (c, []) | Other_error _ \<Rightarrow> (c, [Log_error]))"

definition method_not_found_handler :: "response \<Rightarrow> response" where
  "method_not_found_handler res = with_status ok res"

definition path_not_found_handler :: "response \<Rightarrow> response" where
  "path_not_found_handler res = with_status ok res"

definition post_send_response :: "response \<Rightarrow> 's connection \<Rightarrow> 's connection \<times> action list" where
  "post_send_response res c = (c, [Write (response_serialize res)])"

definition on_response_sent :: "socket_error option \<Rightarrow> 's connection \<Rightarrow> 's connection \<times> action list" where
  "on_response_sent e c = (case e of Some e \<Rightarrow> handle_socket_error e c | None \<Rightarrow> (c, []))"

text \<open>
  The request is handled on the state as it is. Without a handler the answer depends on the error
  code of the query; a request of an unknown scheme gets none.
\<close>

definition process_request ::
  "(request \<Rightarrow> response \<Rightarrow> response) \<Rightarrow> 's connection \<Rightarrow> ('s connection \<times> action list) c_run" where
  "process_request add_common_header c =
     (let req = conn_request c; res = new_response (scheme_version req)
      in case query_handler (route_table c) req BAD_VALUE of
           (None, ec) \<Rightarrow>
             if ec = UNKNOWN_PATH then
               Returns (post_send_response (add_common_header req (path_not_found_handler res)) c)
             else if ec = UNKNOWN_METHOD then
               Returns (post_send_response (add_common_header req (method_not_found_handler res)) c)
             else Returns (c, [Log_error])
         | (Some handler, ec) \<Rightarrow>
             c_bind (handler req res (session c, is_reversed c)) (\<lambda>(res, s, rev).
               Returns (post_send_response (add_common_header req res) (c\<lparr>session := s, is_reversed := rev\<rparr>))))"

definition process_response :: "'s connection \<Rightarrow> ('s connection \<times> action list) c_run" where
  "process_response c = Returns (c, [])"

definition process_message ::
  "(request \<Rightarrow> response \<Rightarrow> response) \<Rightarrow> 's connection \<Rightarrow> ('s connection \<times> action list) c_run" where
  "process_message add_common_header c =
     c_bind (if is_reversed c then process_response c else process_request add_common_header c)
       (\<lambda>(c, as). let (c, bs) = post_receive_message_head c in Returns (c, as @ bs))"

text \<open>The content of the message that is being read.\<close>

definition set_content :: "u8 list \<Rightarrow> 's connection \<Rightarrow> 's connection" where
  "set_content bs c =
     (if is_reversed c then c\<lparr>conn_response := (conn_response c)\<lparr>content := bs\<rparr>\<rparr>
      else c\<lparr>conn_request := (conn_request c)\<lparr>content := bs\<rparr>\<rparr>)"

definition message_length :: "'s connection \<Rightarrow> nat" where
  "message_length c =
     (if is_reversed c then content_length (conn_response c) else content_length (conn_request c))"

definition post_receive_message_content :: "'s connection \<Rightarrow> 's connection \<times> action list" where
  "post_receive_message_content c = (set_content [] c, [Read_content])"

text \<open>A difference of two \<open>size_t\<close>.\<close>

definition size_minus :: "nat \<Rightarrow> nat \<Rightarrow> nat" where
  "size_minus a b = nat ((int a - int b) mod 2 ^ 64)"

definition body_completion_condition :: "'s connection \<Rightarrow> nat" where
  "body_completion_condition c = size_minus (content_length (conn_request c)) (length (in_stream c))"

definition parse_head :: "string \<Rightarrow> 's connection \<Rightarrow> bool \<times> 's connection" where
  "parse_head head_data c =
     (if is_reversed c then
        (case parse_response (parser c) (conn_response c) head_data of
           (b, p, res) \<Rightarrow> (b, c\<lparr>parser := p, conn_response := res\<rparr>))
      else
        (case parse_request (parser c) (conn_request c) head_data of
           (b, p, req) \<Rightarrow> (b, c\<lparr>parser := p, conn_request := req\<rparr>)))"

definition on_message_head_received ::
  "(request \<Rightarrow> response \<Rightarrow> response) \<Rightarrow> socket_error option \<Rightarrow> nat \<Rightarrow> 's connection \<Rightarrow>
   ('s connection \<times> action list) c_run" where
  "on_message_head_received add_common_header e bytes_transferred c =
     (case e of
        Some e \<Rightarrow> Returns (handle_socket_error e c)
      | None \<Rightarrow>
          c_bind (c_load (in_stream c) 0 bytes_transferred) (\<lambda>head_data.
            let (b, c) = parse_head head_data (c\<lparr>in_stream := drop bytes_transferred (in_stream c)\<rparr>)
            in if \<not> b then Returns (case stop c of (c, as) \<Rightarrow> (c, Log_error # as))
               else if message_length c = 0 then process_message add_common_header c
               else if size_minus (message_length c) (length (in_stream c)) \<noteq> 0 then
                 Returns (post_receive_message_content c)
               else
                 let c = (if in_stream c \<noteq> [] then set_content (bytes_of (in_stream c)) c else c)
                 in process_message add_common_header (c\<lparr>in_stream := []\<rparr>)))"

definition on_message_content_received ::
  "(request \<Rightarrow> response \<Rightarrow> response) \<Rightarrow> socket_error option \<Rightarrow> 's connection \<Rightarrow>
   ('s connection \<times> action list) c_run" where
  "on_message_content_received add_common_header e c =
     (case e of
        Some e \<Rightarrow> Returns (handle_socket_error e c)
      | None \<Rightarrow>
          process_message add_common_header ((set_content (bytes_of (in_stream c)) c)\<lparr>in_stream := []\<rparr>))"

text \<open>Bytes the library appends to the stream buffer.\<close>

definition received :: "string \<Rightarrow> 's connection \<Rightarrow> 's connection" where
  "received bs c = c\<lparr>in_stream := in_stream c @ bs\<rparr>"

end
