(* ===== verification/Connection_Properties.thy ===== *)
theory Connection_Properties
  imports Xtxp_Connection Http_Roundtrip
begin

text \<open>
  What a connection does with the byte stream it receives: which handler a request reaches, that a
  request reaches it complete however its bytes are cut, that every request is answered, and the
  streams on which this goes wrong.
\<close>

section \<open>Heads\<close>

text \<open>The request the parser makes of a serialized one, given the request parsed before.\<close>

definition parsed_request :: "request \<Rightarrow> request \<Rightarrow> request" where
  "parsed_request r r0 =
     r0\<lparr>req_method := req_method r, uri := uri r, scheme_version := scheme_version r,
        headers := std.build (header_lines r) [], content := [], content_length := content_length r,
        content_type := (if content_type r = '''' then content_type r0 else content_type r)\<rparr>"

definition ready :: "'s connection \<Rightarrow> bool" where
  "ready c \<longleftrightarrow> \<not> is_reversed c \<and> pstate (parser c) = token_start"

definition sendable :: "request \<Rightarrow> bool" where
  "sendable r \<longleftrightarrow> first_line_ok r \<and> headers_ok r"

lemma head_received:
  assumes c: "ready c" and r: "sendable r"
  shows "\<exists>p'. pstate p' = token_start \<and> (\<forall>body.
    on_message_head_received f None (length (request_head r)) (c\<lparr>in_stream := request_head r @ body\<rparr>) =
    (let c1 = c\<lparr>in_stream := body, parser := p', conn_request := parsed_request r (conn_request c)\<rparr>
     in if content_length r = 0 then process_message f c1
        else if size_minus (content_length r) (length body) \<noteq> 0 then Returns (post_receive_message_content c1)
        else process_message f ((if body \<noteq> [] then set_content (bytes_of body) c1 else c1)\<lparr>in_stream := []\<rparr>)))"
proof -
  obtain p' where p': "parse_request (parser c) (conn_request c) (request_head r) =
      (True, p', parsed_request r (conn_request c))" "pstate p' = token_start"
    using parse_request_head [of "parser c" r "conn_request c"] c r
    by (auto simp: ready_def sendable_def parsed_request_def)
  have "content_length (parsed_request r (conn_request c)) = content_length r"
    by (simp add: parsed_request_def)
  then show ?thesis
    using p' c by (intro exI [of _ p'])
      (simp add: on_message_head_received_def c_load_def slice_def parse_head_def ready_def message_length_def
        Let_def set_content_def)
qed

lemma size_minus_sub:
  assumes "b \<le> a" and "a < 2 ^ 64"
  shows "size_minus a b = a - b"
proof -
  have "(int a - int b) mod 2 ^ 64 = int (a - b)" using assms by simp
  then show ?thesis by (simp only: size_minus_def nat_int)
qed

lemma size_minus_nonzero:
  assumes "a < 2 ^ 64" and "b < 2 ^ 64" and "a \<noteq> b"
  shows "size_minus a b \<noteq> 0"
proof
  let ?m = "2 ^ 64 :: int"
  assume "size_minus a b = 0"
  then have "(int a - int b) mod ?m \<le> 0" unfolding size_minus_def by (rule iffD1 [OF nat_0_iff])
  moreover have "0 \<le> (int a - int b) mod ?m" by (rule pos_mod_sign) simp
  ultimately have "(int a - int b) mod ?m = 0" by (rule order.antisym)
  then have "int a mod ?m = int b mod ?m" by (rule iffD2 [OF mod_eq_dvd_iff, OF mod_0_imp_dvd])
  moreover have "int a mod ?m = int a" "int b mod ?m = int b" using assms(1,2) by simp_all
  ultimately show False using assms(3) by simp
qed

text \<open>The state in which a message that has arrived is processed.\<close>

definition at_message :: "http_message_parser \<Rightarrow> request \<Rightarrow> 's connection \<Rightarrow> 's connection" where
  "at_message p q c = c\<lparr>in_stream := [], parser := p, conn_request := q\<rparr>"

lemma at_message_eq:
  assumes "\<not> is_reversed c"
  shows "(set_content bs (c\<lparr>in_stream := s, parser := p, conn_request := q\<rparr>))\<lparr>in_stream := []\<rparr> =
    at_message p (q\<lparr>content := bs\<rparr>) c"
    "set_content bs (c\<lparr>in_stream := [], parser := p, conn_request := q\<rparr>) = at_message p (q\<lparr>content := bs\<rparr>) c"
  by (rule connection.equality; simp add: set_content_def at_message_def assms)+

section \<open>Properties\<close>

text \<open>C9: for a table built by registering routes one after the other, a query returns the handler of the
  last route registered for the scheme (the part of the version before the slash), the method and the
  path (the part of the URI before the question mark); failing that, the one registered for the path
  \<open>*\<close>; and failing that, the error code that names the first of the three that is unknown.\<close>

theorem route_query:
  "query_handler (register_all routes []) req ec =
     (let s = scheme_of (scheme_version req); m = req_method req in
      case last_route routes s m (path_of (uri req)) of
        Some h \<Rightarrow> (Some h, ec)
      | None \<Rightarrow>
          (case last_route routes s m ''*'' of
             Some h \<Rightarrow> (Some h, ec)
           | None \<Rightarrow> (None,
               if s \<notin> route_scheme ` set routes then UNKNOWN_SCHEME
               else if (s, m) \<notin> (\<lambda>r. (route_scheme r, route_method r)) ` set routes then UNKNOWN_METHOD
               else UNKNOWN_PATH)))"
  by (simp add: query_handler_flat route_at_register_all has_scheme_register_all has_method_register_all
      Let_def split: option.splits)

text \<open>C13: a request with a content arrives at the processing complete, wherever the content is cut when
  the head is complete: with all of it there at once, or after exactly the missing bytes have been read,
  the same state is processed, with the parsed request, its whole content and an empty stream.\<close>

theorem connection_delivers:
  assumes "ready c" and "sendable r" and "content r \<noteq> []" and "content_length r = length (content r)"
    and "string_of (content r) = b1 @ b2"
  shows "\<exists>p' c1. pstate p' = token_start \<and>
    (let goal = process_message f (at_message p' ((parsed_request r (conn_request c))\<lparr>content := content r\<rparr>) c);
         head = on_message_head_received f None (length (request_head r)) (c\<lparr>in_stream := request_head r @ b1\<rparr>)
     in if b2 = [] then head = goal
        else head = Returns (c1, [Read_content]) \<and> body_completion_condition c1 = length b2 \<and>
          on_message_content_received f None (received b2 c1) = goal)"
proof -
  obtain p' where p': "pstate p' = token_start" "\<And>body.
    on_message_head_received f None (length (request_head r)) (c\<lparr>in_stream := request_head r @ body\<rparr>) =
    (let c1 = c\<lparr>in_stream := body, parser := p', conn_request := parsed_request r (conn_request c)\<rparr>
     in if content_length r = 0 then process_message f c1
        else if size_minus (content_length r) (length body) \<noteq> 0 then Returns (post_receive_message_content c1)
        else process_message f ((if body \<noteq> [] then set_content (bytes_of body) c1 else c1)\<lparr>in_stream := []\<rparr>))"
    using head_received [OF assms(1,2), of f] by blast
  have len: "content_length r = length b1 + length b2" "content_length r < 2 ^ 63"
    using assms(2,4,5) by (metis length_string_of length_append, simp add: sendable_def headers_ok_def)
  have bytes: "content r = bytes_of (b1 @ b2)" using assms(5) by (metis bytes_of_string_of)
  have rev: "\<not> is_reversed c" using assms(1) by (simp add: ready_def)
  have minus: "size_minus (content_length r) (length b1) = length b2"
    using len by (simp add: size_minus_sub)
  let ?q = "parsed_request r (conn_request c)"
  have ne: "content_length r \<noteq> 0" using assms(3,4) by simp
  show ?thesis
  proof (cases "b2 = []")
    case True
    then have b1: "b1 \<noteq> []" "content r = bytes_of b1" using assms(3) bytes by (auto simp: bytes_of_def)
    have "on_message_head_received f None (length (request_head r)) (c\<lparr>in_stream := request_head r @ b1\<rparr>) =
        process_message f (at_message p' (?q\<lparr>content := content r\<rparr>) c)"
      using minus True ne b1 rev by (simp add: p'(2) Let_def at_message_eq)
    then show ?thesis using True p'(1) by (intro exI [of _ p'] exI [of _ c]) (simp add: Let_def)
  next
    case False
    let ?c0 = "c\<lparr>in_stream := b1, parser := p', conn_request := ?q\<rparr>"
    let ?c1 = "fst (post_receive_message_content ?c0)"
    have head: "on_message_head_received f None (length (request_head r)) (c\<lparr>in_stream := request_head r @ b1\<rparr>) =
        Returns (?c1, [Read_content])"
      using minus False ne by (simp add: p'(2) Let_def post_receive_message_content_def)
    have cl: "content_length ?q = content_length r" by (simp add: parsed_request_def)
    have body: "body_completion_condition ?c1 = length b2"
      using minus rev cl by (simp add: post_receive_message_content_def set_content_def body_completion_condition_def)
    have "(set_content (bytes_of (in_stream (received b2 ?c1))) (received b2 ?c1))\<lparr>in_stream := []\<rparr> =
        at_message p' (?q\<lparr>content := content r\<rparr>) c"
      by (rule connection.equality; simp add: set_content_def post_receive_message_content_def received_def
          at_message_def rev bytes)
    then have "on_message_content_received f None (received b2 ?c1) =
        process_message f (at_message p' (?q\<lparr>content := content r\<rparr>) c)"
      by (simp add: on_message_content_received_def)
    with head body show ?thesis
      using False p'(1) by (intro exI [of _ p'] exI [of _ ?c1]) (simp add: Let_def)
  qed
qed

text \<open>A request with a header and a content of two bytes, on a new connection without routes.\<close>

definition sample_post :: request where
  "sample_post = with_content_string ''ab'' (new_request ''RTSP/1.0'' ''POST'' ''/play'')"

lemma sample_post_ok: "sendable sample_post" "content sample_post = bytes_of ''ab''" "content_length sample_post = 2"
  by (auto simp: sample_post_def sendable_def first_line_ok_def headers_ok_def builder_defs message_defs
      is_token_def is_char_def is_ctl_def is_tspecial_def CR_def)

definition new_connection :: "unit connection" where
  "new_connection = \<lparr>conn_request = empty_request 0, conn_response = empty_response 0, is_reversed = False,
     in_stream = '''', parser = new_parser, route_table = [], session = ()\<rparr>"

lemma new_connection_ready: "ready new_connection"
  by (simp add: ready_def new_connection_def new_parser_def)

theorem connection_delivers_witness:
  "\<exists>c1. on_message_head_received (\<lambda>_ res. res) None (length (request_head sample_post))
      (new_connection\<lparr>in_stream := request_head sample_post @ ''a''\<rparr>) = Returns (c1, [Read_content]) \<and>
    body_completion_condition c1 = 1"
proof -
  have "string_of (content sample_post) = ''a'' @ ''b''"
    by (simp add: sample_post_ok)
  then show ?thesis
    using connection_delivers [of new_connection sample_post "''a''" "''b''" "\<lambda>_ res. res"]
      new_connection_ready sample_post_ok by (auto simp: Let_def bytes_of_def)
qed

text \<open>C24: when more than the content of a request has arrived with its head, as when the peer sends its
  next request without waiting, the request is never processed: the connection goes on to read content,
  and whatever arrives, the number of bytes it still wants is not zero, since the difference of the two
  sizes has wrapped around.\<close>

theorem connection_pipelining_hangs:
  assumes "ready c" and "sendable r" and "content_length r \<noteq> 0"
    and "content_length r < length body" and "length body < 2 ^ 64"
  shows "\<exists>c1. on_message_head_received f None (length (request_head r)) (c\<lparr>in_stream := request_head r @ body\<rparr>) =
      Returns (c1, [Read_content]) \<and>
    (\<forall>more. length (body @ more) < 2 ^ 64 \<longrightarrow> body_completion_condition (received more c1) \<noteq> 0)"
proof -
  obtain p' where p': "on_message_head_received f None (length (request_head r)) (c\<lparr>in_stream := request_head r @ body\<rparr>) =
    (let c1 = c\<lparr>in_stream := body, parser := p', conn_request := parsed_request r (conn_request c)\<rparr>
     in if content_length r = 0 then process_message f c1
        else if size_minus (content_length r) (length body) \<noteq> 0 then Returns (post_receive_message_content c1)
        else process_message f ((if body \<noteq> [] then set_content (bytes_of body) c1 else c1)\<lparr>in_stream := []\<rparr>))"
    using head_received [OF assms(1,2), of f] by blast
  let ?c1 = "fst (post_receive_message_content
    (c\<lparr>in_stream := body, parser := p', conn_request := parsed_request r (conn_request c)\<rparr>))"
  have "size_minus (content_length r) (length body) \<noteq> 0"
    using assms(4,5) by (intro size_minus_nonzero) auto
  then have "on_message_head_received f None (length (request_head r)) (c\<lparr>in_stream := request_head r @ body\<rparr>) =
      Returns (?c1, [Read_content])"
    using p' assms(3) by (simp add: Let_def post_receive_message_content_def)
  moreover have "body_completion_condition (received more ?c1) \<noteq> 0" if "length (body @ more) < 2 ^ 64" for more
  proof -
    have "body_completion_condition (received more ?c1) = size_minus (content_length r) (length (body @ more))"
      using assms(1) by (simp add: body_completion_condition_def received_def post_receive_message_content_def
          set_content_def ready_def parsed_request_def)
    moreover have "size_minus (content_length r) (length (body @ more)) \<noteq> 0"
      using that assms(4) by (intro size_minus_nonzero) auto
    ultimately show ?thesis by simp
  qed
  ultimately show ?thesis by blast
qed

theorem connection_pipelining_hangs_witness:
  "\<exists>c1. on_message_head_received (\<lambda>_ res. res) None (length (request_head sample_post))
      (new_connection\<lparr>in_stream := request_head sample_post @ ''abG''\<rparr>) = Returns (c1, [Read_content]) \<and>
    body_completion_condition (received ''ET'' c1) \<noteq> 0"
  using connection_pipelining_hangs [of new_connection sample_post "''abG''" "\<lambda>_ res. res"]
    new_connection_ready sample_post_ok by auto

text \<open>C25: processing a message of a connection that is not reversed posts the read of the next head, and
  before it exactly one response, the handler's or the one for an unknown method or path. The only
  request that is left without an answer is one of a scheme nobody registered.\<close>

theorem connection_answers:
  assumes "\<not> is_reversed c" and "process_message f c = Returns (c', as)"
  shows "if has_scheme (route_table c) (scheme_of (scheme_version (conn_request c)))
    then \<exists>res. as = [Write (response_serialize res), Read_until_blank_line]
    else c' = c \<and> as = [Log_error, Read_until_blank_line]"
proof -
  obtain h ec where q: "query_handler (route_table c) (conn_request c) BAD_VALUE = (h, ec)" by (metis surj_pair)
  show ?thesis
  proof (cases h)
    case None
    then have "ec \<noteq> BAD_VALUE" and "ec = UNKNOWN_SCHEME \<longleftrightarrow>
        \<not> has_scheme (route_table c) (scheme_of (scheme_version (conn_request c)))"
      using q by (auto simp: query_handler_flat Let_def split: option.splits if_splits)
    then show ?thesis
      using assms q None by (cases ec)
        (auto simp: process_message_def process_request_def post_receive_message_head_def post_send_response_def Let_def)
  next
    case (Some handler)
    then have "has_scheme (route_table c) (scheme_of (scheme_version (conn_request c)))"
      using q by (auto simp: query_handler_def has_scheme_def split: option.splits)
    then show ?thesis
      using assms q Some
      by (auto simp: process_message_def process_request_def post_receive_message_head_def post_send_response_def Let_def)
  qed
qed

theorem connection_answers_witness:
  "\<exists>c' as. process_message (\<lambda>_ res. res) new_connection = Returns (c', as) \<and> as = [Log_error, Read_until_blank_line]"
proof -
  have s: "\<not> has_scheme (route_table new_connection) s" for s by (simp add: new_connection_def)
  obtain c' as where e: "process_message (\<lambda>_ res. res) new_connection = Returns (c', as)"
    by (simp add: process_message_def process_request_def new_connection_def query_handler_def
        post_receive_message_head_def Let_def)
  then show ?thesis
    using connection_answers [OF _ e] s by (simp add: new_connection_def)
qed



end
