(* ===== verification/Aes_Modes.thy ===== *)
theory Aes_Modes
  imports C_Machine
begin

text \<open>
  The two block-cipher modes the streams are protected with, in counter mode
  (\<open>third-party/opensslaes/aes_ctr.c\<close>) and chained mode (\<open>aes_cbc.c\<close>, the in-place calls the
  code makes), and the classes \<open>ap_aes_ctr128\<close> and \<open>ap_aes_cbc128\<close> of \<open>src/crypto/ap_aes.cpp\<close>
  around them. The block functions \<open>AES_encrypt\<close> and \<open>AES_decrypt\<close> of the table-driven cipher
  core are the parameters \<open>E\<close> and \<open>D\<close>, functions of an expanded key and a block.
\<close>

datatype aes_key = Zeroed_key | Encrypt_key "u8 list" | Decrypt_key "u8 list"

definition xor_bytes :: "u8 list \<Rightarrow> u8 list \<Rightarrow> u8 list" where
  "xor_bytes xs ys = map2 (XOR) xs ys"

section \<open>Counter mode\<close>

text \<open>
  The counter is four big-endian 32-bit digits; the carry goes from the last to the first.
\<close>

definition inc_digit :: "nat \<Rightarrow> u8 list \<Rightarrow> nat \<times> u8 list" where
  "inc_digit i counter =
     (let c = (be_value (slice i 4 counter) + 1) mod 2 ^ 32 in (c, put counter i (be_bytes 4 c)))"

definition AES_ctr128_inc :: "u8 list \<Rightarrow> u8 list" where
  "AES_ctr128_inc counter =
     (let (c, counter) = inc_digit 12 counter in if c \<noteq> 0 then counter else
      let (c, counter) = inc_digit 8 counter in if c \<noteq> 0 then counter else
      let (c, counter) = inc_digit 4 counter in if c \<noteq> 0 then counter else
      let (c, counter) = inc_digit 0 counter in counter)"

record ctr_state =
  ctr_iv :: "u8 list"
  ctr_ec :: "u8 list"
  ctr_num :: nat

fun AES_ctr128_encrypt :: "(aes_key \<Rightarrow> u8 list \<Rightarrow> u8 list) \<Rightarrow> aes_key \<Rightarrow> u8 list \<Rightarrow> ctr_state
    \<Rightarrow> u8 list \<times> ctr_state" where
  "AES_ctr128_encrypt E k [] s = ([], s)"
| "AES_ctr128_encrypt E k (b # bs) s =
     (let s = (if ctr_num s = 0
               then s\<lparr>ctr_ec := E k (ctr_iv s), ctr_iv := AES_ctr128_inc (ctr_iv s)\<rparr> else s);
          (bs', s') = AES_ctr128_encrypt E k bs (s\<lparr>ctr_num := (ctr_num s + 1) mod 16\<rparr>)
      in ((b XOR ctr_ec s ! ctr_num s) # bs', s'))"

section \<open>Chained mode, in place\<close>

function cbc_encrypt_inplace :: "(aes_key \<Rightarrow> u8 list \<Rightarrow> u8 list) \<Rightarrow> aes_key \<Rightarrow> u8 list \<Rightarrow> nat \<Rightarrow> nat
    \<Rightarrow> u8 list \<Rightarrow> (u8 list \<times> u8 list) c_run" where
  "cbc_encrypt_inplace E k buf pos len iv =
     (if 16 \<le> len then
        c_bind (c_load buf pos 16) (\<lambda>blk.
          let c = E k (xor_bytes blk iv) in
          c_bind (c_store buf pos c) (\<lambda>buf. cbc_encrypt_inplace E k buf (pos + 16) (len - 16) c))
      else if 0 < len then
        c_bind (c_load buf pos len) (\<lambda>blk.
          let c = E k (xor_bytes blk iv @ drop len iv) in
          c_bind (c_store buf pos c) (\<lambda>buf. Returns (buf, c)))
      else Returns (buf, iv))"
  by pat_completeness auto
termination by (relation "measure (\<lambda>(E, k, buf, pos, len, iv). len)") auto

function cbc_decrypt_inplace :: "(aes_key \<Rightarrow> u8 list \<Rightarrow> u8 list) \<Rightarrow> aes_key \<Rightarrow> u8 list \<Rightarrow> nat \<Rightarrow> nat
    \<Rightarrow> u8 list \<Rightarrow> (u8 list \<times> u8 list) c_run" where
  "cbc_decrypt_inplace D k buf pos len iv =
     (if 16 \<le> len then
        c_bind (c_load buf pos 16) (\<lambda>blk.
          c_bind (c_store buf pos (xor_bytes (D k blk) iv)) (\<lambda>buf.
            cbc_decrypt_inplace D k buf (pos + 16) (len - 16) blk))
      else if 0 < len then
        c_bind (c_load buf pos 16) (\<lambda>blk.
          c_bind (c_store buf pos (take len (xor_bytes (D k blk) iv) @ drop len blk)) (\<lambda>buf.
            Returns (buf, blk)))
      else Returns (buf, iv))"
  by pat_completeness auto
termination by (relation "measure (\<lambda>(D, k, buf, pos, len, iv). len)") auto

declare cbc_encrypt_inplace.simps [simp del] cbc_decrypt_inplace.simps [simp del]

section \<open>The two classes\<close>

record ap_aes_ctr128 =
  ctr_ctx :: aes_key
  ctr_pos :: ctr_state

definition ctr_reset :: ap_aes_ctr128 where
  "ctr_reset = \<lparr>ctr_ctx = Zeroed_key,
     ctr_pos = \<lparr>ctr_iv = replicate 16 0, ctr_ec = replicate 16 0, ctr_num = 0\<rparr>\<rparr>"

definition ctr_set_key_iv :: "u8 list \<Rightarrow> u8 list \<Rightarrow> ap_aes_ctr128 \<Rightarrow> ap_aes_ctr128 c_run" where
  "ctr_set_key_iv key iv a =
     c_bind (c_load key 0 16) (\<lambda>key. c_bind (c_load iv 0 16) (\<lambda>iv.
       Returns \<lparr>ctr_ctx = Encrypt_key key, ctr_pos = (ctr_pos ctr_reset)\<lparr>ctr_iv := iv\<rparr>\<rparr>))"

definition ctr_xcrypt_buffer :: "(aes_key \<Rightarrow> u8 list \<Rightarrow> u8 list) \<Rightarrow> u8 list \<Rightarrow> ap_aes_ctr128
    \<Rightarrow> u8 list \<times> ap_aes_ctr128" where
  "ctr_xcrypt_buffer E buffer a =
     (let (out, s) = AES_ctr128_encrypt E (ctr_ctx a) buffer (ctr_pos a)
      in (out, a\<lparr>ctr_pos := s\<rparr>))"

record ap_aes_cbc128 =
  en_ctx :: aes_key
  en_iv :: "u8 list"
  de_ctx :: aes_key
  de_iv :: "u8 list"

definition cbc_init :: ap_aes_cbc128 where
  "cbc_init = \<lparr>en_ctx = Zeroed_key, en_iv = replicate 16 0, de_ctx = Zeroed_key, de_iv = replicate 16 0\<rparr>"

definition cbc_set_en_key_iv :: "u8 list \<Rightarrow> u8 list \<Rightarrow> ap_aes_cbc128 \<Rightarrow> ap_aes_cbc128 c_run" where
  "cbc_set_en_key_iv key iv a =
     c_bind (c_load key 0 16) (\<lambda>key. c_bind (c_load iv 0 16) (\<lambda>iv.
       Returns (a\<lparr>en_ctx := Encrypt_key key, en_iv := iv\<rparr>)))"

definition cbc_set_de_key_iv :: "u8 list \<Rightarrow> u8 list \<Rightarrow> ap_aes_cbc128 \<Rightarrow> ap_aes_cbc128 c_run" where
  "cbc_set_de_key_iv key iv a =
     c_bind (c_load key 0 16) (\<lambda>key. c_bind (c_load iv 0 16) (\<lambda>iv.
       Returns (a\<lparr>de_ctx := Decrypt_key key, de_iv := iv\<rparr>)))"

text \<open>Both work in place on \<open>len\<close> bytes of \<open>buf\<close> from \<open>pos\<close> on.\<close>

definition cbc_encrypt_buffer :: "(aes_key \<Rightarrow> u8 list \<Rightarrow> u8 list) \<Rightarrow> u8 list \<Rightarrow> nat \<Rightarrow> nat \<Rightarrow> ap_aes_cbc128
    \<Rightarrow> (u8 list \<times> ap_aes_cbc128) c_run" where
  "cbc_encrypt_buffer E buf pos len a =
     c_bind (cbc_encrypt_inplace E (en_ctx a) buf pos len (en_iv a)) (\<lambda>(buf, iv).
       Returns (buf, a\<lparr>en_iv := iv\<rparr>))"

definition cbc_decrypt_buffer :: "(aes_key \<Rightarrow> u8 list \<Rightarrow> u8 list) \<Rightarrow> u8 list \<Rightarrow> nat \<Rightarrow> nat \<Rightarrow> ap_aes_cbc128
    \<Rightarrow> (u8 list \<times> ap_aes_cbc128) c_run" where
  "cbc_decrypt_buffer D buf pos len a =
     c_bind (cbc_decrypt_inplace D (de_ctx a) buf pos len (de_iv a)) (\<lambda>(buf, iv).
       Returns (buf, a\<lparr>de_iv := iv\<rparr>))"

section \<open>What the modes compute\<close>

text \<open>
  The reference: chaining over a list of bytes, sixteen at a time. \<open>block_cipher E D\<close> is what is
  assumed of the cipher core: both functions map blocks to blocks, and decryption with a key
  undoes encryption with it.
\<close>

definition block_cipher :: "(aes_key \<Rightarrow> u8 list \<Rightarrow> u8 list) \<Rightarrow> (aes_key \<Rightarrow> u8 list \<Rightarrow> u8 list) \<Rightarrow> bool" where
  "block_cipher E D \<longleftrightarrow>
     (\<forall>k b. length b = 16 \<longrightarrow> length (E k b) = 16 \<and> length (D k b) = 16) \<and>
     (\<forall>k b. length b = 16 \<longrightarrow> D (Decrypt_key k) (E (Encrypt_key k) b) = b)"

fun cbc_enc_blocks :: "(u8 list \<Rightarrow> u8 list) \<Rightarrow> u8 list \<Rightarrow> u8 list list \<Rightarrow> u8 list list" where
  "cbc_enc_blocks f iv [] = []"
| "cbc_enc_blocks f iv (p # ps) = (let c = f (xor_bytes p iv) in c # cbc_enc_blocks f c ps)"

fun cbc_dec_blocks :: "(u8 list \<Rightarrow> u8 list) \<Rightarrow> u8 list \<Rightarrow> u8 list list \<Rightarrow> u8 list list" where
  "cbc_dec_blocks g iv [] = []"
| "cbc_dec_blocks g iv (c # cs) = xor_bytes (g c) iv # cbc_dec_blocks g c cs"

definition blocks16 :: "u8 list list \<Rightarrow> bool" where
  "blocks16 bs \<longleftrightarrow> list_all (\<lambda>b. length b = 16) bs"

lemma blocks16_simps [simp]:
  "blocks16 []" "blocks16 (b # bs) \<longleftrightarrow> length b = 16 \<and> blocks16 bs"
  by (auto simp: blocks16_def)

lemma length_xor_bytes [simp]: "length (xor_bytes xs ys) = min (length xs) (length ys)"
  by (simp add: xor_bytes_def)

lemma xor_bytes_cancel: "length xs \<le> length ys \<Longrightarrow> xor_bytes (xor_bytes xs ys) ys = xs"
  by (intro nth_equalityI) (auto simp: xor_bytes_def xor.assoc)

lemma cbc_blocks_inverse:
  assumes "\<And>b. length b = 16 \<Longrightarrow> length (f b) = 16 \<and> g (f b) = b"
    and "blocks16 ps" and "length iv = 16"
  shows "cbc_dec_blocks g iv (cbc_enc_blocks f iv ps) = ps"
  using assms(2,3) by (induction ps arbitrary: iv) (auto simp: Let_def assms(1) xor_bytes_cancel)

lemma blocks16_enc:
  assumes "\<And>b. length b = 16 \<Longrightarrow> length (f b) = 16" and "blocks16 ps" and "length iv = 16"
  shows "blocks16 (cbc_enc_blocks f iv ps)" and "length (cbc_enc_blocks f iv ps) = length ps"
    and "length (last (iv # cbc_enc_blocks f iv ps)) = 16"
proof -
  have "blocks16 (cbc_enc_blocks f iv ps) \<and> length (cbc_enc_blocks f iv ps) = length ps \<and>
      length (last (iv # cbc_enc_blocks f iv ps)) = 16"
    using assms(2,3) by (induction ps arbitrary: iv) (auto simp: Let_def assms(1))
  then show "blocks16 (cbc_enc_blocks f iv ps)" "length (cbc_enc_blocks f iv ps) = length ps"
    "length (last (iv # cbc_enc_blocks f iv ps)) = 16" by blast+
qed

lemma holds_at_put_rest:
  "holds_at buf pos (p @ rest) \<Longrightarrow> length c = length p \<Longrightarrow> holds_at (put buf pos c) (pos + length p) rest"
  by (auto simp: holds_at_iff put_def) (metis append.assoc length_append)

lemma c_store_ok: "pos + length c \<le> length buf \<Longrightarrow> c_store buf pos c = Returns (put buf pos c)"
  by (simp add: c_store_def)

lemma length_concat_blocks16: "blocks16 ps \<Longrightarrow> length (concat ps) = 16 * length ps"
  by (induction ps) auto

lemma blocks16_dec:
  assumes "\<And>b. length b = 16 \<Longrightarrow> length (g b) = 16" and "blocks16 cs" and "length iv = 16"
  shows "blocks16 (cbc_dec_blocks g iv cs)" and "length (cbc_dec_blocks g iv cs) = length cs"
proof -
  have "blocks16 (cbc_dec_blocks g iv cs) \<and> length (cbc_dec_blocks g iv cs) = length cs"
    using assms(2,3) by (induction cs arbitrary: iv) (auto simp: assms(1))
  then show "blocks16 (cbc_dec_blocks g iv cs)" "length (cbc_dec_blocks g iv cs) = length cs" by blast+
qed

text \<open>The in-place loops compute the reference on the segment and leave the rest of the buffer alone.\<close>

lemma cbc_encrypt_inplace_blocks:
  assumes E: "\<And>b. length b = 16 \<Longrightarrow> length (E k b) = 16"
    and "blocks16 ps" and "length iv = 16" and "holds_at buf pos (concat ps)"
  shows "cbc_encrypt_inplace E k buf pos (16 * length ps) iv =
    Returns (put buf pos (concat (cbc_enc_blocks (E k) iv ps)), last (iv # cbc_enc_blocks (E k) iv ps))"
  using assms(2-4)
proof (induction ps arbitrary: buf pos iv)
  case Nil
  then show ?case by (simp add: cbc_encrypt_inplace.simps)
next
  case (Cons p ps)
  define c where "c = E k (xor_bytes p iv)"
  have p: "length p = 16" and c: "length c = 16" using Cons.prems E by (simp_all add: c_def)
  have h: "holds_at buf pos p" and le: "pos + 16 + length (concat ps) \<le> length buf"
    using Cons.prems holds_at_le [OF Cons.prems(3)] p by (auto simp: holds_at_append)
  have rest: "holds_at (put buf pos c) (pos + 16) (concat ps)"
    using holds_at_put_rest [of buf pos p "concat ps" c] Cons.prems p c by simp
  have "length (concat (cbc_enc_blocks (E k) c ps)) = length (concat ps)"
    using blocks16_enc [of "E k" ps c] E Cons.prems(1) c by (simp add: length_concat_blocks16)
  then have "put (put buf pos c) (pos + length c) (concat (cbc_enc_blocks (E k) c ps)) =
      put buf pos (c @ concat (cbc_enc_blocks (E k) c ps))"
    using le c by (intro put_put_append) simp
  then show ?case
    using Cons.IH [of c "put buf pos c" "pos + 16"] Cons.prems h rest c p le
    by (subst cbc_encrypt_inplace.simps)
       (simp add: c_load_holds c_store_ok Let_def flip: c_def)
qed

lemma cbc_decrypt_inplace_blocks:
  assumes D: "\<And>b. length b = 16 \<Longrightarrow> length (D k b) = 16"
    and "blocks16 cs" and "length iv = 16" and "holds_at buf pos (concat cs)"
  shows "cbc_decrypt_inplace D k buf pos (16 * length cs) iv =
    Returns (put buf pos (concat (cbc_dec_blocks (D k) iv cs)), last (iv # cs))"
  using assms(2-4)
proof (induction cs arbitrary: buf pos iv)
  case Nil
  then show ?case by (simp add: cbc_decrypt_inplace.simps)
next
  case (Cons c cs)
  define p where "p = xor_bytes (D k c) iv"
  have c: "length c = 16" and p: "length p = 16" using Cons.prems D by (simp_all add: p_def)
  have h: "holds_at buf pos c" and le: "pos + 16 + length (concat cs) \<le> length buf"
    using Cons.prems holds_at_le [OF Cons.prems(3)] c by (auto simp: holds_at_append)
  have rest: "holds_at (put buf pos p) (pos + 16) (concat cs)"
    using holds_at_put_rest [of buf pos c "concat cs" p] Cons.prems p c by simp
  have "length (concat (cbc_dec_blocks (D k) c cs)) = length (concat cs)"
    using blocks16_dec [of "D k" cs c] D Cons.prems(1) c by (simp add: length_concat_blocks16)
  then have "put (put buf pos p) (pos + length p) (concat (cbc_dec_blocks (D k) c cs)) =
      put buf pos (p @ concat (cbc_dec_blocks (D k) c cs))"
    using le p by (intro put_put_append) simp
  then show ?case
    using Cons.IH [of c "put buf pos p" "pos + 16"] Cons.prems h rest c p le
    by (subst cbc_decrypt_inplace.simps)
       (simp add: c_load_holds c_store_ok flip: p_def)
qed

text \<open>Every list of \<open>16 n\<close> bytes is a list of \<open>n\<close> blocks.\<close>

fun chop16 :: "nat \<Rightarrow> u8 list \<Rightarrow> u8 list list" where
  "chop16 0 xs = []"
| "chop16 (Suc n) xs = take 16 xs # chop16 n (drop 16 xs)"

lemma chop16:
  "length xs = 16 * n \<Longrightarrow> concat (chop16 n xs) = xs"
  "length xs = 16 * n \<Longrightarrow> blocks16 (chop16 n xs)"
  "length (chop16 n xs) = n"
  by (induction n xs rule: chop16.induct) auto

lemma put_put_self:
  assumes "holds_at buf pos p" and "length c = length p"
  shows "put (put buf pos c) pos p = buf" and "holds_at (put buf pos c) pos c"
  using assms by (auto simp: holds_at_iff put_def)

lemma cbc_inplace_roundtrip:
  assumes cipher: "block_cipher E D" and iv: "length iv = 16" and le: "pos + 16 * n \<le> length buf"
  obtains buf' iv' where
    "cbc_encrypt_inplace E (Encrypt_key k) buf pos (16 * n) iv = Returns (buf', iv')"
    "cbc_decrypt_inplace D (Decrypt_key k) buf' pos (16 * n) iv = Returns (buf, iv')"
    "length buf' = length buf"
proof -
  define ps where "ps = chop16 n (slice pos (16 * n) buf)"
  define cs where "cs = cbc_enc_blocks (E (Encrypt_key k)) iv ps"
  have len: "length (slice pos (16 * n) buf) = 16 * n" using le by (simp add: slice_def)
  have ps: "concat ps = slice pos (16 * n) buf" "blocks16 ps" "length ps = n"
    using chop16(1,2) [OF len] by (simp_all add: ps_def chop16(3))
  have E: "length (E key b) = 16" and D: "length (D key b) = 16"
    and DE: "D (Decrypt_key k) (E (Encrypt_key k) b) = b" if "length b = 16" for key b
    using cipher that by (auto simp: block_cipher_def)
  have cs: "blocks16 cs" "length cs = n"
    using blocks16_enc [of "E (Encrypt_key k)" ps iv] E ps iv by (simp_all add: cs_def)
  have hold: "holds_at buf pos (concat ps)" using le ps len by (simp add: holds_at_def)
  have lens: "length (concat cs) = length (concat ps)"
    using cs ps len by (simp add: length_concat_blocks16)
  have undo: "cbc_dec_blocks (D (Decrypt_key k)) iv cs = ps"
    unfolding cs_def using ps iv E DE by (intro cbc_blocks_inverse) auto
  show thesis
  proof (rule that)
    show "cbc_encrypt_inplace E (Encrypt_key k) buf pos (16 * n) iv =
        Returns (put buf pos (concat cs), last (iv # cs))"
      using cbc_encrypt_inplace_blocks [of E "Encrypt_key k" ps iv buf pos] E ps iv hold by (simp add: cs_def)
    show "cbc_decrypt_inplace D (Decrypt_key k) (put buf pos (concat cs)) pos (16 * n) iv =
        Returns (buf, last (iv # cs))"
      using cbc_decrypt_inplace_blocks [of D "Decrypt_key k" cs iv "put buf pos (concat cs)" pos]
        D cs iv undo put_put_self [OF hold lens] by simp
    show "length (put buf pos (concat cs)) = length buf"
      using hold lens by (intro length_put) (simp add: holds_at_def)
  qed
qed

section \<open>Counter mode as one key stream\<close>

text \<open>Splitting the input over several calls does not change the output.\<close>

lemma ctr_append:
  "AES_ctr128_encrypt E k (xs @ ys) s =
     (let (xs', s1) = AES_ctr128_encrypt E k xs s; (ys', s2) = AES_ctr128_encrypt E k ys s1
      in (xs' @ ys', s2))"
  by (induction E k xs s rule: AES_ctr128_encrypt.induct) (auto simp: Let_def split: prod.splits)

lemma ctr_length: "length (fst (AES_ctr128_encrypt E k xs s)) = length xs"
  by (induction E k xs s rule: AES_ctr128_encrypt.induct) (auto simp: Let_def split: prod.splits)

text \<open>Counter mode is its own inverse, from the same position of the key stream.\<close>

lemma ctr_involution:
  "AES_ctr128_encrypt E k (fst (AES_ctr128_encrypt E k xs s)) s = (xs, snd (AES_ctr128_encrypt E k xs s))"
  by (induction E k xs s rule: AES_ctr128_encrypt.induct)
     (auto simp: Let_def xor.assoc split: prod.splits)

section \<open>The counter is a 128-bit big-endian number\<close>

definition digits32 :: "nat \<Rightarrow> nat \<Rightarrow> nat \<Rightarrow> nat \<Rightarrow> u8 list" where
  "digits32 a b c d = be_bytes 4 a @ be_bytes 4 b @ be_bytes 4 c @ be_bytes 4 d"

lemma digits32_exist:
  assumes "length iv = 16"
  obtains a b c d where "iv = digits32 a b c d"
    "a < 2 ^ 32" "b < 2 ^ 32" "c < 2 ^ 32" "d < 2 ^ 32"
proof (rule that [of "be_value (slice 0 4 iv)" "be_value (slice 4 4 iv)" "be_value (slice 8 4 iv)"
      "be_value (slice 12 4 iv)"])
  have len: "length (slice i 4 iv) = 4" if "i \<le> 12" for i
    using assms that by (simp add: slice_def)
  have "iv = slice 0 4 iv @ slice 4 4 iv @ slice 8 4 iv @ slice 12 4 iv"
    using assms by (intro nth_equalityI) (auto simp: slice_def nth_append)
  moreover have "be_bytes 4 (be_value (slice i 4 iv)) = slice i 4 iv" if "i \<le> 12" for i
    using be_bytes_be_value [of "slice i 4 iv"] len [OF that] by simp
  ultimately show "iv = digits32 (be_value (slice 0 4 iv)) (be_value (slice 4 4 iv))
      (be_value (slice 8 4 iv)) (be_value (slice 12 4 iv))"
    by (simp add: digits32_def)
  have "be_value (slice i 4 iv) < 2 ^ 32" if "i \<le> 12" for i
    using be_value_lt [of "slice i 4 iv"] len [OF that] by simp
  then show "be_value (slice 0 4 iv) < 2 ^ 32" "be_value (slice 4 4 iv) < 2 ^ 32"
    "be_value (slice 8 4 iv) < 2 ^ 32" "be_value (slice 12 4 iv) < 2 ^ 32" by simp_all
qed

lemma be_value_digits32:
  assumes "a < 2 ^ 32" "b < 2 ^ 32" "c < 2 ^ 32" "d < 2 ^ 32"
  shows "be_value (digits32 a b c d) = ((a * 2 ^ 32 + b) * 2 ^ 32 + c) * 2 ^ 32 + d"
  using assms by (simp add: digits32_def be_value_append endian_simps algebra_simps)

lemma inc_digit_digits32:
  assumes "a < 2 ^ 32" "b < 2 ^ 32" "c < 2 ^ 32" "d < 2 ^ 32"
  shows "inc_digit 12 (digits32 a b c d) = ((d + 1) mod 2 ^ 32, digits32 a b c ((d + 1) mod 2 ^ 32))"
    and "inc_digit 8 (digits32 a b c d) = ((c + 1) mod 2 ^ 32, digits32 a b ((c + 1) mod 2 ^ 32) d)"
    and "inc_digit 4 (digits32 a b c d) = ((b + 1) mod 2 ^ 32, digits32 a ((b + 1) mod 2 ^ 32) c d)"
    and "inc_digit 0 (digits32 a b c d) = ((a + 1) mod 2 ^ 32, digits32 ((a + 1) mod 2 ^ 32) b c d)"
  using assms by (simp_all add: inc_digit_def digits32_def slice_def put_def endian_simps Let_def)

lemma AES_ctr128_inc_digits32:
  assumes "a < 2 ^ 32" "b < 2 ^ 32" "c < 2 ^ 32" "d < 2 ^ 32"
  shows "AES_ctr128_inc (digits32 a b c d) =
    (if d + 1 < 2 ^ 32 then digits32 a b c (d + 1)
     else if c + 1 < 2 ^ 32 then digits32 a b (c + 1) 0
     else if b + 1 < 2 ^ 32 then digits32 a (b + 1) 0 0
     else digits32 ((a + 1) mod 2 ^ 32) 0 0 0)"
proof -
  have carry: "(x + 1) mod 2 ^ 32 = (if x + 1 < 2 ^ 32 then x + 1 else 0)" if "x < 2 ^ 32" for x :: nat
    using that by (cases "x + 1 = 2 ^ 32") auto
  show ?thesis
    using assms unfolding AES_ctr128_inc_def
    by (simp only: Let_def inc_digit_digits32 carry split_conv split: if_splits) auto
qed

lemma carry_value:
  fixes a b c d W :: nat
  assumes "a < W" "b < W" "c < W" "d < W"
  shows "((a * W + b) * W + c) * W + d < W * W * W * W"
proof -
  have "a * W + b < W * W" using assms mult_le_mono1 [of "a + 1" W W] by (simp add: algebra_simps)
  then have "(a * W + b) * W + c < W * W * W"
    using assms mult_le_mono1 [of "a * W + b + 1" "W * W" W] by (simp add: algebra_simps)
  then show ?thesis
    using assms mult_le_mono1 [of "(a * W + b) * W + c + 1" "W * W * W" W] by (simp add: algebra_simps)
qed

lemma AES_ctr128_inc_value:
  assumes "length iv = 16"
  shows "be_value (AES_ctr128_inc iv) = (be_value iv + 1) mod 2 ^ 128"
proof -
  obtain a b c d where iv: "iv = digits32 a b c d"
    and lt: "a < 2 ^ 32" "b < 2 ^ 32" "c < 2 ^ 32" "d < 2 ^ 32"
    using digits32_exist [OF assms] .
  have small: "((x * 2 ^ 32 + y) * 2 ^ 32 + z) * 2 ^ 32 + (t :: nat) < 2 ^ 128"
    if "x < 2 ^ 32" "y < 2 ^ 32" "z < 2 ^ 32" "t < 2 ^ 32" for x y z t
    using carry_value [OF that] by simp
  consider "d + 1 < 2 ^ 32" | "d + 1 = 2 ^ 32" "c + 1 < 2 ^ 32"
    | "d + 1 = 2 ^ 32" "c + 1 = 2 ^ 32" "b + 1 < 2 ^ 32"
    | "d + 1 = 2 ^ 32" "c + 1 = 2 ^ 32" "b + 1 = 2 ^ 32" "a + 1 < 2 ^ 32"
    | "d + 1 = 2 ^ 32" "c + 1 = 2 ^ 32" "b + 1 = 2 ^ 32" "a + 1 = 2 ^ 32"
    using lt by linarith
  then show ?thesis
  proof cases
    case 1
    then show ?thesis
      using lt small [of a b c "d + 1"] by (simp add: iv AES_ctr128_inc_digits32 be_value_digits32)
  next
    case 2
    then show ?thesis
      using lt small [of a b "c + 1" 0] by (simp add: iv AES_ctr128_inc_digits32 be_value_digits32)
  next
    case 3
    then show ?thesis
      using lt small [of a "b + 1" 0 0] by (simp add: iv AES_ctr128_inc_digits32 be_value_digits32)
  next
    case 4
    then show ?thesis
      using lt small [of "a + 1" 0 0 0] by (simp add: iv AES_ctr128_inc_digits32 be_value_digits32)
  next
    case 5
    then show ?thesis using lt by (simp add: iv AES_ctr128_inc_digits32 be_value_digits32)
  qed
qed

lemma length_AES_ctr128_inc: "length iv = 16 \<Longrightarrow> length (AES_ctr128_inc iv) = 16"
proof (elim digits32_exist)
  have len: "length (digits32 a b c d) = 16" for a b c d by (simp add: digits32_def)
  show "length (AES_ctr128_inc iv) = 16"
    if "iv = digits32 a b c d" "a < 2 ^ 32" "b < 2 ^ 32" "c < 2 ^ 32" "d < 2 ^ 32" for a b c d
    using that by (simp add: AES_ctr128_inc_digits32 len)
qed

text \<open>
  From a fresh position the mode is exclusive-or with the key stream: the encryptions of the
  counter value, the next value, and so on.
\<close>

definition key_byte :: "(u8 list \<Rightarrow> u8 list) \<Rightarrow> u8 list \<Rightarrow> nat \<Rightarrow> u8" where
  "key_byte f iv i = f ((AES_ctr128_inc ^^ (i div 16)) iv) ! (i mod 16)"

definition at_position :: "(u8 list \<Rightarrow> u8 list) \<Rightarrow> u8 list \<Rightarrow> nat \<Rightarrow> ctr_state \<Rightarrow> bool" where
  "at_position f iv n s \<longleftrightarrow> ctr_num s = n mod 16 \<and>
     (if n mod 16 = 0 then ctr_iv s = (AES_ctr128_inc ^^ (n div 16)) iv
      else ctr_iv s = (AES_ctr128_inc ^^ Suc (n div 16)) iv \<and> ctr_ec s = f ((AES_ctr128_inc ^^ (n div 16)) iv))"

lemma at_position_start: "ctr_num s = 0 \<Longrightarrow> ctr_iv s = iv \<Longrightarrow> at_position f iv 0 s"
  by (simp add: at_position_def)

lemma ctr_key_stream:
  "at_position (E k) iv n s \<Longrightarrow>
    fst (AES_ctr128_encrypt E k xs s) = map (\<lambda>i. xs ! i XOR key_byte (E k) iv (n + i)) [0..<length xs] \<and>
    at_position (E k) iv (n + length xs) (snd (AES_ctr128_encrypt E k xs s))"
proof (induction E k xs s arbitrary: n rule: AES_ctr128_encrypt.induct)
  case (2 E k b bs s)
  define s1 where "s1 = (if ctr_num s = 0
    then s\<lparr>ctr_ec := E k (ctr_iv s), ctr_iv := AES_ctr128_inc (ctr_iv s)\<rparr> else s)"
  define s2 where "s2 = s1\<lparr>ctr_num := (ctr_num s1 + 1) mod 16\<rparr>"
  have byte: "ctr_ec s1 ! ctr_num s1 = key_byte (E k) iv n"
    using 2(2) by (auto simp: s1_def key_byte_def at_position_def split: if_splits)
  have "at_position (E k) iv (Suc n) s2"
    using 2(2) by (auto simp: s2_def s1_def at_position_def mod_Suc div_Suc split: if_splits)
  then have IH: "fst (AES_ctr128_encrypt E k bs s2) =
        map (\<lambda>i. bs ! i XOR key_byte (E k) iv (Suc n + i)) [0..<length bs]"
      "at_position (E k) iv (Suc n + length bs) (snd (AES_ctr128_encrypt E k bs s2))"
    using 2(1) [of s1 "Suc n"] by (simp_all add: s2_def s1_def Let_def)
  have split: "AES_ctr128_encrypt E k (b # bs) s =
      ((b XOR key_byte (E k) iv n) # fst (AES_ctr128_encrypt E k bs s2), snd (AES_ctr128_encrypt E k bs s2))"
    using byte by (simp add: s1_def s2_def Let_def split: prod.splits)
  show ?case
    unfolding split using IH by (simp add: map_upt_Suc del: upt_Suc)
qed simp

end
