(* ===== verification/Ap_Crypto.thy ===== *)
theory Ap_Crypto
  imports Aes_Modes Xtxp_Message
begin

text \<open>
  \<open>server_key_chain\<close> and \<open>ap_crypto\<close> of \<open>src/crypto/ap_crypto.cpp\<close>. The cryptographic primitives
  of \<open>third-party/\<close> are the fields of the parameter \<open>crypto_lib\<close>; the fairplay functions
  are a private submodule. A pointer argument is the memory from the address it points to up to the
  end of the object it points into, or null.
\<close>

record crypto_lib =
  AES_encrypt :: "aes_key \<Rightarrow> u8 list \<Rightarrow> u8 list"
  AES_decrypt :: "aes_key \<Rightarrow> u8 list \<Rightarrow> u8 list"
  sha512 :: "u8 list \<Rightarrow> u8 list"
  curve25519_donna :: "u8 list \<Rightarrow> u8 list option \<Rightarrow> u8 list"    \<comment> \<open>secret, base point\<close>
  ed25519_create_keypair :: "u8 list \<Rightarrow> u8 list \<times> u8 list"      \<comment> \<open>public, private\<close>
  ed25519_sign :: "u8 list \<Rightarrow> u8 list \<Rightarrow> u8 list \<Rightarrow> u8 list"   \<comment> \<open>message, public, private\<close>
  ed25519_verify :: "u8 list \<Rightarrow> u8 list \<Rightarrow> u8 list \<Rightarrow> bool"      \<comment> \<open>signature, message, public\<close>
  fairplay_setup :: "u8 \<Rightarrow> u8 list"
  fairplay_handshake :: "u8 list \<Rightarrow> u8 list"
  fairplay_decrypt :: "u8 list \<Rightarrow> u8 list \<Rightarrow> u8 list"             \<comment> \<open>message, cipher text\<close>

type_synonym pointer = "u8 list option"

text \<open>\<open>v.assign(p, p + len)\<close> and a read of \<open>len\<close> bytes at \<open>p\<close>.\<close>

definition read_ptr :: "pointer \<Rightarrow> nat \<Rightarrow> u8 list c_run" where
  "read_ptr p len = (case p of None \<Rightarrow> Undefined Null_deref | Some mem \<Rightarrow> c_load mem 0 len)"

record server_key_chain =
  ed_public_key :: "u8 list"
  ed_private_key :: "u8 list"
  curve_public_key :: "u8 list"
  curve_private_key :: "u8 list"

text \<open>The two seeds come from the random source of the system.\<close>

definition new_server_key_chain :: "crypto_lib \<Rightarrow> u8 list \<Rightarrow> u8 list \<Rightarrow> server_key_chain" where
  "new_server_key_chain L curve_seed ed_seed =
     (let (pub, priv) = ed25519_create_keypair L ed_seed
      in \<lparr>ed_public_key = pub, ed_private_key = priv,
          curve_public_key = curve25519_donna L curve_seed None, curve_private_key = curve_seed\<rparr>)"

record ap_crypto =
  pair_verifyed :: bool
  server :: server_key_chain
  fp_key_message :: "u8 list"
  shared_secret :: "u8 list"
  client_aes_key :: "u8 list"
  client_aes_iv :: "u8 list"
  client_ed_public_key :: "u8 list"
  client_curve_public_key :: "u8 list"
  pair_verify_aes_ctr :: ap_aes_ctr128
  mirror_stream_aes_ctr :: ap_aes_ctr128
  audio_stream_aes_cbc :: ap_aes_cbc128

definition new_ap_crypto :: "server_key_chain \<Rightarrow> ap_crypto" where
  "new_ap_crypto keys =
     \<lparr>pair_verifyed = False, server = keys, fp_key_message = replicate 164 0,
      shared_secret = replicate 32 0, client_aes_key = replicate 16 0, client_aes_iv = replicate 16 0,
      client_ed_public_key = replicate 32 0, client_curve_public_key = replicate 32 0,
      pair_verify_aes_ctr = ctr_reset, mirror_stream_aes_ctr = ctr_reset, audio_stream_aes_cbc = cbc_init\<rparr>"

section \<open>Pairing\<close>

definition init_client_public_keys :: "pointer \<Rightarrow> nat \<Rightarrow> pointer \<Rightarrow> nat \<Rightarrow> ap_crypto \<Rightarrow> ap_crypto c_run" where
  "init_client_public_keys pcurve curve_len ped ed_len c =
     c_bind (if pcurve \<noteq> None \<and> curve_len \<noteq> 0
             then c_bind (read_ptr pcurve curve_len) (\<lambda>k. Returns (c\<lparr>client_curve_public_key := k\<rparr>))
             else Returns c) (\<lambda>c.
     if ped \<noteq> None \<and> ed_len \<noteq> 0
     then c_bind (read_ptr ped ed_len) (\<lambda>k. Returns (c\<lparr>client_ed_public_key := k\<rparr>))
     else Returns c)"

text \<open>The first sixteen bytes of a digest over a fixed text and a secret: how every AES key and IV is derived.\<close>

definition derive16 :: "crypto_lib \<Rightarrow> string \<Rightarrow> u8 list \<Rightarrow> u8 list" where
  "derive16 L label secret = take 16 (sha512 L (bytes_of label @ secret))"

definition init_pair_verify_aes :: "crypto_lib \<Rightarrow> ap_crypto \<Rightarrow> ap_crypto c_run" where
  "init_pair_verify_aes L c =
     c_bind (c_load (client_curve_public_key c) 0 32) (\<lambda>point.
     let c = c\<lparr>shared_secret := curve25519_donna L (curve_private_key (server c)) (Some point)\<rparr>;
         aes_key = derive16 L ''Pair-Verify-AES-Key'' (take 32 (shared_secret c));
         aes_iv = derive16 L ''Pair-Verify-AES-IV'' (take 32 (shared_secret c)) in
     c_bind (ctr_set_key_iv aes_key aes_iv (pair_verify_aes_ctr c)) (\<lambda>ctr.
       Returns (c\<lparr>pair_verify_aes_ctr := ctr, pair_verifyed := True\<rparr>)))"

definition sign_pair_signature :: "crypto_lib \<Rightarrow> ap_crypto \<Rightarrow> (u8 list \<times> ap_crypto) c_run" where
  "sign_pair_signature L c =
     c_bind (c_load (client_curve_public_key c) 0 32) (\<lambda>client_key.
     let message = take 32 (curve_public_key (server c)) @ client_key;
         signature = ed25519_sign L message (ed_public_key (server c)) (ed_private_key (server c));
         (sig, ctr) = ctr_xcrypt_buffer (AES_encrypt L) signature (pair_verify_aes_ctr c) in
     Returns (sig, c\<lparr>pair_verify_aes_ctr := ctr\<rparr>))"

definition verify_pair_signature :: "crypto_lib \<Rightarrow> pointer \<Rightarrow> nat \<Rightarrow> ap_crypto \<Rightarrow> (bool \<times> ap_crypto) c_run" where
  "verify_pair_signature L p len c =
     c_bind (read_ptr p len) (\<lambda>encrypted_signature.
     let (plain_signature, ctr) = ctr_xcrypt_buffer (AES_encrypt L) encrypted_signature (pair_verify_aes_ctr c);
         message = client_curve_public_key c @ curve_public_key (server c) in
     Returns (ed25519_verify L plain_signature message (client_ed_public_key c),
              c\<lparr>pair_verify_aes_ctr := ctr\<rparr>))"

section \<open>Fairplay and the session key\<close>

text \<open>Both fairplay answers are written over the front of a caller's buffer.\<close>

definition fp_setup :: "crypto_lib \<Rightarrow> u8 \<Rightarrow> u8 list \<Rightarrow> u8 list c_run" where
  "fp_setup L mode out = c_store out 0 (fairplay_setup L mode)"

definition fp_handshake :: "crypto_lib \<Rightarrow> u8 list \<Rightarrow> pointer \<Rightarrow> nat \<Rightarrow> ap_crypto \<Rightarrow> (u8 list \<times> ap_crypto) c_run" where
  "fp_handshake L out keymsg len c =
     (case keymsg of
        None \<Rightarrow> Returns (out, c)
      | Some mem \<Rightarrow>
          c_bind (c_load mem 0 len) (\<lambda>msg.
          c_bind (if 144 \<le> length mem then Returns (drop 144 mem) else Undefined (Out_of_bounds 144 0)) (\<lambda>tail.
          c_bind (c_store out 0 (fairplay_handshake L tail)) (\<lambda>out.
            Returns (out, c\<lparr>fp_key_message := msg\<rparr>)))))"

definition fp_decrypt :: "crypto_lib \<Rightarrow> u8 list \<Rightarrow> u8 list \<Rightarrow> ap_crypto \<Rightarrow> u8 list c_run" where
  "fp_decrypt L key out c = c_store out 0 (fairplay_decrypt L (fp_key_message c) key)"

definition init_client_aes_info :: "crypto_lib \<Rightarrow> pointer \<Rightarrow> nat \<Rightarrow> pointer \<Rightarrow> nat \<Rightarrow> ap_crypto \<Rightarrow> ap_crypto c_run" where
  "init_client_aes_info L piv iv_len pkey key_len c =
     c_bind (if piv \<noteq> None \<and> iv_len \<noteq> 0
             then c_bind (read_ptr piv iv_len) (\<lambda>iv. Returns (c\<lparr>client_aes_iv := iv\<rparr>))
             else Returns c) (\<lambda>c.
     if pkey \<noteq> None \<and> key_len \<noteq> 0
     then c_bind (fp_decrypt L (the pkey) (client_aes_key c) c) (\<lambda>key.
       let c = c\<lparr>client_aes_key := key\<rparr> in
       if pair_verifyed c then
         c_bind (c_load (client_aes_key c) 0 16) (\<lambda>key16.
           let hash = sha512 L (key16 @ take 32 (shared_secret c)) in
           Returns (c\<lparr>client_aes_key := client_aes_key c @ take 16 hash\<rparr>))
       else Returns c)
     else Returns c)"

section \<open>The two streams\<close>

definition init_video_stream_aes_ctr :: "crypto_lib \<Rightarrow> nat \<Rightarrow> ap_crypto \<Rightarrow> ap_crypto c_run" where
  "init_video_stream_aes_ctr L video_stream_id c =
     (let aes_key = derive16 L (''AirPlayStreamKey'' @ decimal video_stream_id) (client_aes_key c);
          aes_iv = derive16 L (''AirPlayStreamIV'' @ decimal video_stream_id) (client_aes_key c) in
      c_bind (ctr_set_key_iv aes_key aes_iv (mirror_stream_aes_ctr c)) (\<lambda>ctr.
        Returns (c\<lparr>mirror_stream_aes_ctr := ctr\<rparr>)))"

definition init_audio_stream_aes_cbc :: "ap_crypto \<Rightarrow> ap_crypto" where
  "init_audio_stream_aes_cbc c = c"

definition decrypt_video_frame :: "crypto_lib \<Rightarrow> u8 list \<Rightarrow> ap_crypto \<Rightarrow> u8 list \<times> ap_crypto" where
  "decrypt_video_frame L frame c =
     (let (out, ctr) = ctr_xcrypt_buffer (AES_encrypt L) frame (mirror_stream_aes_ctr c)
      in (out, c\<lparr>mirror_stream_aes_ctr := ctr\<rparr>))"

text \<open>Decrypts \<open>len\<close> bytes of \<open>buf\<close> at \<open>pos\<close>, starting from the session's key and IV every time.\<close>

definition decrypt_audio_data :: "crypto_lib \<Rightarrow> u8 list \<Rightarrow> nat \<Rightarrow> nat \<Rightarrow> ap_crypto \<Rightarrow> (u8 list \<times> ap_crypto) c_run" where
  "decrypt_audio_data L buf pos len c =
     c_bind (cbc_set_de_key_iv (client_aes_key c) (client_aes_iv c) (audio_stream_aes_cbc c)) (\<lambda>cbc.
     c_bind (cbc_decrypt_buffer (AES_decrypt L) buf pos len cbc) (\<lambda>(buf, cbc).
       Returns (buf, c\<lparr>audio_stream_aes_cbc := cbc\<rparr>)))"

section \<open>Sizes\<close>

text \<open>The documented sizes of what the primitives write.\<close>

definition crypto_lib_ok :: "crypto_lib \<Rightarrow> bool" where
  "crypto_lib_ok L \<longleftrightarrow> block_cipher (AES_encrypt L) (AES_decrypt L) \<and>
     (\<forall>m. length (sha512 L m) = 64) \<and> (\<forall>s p. length (curve25519_donna L s p) = 32) \<and>
     (\<forall>m p s. length (ed25519_sign L m p s) = 64) \<and>
     (\<forall>seed. length (fst (ed25519_create_keypair L seed)) = 32 \<and> length (snd (ed25519_create_keypair L seed)) = 64) \<and>
     (\<forall>mode. length (fairplay_setup L mode) = 142) \<and> (\<forall>m. length (fairplay_handshake L m) = 32) \<and>
     (\<forall>m k. length (fairplay_decrypt L m k) = 16)"

definition keys_ok :: "server_key_chain \<Rightarrow> bool" where
  "keys_ok k \<longleftrightarrow> length (ed_public_key k) = 32 \<and> length (ed_private_key k) = 64 \<and>
     length (curve_public_key k) = 32 \<and> length (curve_private_key k) = 32"

definition crypto_ok :: "ap_crypto \<Rightarrow> bool" where
  "crypto_ok c \<longleftrightarrow> keys_ok (server c) \<and> length (fp_key_message c) = 164 \<and> length (shared_secret c) = 32 \<and>
     16 \<le> length (client_aes_key c) \<and>
     length (client_ed_public_key c) = 32 \<and> length (client_curve_public_key c) = 32"

lemma crypto_sizes [simp]:
  assumes "crypto_lib_ok L"
  shows "length (sha512 L m) = 64" "length (curve25519_donna L s p) = 32"
    "length (ed25519_sign L m' p' s') = 64" "length (fairplay_setup L mode) = 142"
    "length (fairplay_handshake L m) = 32" "length (fairplay_decrypt L m k) = 16"
    "length (derive16 L label secret) = 16"
    "length (fst (ed25519_create_keypair L seed)) = 32" "length (snd (ed25519_create_keypair L seed)) = 64"
  using assms by (simp_all add: crypto_lib_ok_def derive16_def)

lemma crypto_lib_cipher: "crypto_lib_ok L \<Longrightarrow> block_cipher (AES_encrypt L) (AES_decrypt L)"
  by (simp only: crypto_lib_ok_def)

lemma new_ap_crypto_ok: "keys_ok keys \<Longrightarrow> crypto_ok (new_ap_crypto keys)"
  by (simp add: crypto_ok_def new_ap_crypto_def)

lemma new_server_key_chain_ok:
  assumes "crypto_lib_ok L" and "length seed = 32"
  shows "keys_ok (new_server_key_chain L seed ed_seed)"
proof -
  have "length (fst (ed25519_create_keypair L ed_seed)) = 32 \<and> length (snd (ed25519_create_keypair L ed_seed)) = 64"
    using assms(1) by simp
  then show ?thesis
    using assms by (simp add: keys_ok_def new_server_key_chain_def split_beta)
qed

lemma c_load_whole: "length xs = n \<Longrightarrow> c_load xs 0 n = Returns xs"
  by (simp add: c_load_def slice_def)

lemma c_load_take: "n \<le> length xs \<Longrightarrow> c_load xs 0 n = Returns (take n xs)"
  by (simp add: c_load_def slice_def)

definition ctr_start :: "u8 list \<Rightarrow> u8 list \<Rightarrow> ap_aes_ctr128" where
  "ctr_start key iv = \<lparr>ctr_ctx = Encrypt_key key,
     ctr_pos = \<lparr>ctr_iv = iv, ctr_ec = replicate 16 0, ctr_num = 0\<rparr>\<rparr>"

lemma ctr_set_key_iv_ok:
  "length key = 16 \<Longrightarrow> length iv = 16 \<Longrightarrow> ctr_set_key_iv key iv a = Returns (ctr_start key iv)"
  by (simp add: ctr_set_key_iv_def c_load_whole ctr_start_def ctr_reset_def)

text \<open>What each operation does where its memory accesses are within bounds.\<close>

lemma init_client_public_keys_ok:
  assumes "length k = 32" "length e = 32"
  shows "init_client_public_keys (Some (k @ r)) 32 (Some (e @ r')) 32 c =
      Returns (c\<lparr>client_curve_public_key := k, client_ed_public_key := e\<rparr>)"
    and "init_client_public_keys None 0 (Some (e @ r')) 32 c = Returns (c\<lparr>client_ed_public_key := e\<rparr>)"
  using assms by (simp_all add: init_client_public_keys_def read_ptr_def c_load_take)

definition session_secret :: "crypto_lib \<Rightarrow> ap_crypto \<Rightarrow> u8 list" where
  "session_secret L c = curve25519_donna L (curve_private_key (server c)) (Some (client_curve_public_key c))"

definition pair_stream :: "crypto_lib \<Rightarrow> ap_crypto \<Rightarrow> ap_aes_ctr128" where
  "pair_stream L c = ctr_start (derive16 L ''Pair-Verify-AES-Key'' (session_secret L c))
     (derive16 L ''Pair-Verify-AES-IV'' (session_secret L c))"

lemma init_pair_verify_aes_ok:
  assumes "crypto_lib_ok L" and "crypto_ok c"
  shows "init_pair_verify_aes L c = Returns (c\<lparr>shared_secret := session_secret L c,
    pair_verify_aes_ctr := pair_stream L c, pair_verifyed := True\<rparr>)"
proof -
  have "length (client_curve_public_key c) = 32" using assms by (simp add: crypto_ok_def)
  moreover have "take 32 (session_secret L c) = session_secret L c"
    using assms by (simp add: session_secret_def)
  ultimately show ?thesis
    using assms(1) by (simp add: init_pair_verify_aes_def c_load_whole ctr_set_key_iv_ok
        pair_stream_def session_secret_def)
qed

lemma sign_pair_signature_ok:
  assumes "crypto_ok c"
  shows "sign_pair_signature L c =
    (let message = curve_public_key (server c) @ client_curve_public_key c;
         (sig, ctr) = ctr_xcrypt_buffer (AES_encrypt L)
           (ed25519_sign L message (ed_public_key (server c)) (ed_private_key (server c))) (pair_verify_aes_ctr c)
     in Returns (sig, c\<lparr>pair_verify_aes_ctr := ctr\<rparr>))"
  using assms by (simp add: sign_pair_signature_def c_load_whole crypto_ok_def keys_ok_def)

lemma verify_pair_signature_ok:
  assumes "length s = n"
  shows "verify_pair_signature L (Some (s @ r)) n c =
    (let (plain, ctr) = ctr_xcrypt_buffer (AES_encrypt L) s (pair_verify_aes_ctr c)
     in Returns (ed25519_verify L plain (client_curve_public_key c @ curve_public_key (server c))
          (client_ed_public_key c), c\<lparr>pair_verify_aes_ctr := ctr\<rparr>))"
  using assms by (simp add: verify_pair_signature_def read_ptr_def c_load_take)

lemma fp_setup_ok: "crypto_lib_ok L \<Longrightarrow> length buf = 142 \<Longrightarrow> fp_setup L mode buf = Returns (fairplay_setup L mode)"
  by (simp add: fp_setup_def c_store_def put_def)

lemma fp_handshake_ok:
  assumes "crypto_lib_ok L" and "length msg = 164" and "length buf = 32"
  shows "fp_handshake L buf (Some msg) 164 c =
    Returns (fairplay_handshake L (drop 144 msg), c\<lparr>fp_key_message := msg\<rparr>)"
  using assms by (simp add: fp_handshake_def c_load_whole c_store_def put_def)

text \<open>
  The session key: the decrypted key, with a digest appended when the pairing has been verified.
  Bytes that an earlier call appended stay between the two.
\<close>

definition next_aes_key :: "crypto_lib \<Rightarrow> u8 list \<Rightarrow> ap_crypto \<Rightarrow> u8 list" where
  "next_aes_key L ekey c =
     (let k = fairplay_decrypt L (fp_key_message c) ekey
      in k @ drop 16 (client_aes_key c) @
         (if pair_verifyed c then take 16 (sha512 L (k @ shared_secret c)) else []))"

lemma init_client_aes_info_ok:
  assumes L: "crypto_lib_ok L" and c: "crypto_ok c"
    and iv: "0 < length iv" "length iv < 2 ^ 64" and key: "0 < length ekey"
  shows "init_client_aes_info L (Some iv) (length iv) (Some ekey) (length ekey) c =
    Returns (c\<lparr>client_aes_iv := iv, client_aes_key := next_aes_key L ekey c\<rparr>)"
proof -
  define k where "k = fairplay_decrypt L (fp_key_message c) ekey"
  have k: "length k = 16" using L by (simp add: k_def)
  have store: "c_store (client_aes_key c) 0 k = Returns (k @ drop 16 (client_aes_key c))"
    using c k by (simp add: c_store_def put_def crypto_ok_def)
  have sec: "take 32 (shared_secret c) = shared_secret c" using c by (simp add: crypto_ok_def)
  have "c_load (k @ drop 16 (client_aes_key c)) 0 16 = Returns k" using k by (simp add: c_load_take)
  then show ?thesis
    using iv key store sec
    by (simp add: init_client_aes_info_def read_ptr_def c_load_whole fp_decrypt_def next_aes_key_def Let_def
        flip: k_def)
qed

definition video_stream :: "crypto_lib \<Rightarrow> nat \<Rightarrow> ap_crypto \<Rightarrow> ap_aes_ctr128" where
  "video_stream L i c = ctr_start (derive16 L (''AirPlayStreamKey'' @ decimal i) (client_aes_key c))
     (derive16 L (''AirPlayStreamIV'' @ decimal i) (client_aes_key c))"

lemma init_video_stream_aes_ctr_ok:
  "crypto_lib_ok L \<Longrightarrow> init_video_stream_aes_ctr L i c = Returns (c\<lparr>mirror_stream_aes_ctr := video_stream L i c\<rparr>)"
  by (simp add: init_video_stream_aes_ctr_def ctr_set_key_iv_ok video_stream_def Let_def)

text \<open>The audio cipher, and the short IV with which it leaves its buffer.\<close>

lemma decrypt_audio_data_ok:
  assumes L: "crypto_lib_ok L" and c: "crypto_ok c" and iv: "16 \<le> length (client_aes_iv c)"
    and le: "pos + 16 * n \<le> length buf"
  obtains buf' c' where "decrypt_audio_data L buf pos (16 * n) c = Returns (buf', c')"
    and "length buf' = length buf" and "crypto_ok c'" and "client_aes_iv c' = client_aes_iv c"
    and "client_aes_key c' = client_aes_key c"
    and "buf' = put buf pos (concat (cbc_dec_blocks (AES_decrypt L (Decrypt_key (take 16 (client_aes_key c))))
      (take 16 (client_aes_iv c)) (chop16 n (slice pos (16 * n) buf))))"
proof -
  define cs where "cs = chop16 n (slice pos (16 * n) buf)"
  define key where "key = Decrypt_key (take 16 (client_aes_key c))"
  define out where "out = concat (cbc_dec_blocks (AES_decrypt L key) (take 16 (client_aes_iv c)) cs)"
  have len: "length (slice pos (16 * n) buf) = 16 * n" using le by (simp add: slice_def)
  have cs: "concat cs = slice pos (16 * n) buf" "blocks16 cs" "length cs = n"
    using chop16(1,2) [OF len] by (simp_all add: cs_def chop16(3))
  have D: "length (AES_decrypt L key b) = 16" if "length b = 16" for b
    using crypto_lib_cipher [OF L] that by (simp add: block_cipher_def)
  have "holds_at buf pos (concat cs)" using le cs len by (simp add: holds_at_def)
  then have run: "cbc_decrypt_inplace (AES_decrypt L) key buf pos (16 * n) (take 16 (client_aes_iv c)) =
      Returns (put buf pos out, last (take 16 (client_aes_iv c) # cs))"
    using cbc_decrypt_inplace_blocks [of "AES_decrypt L" key cs "take 16 (client_aes_iv c)" buf pos] D cs iv
    by (simp add: out_def)
  have "length out = 16 * n"
    using blocks16_dec [of "AES_decrypt L key" cs "take 16 (client_aes_iv c)"] D cs iv
    by (simp add: out_def length_concat_blocks16)
  then have put: "length (put buf pos out) = length buf" using le by (simp add: length_put)
  have key16: "c_load (client_aes_key c) 0 16 = Returns (take 16 (client_aes_key c))"
    and iv16: "c_load (client_aes_iv c) 0 16 = Returns (take 16 (client_aes_iv c))"
    using c iv by (simp_all add: c_load_take crypto_ok_def)
  have "decrypt_audio_data L buf pos (16 * n) c = Returns (put buf pos out,
      c\<lparr>audio_stream_aes_cbc := (audio_stream_aes_cbc c)
        \<lparr>de_ctx := key, de_iv := last (take 16 (client_aes_iv c) # cs)\<rparr>\<rparr>)"
    using run by (simp add: decrypt_audio_data_def cbc_set_de_key_iv_def key16 iv16 cbc_decrypt_buffer_def
        flip: key_def)
  then show thesis
    by (rule that) (use c put in \<open>simp_all add: crypto_ok_def out_def key_def cs_def\<close>)
qed

lemma decrypt_audio_data_short_iv:
  assumes "crypto_ok c" and "length (client_aes_iv c) < 16"
  shows "decrypt_audio_data L buf pos len c = Undefined (Out_of_bounds 0 16)"
proof -
  have "c_load (client_aes_key c) 0 16 = Returns (take 16 (client_aes_key c))"
    using assms(1) by (simp add: c_load_take crypto_ok_def)
  moreover have "c_load (client_aes_iv c) 0 16 = Undefined (Out_of_bounds 0 16)"
    using assms(2) by (simp add: c_load_def)
  ultimately show ?thesis by (simp add: decrypt_audio_data_def cbc_set_de_key_iv_def)
qed

end
