(* ===== verification/Rtp_Packet.thy ===== *)
theory Rtp_Packet
  imports C_Machine
begin

text \<open>
  The packed packet headers of \<open>include/ap_types.h\<close> as the code overlays them on its byte buffers:
  a field is a segment of the buffer, read and written in the byte order of the (little-endian)
  host. The two bit fields of the second byte are the payload type and the marker.
\<close>

definition rtp_timing_query :: nat where "rtp_timing_query = 82"
definition rtp_timing_reply :: nat where "rtp_timing_reply = 83"
definition rtp_ctrl_timing_sync :: nat where "rtp_ctrl_timing_sync = 84"
definition rtp_ctrl_retransmit_request :: nat where "rtp_ctrl_retransmit_request = 85"
definition rtp_ctrl_retransmit_reply :: nat where "rtp_ctrl_retransmit_reply = 86"
definition rtp_audio_data :: nat where "rtp_audio_data = 96"

definition sizeof_rtp_packet_header :: nat where "sizeof_rtp_packet_header = 8"
definition sizeof_rtp_audio_data_packet :: nat where "sizeof_rtp_audio_data_packet = 12"
definition sizeof_rtp_control_sync_packet :: nat where "sizeof_rtp_control_sync_packet = 20"
definition sizeof_rtp_control_retransmit_reply_packet :: nat where
  "sizeof_rtp_control_retransmit_reply_packet = 16"
definition sizeof_rtp_timming_sync_packet :: nat where "sizeof_rtp_timming_sync_packet = 32"

definition payload_type :: "u8 list \<Rightarrow> nat" where
  "payload_type p = unat (p ! 1) mod 128"

definition marker :: "u8 list \<Rightarrow> nat" where
  "marker p = unat (p ! 1) div 128"

definition set_payload_type :: "nat \<Rightarrow> u8 list \<Rightarrow> u8 list" where
  "set_payload_type t p = p[1 := of_nat (unat (p ! 1) div 128 * 128 + t)]"

definition set_marker :: "nat \<Rightarrow> u8 list \<Rightarrow> u8 list" where
  "set_marker b p = p[1 := of_nat (b * 128 + unat (p ! 1) mod 128)]"

text \<open>A two, four or eight byte field in host order.\<close>

definition get16 :: "u8 list \<Rightarrow> nat \<Rightarrow> u16" where
  "get16 p i = word_of_nat (le_value (slice i 2 p))"

definition get32 :: "u8 list \<Rightarrow> nat \<Rightarrow> u32" where
  "get32 p i = word_of_nat (le_value (slice i 4 p))"

definition get64 :: "u8 list \<Rightarrow> nat \<Rightarrow> u64" where
  "get64 p i = word_of_nat (le_value (slice i 8 p))"

definition set16 :: "nat \<Rightarrow> u16 \<Rightarrow> u8 list \<Rightarrow> u8 list" where
  "set16 i v p = put p i (le_bytes 2 (unat v))"

definition set32 :: "nat \<Rightarrow> u32 \<Rightarrow> u8 list \<Rightarrow> u8 list" where
  "set32 i v p = put p i (le_bytes 4 (unat v))"

definition set64 :: "nat \<Rightarrow> u64 \<Rightarrow> u8 list \<Rightarrow> u8 list" where
  "set64 i v p = put p i (le_bytes 8 (unat v))"

definition rtp_sequence :: "u8 list \<Rightarrow> u16" where "rtp_sequence p = get16 p 2"
definition rtp_timestamp :: "u8 list \<Rightarrow> u32" where "rtp_timestamp p = get32 p 4"

text \<open>Converting the two fields of the common header in place, from network to host order.\<close>

definition header_to_host :: "u8 list \<Rightarrow> u8 list" where
  "header_to_host p =
     (let p = set16 2 (ntohs (rtp_sequence p)) p in set32 4 (ntohl (rtp_timestamp p)) p)"

lemmas rtp_defs = rtp_sequence_def rtp_timestamp_def get16_def get32_def get64_def
  set16_def set32_def set64_def

section \<open>Fields\<close>

lemma slice_put_same: "i + length ys \<le> length xs \<Longrightarrow> n = length ys \<Longrightarrow> slice i n (put xs i ys) = ys"
  by (simp add: slice_def put_def)

lemma slice_put_before:
  assumes "i + n \<le> j" and "j + length ys \<le> length xs"
  shows "slice i n (put xs j ys) = slice i n xs"
  using assms by (intro nth_equalityI) (auto simp: slice_def nth_put buffer_simps)

lemma slice_put_after:
  assumes "j + length ys \<le> i" and "j + length ys \<le> length xs"
  shows "slice i n (put xs j ys) = slice i n xs"
  using assms by (intro nth_equalityI) (auto simp: slice_def nth_put buffer_simps)

lemma length_set [simp]:
  "i + 2 \<le> length p \<Longrightarrow> length (set16 i v p) = length p"
  "i + 4 \<le> length p \<Longrightarrow> length (set32 i w p) = length p"
  "i + 8 \<le> length p \<Longrightarrow> length (set64 i x p) = length p"
  by (simp_all add: rtp_defs buffer_simps)

lemma bit_fields:
  "1 < length p \<Longrightarrow> t < 128 \<Longrightarrow> payload_type (set_payload_type t p) = t"
  "1 < length p \<Longrightarrow> t < 128 \<Longrightarrow> marker (set_payload_type t p) = marker p"
  "1 < length p \<Longrightarrow> b < 2 \<Longrightarrow> marker (set_marker b p) = b"
  "length (set_payload_type t p) = length p" "length (set_marker b p) = length p"
proof -
  have small: "a * 128 + c < 256" if "a < 2" "c < 128" for a c :: nat using that by simp
  have hi: "unat (x :: u8) div 128 < 2" for x
    using unat_u8_lt [of x] by (simp add: less_mult_imp_div_less)
  have pt: "(unat (x :: u8) div 128 * 128 + t) mod 256 = unat x div 128 * 128 + t" if "t < 128" for x t
    using small [OF hi that] by (rule mod_less)
  have mk: "(b * 128 + unat (x :: u8) mod 128) mod 256 = b * 128 + unat x mod 128" if "b < 2" for x b
    using small [OF that, of "unat x mod 128"] by (intro mod_less) simp
  show "1 < length p \<Longrightarrow> t < 128 \<Longrightarrow> payload_type (set_payload_type t p) = t"
    "1 < length p \<Longrightarrow> t < 128 \<Longrightarrow> marker (set_payload_type t p) = marker p"
    "1 < length p \<Longrightarrow> b < 2 \<Longrightarrow> marker (set_marker b p) = b"
    by (simp_all add: payload_type_def marker_def set_payload_type_def set_marker_def pt mk
        del: of_nat_add of_nat_mult)
qed (simp_all add: set_payload_type_def set_marker_def)

text \<open>A field is a segment; writing one leaves the others alone.\<close>

lemma slice_set_same:
  "i + 2 \<le> length p \<Longrightarrow> slice i 2 (set16 i v p) = le_bytes 2 (unat v)"
  "i + 4 \<le> length p \<Longrightarrow> slice i 4 (set32 i w p) = le_bytes 4 (unat w)"
  "i + 8 \<le> length p \<Longrightarrow> slice i 8 (set64 i x p) = le_bytes 8 (unat x)"
  by (simp_all add: set16_def set32_def set64_def slice_put_same)

lemma slice_set_other:
  "i + n \<le> j \<or> j + 2 \<le> i \<Longrightarrow> j + 2 \<le> length p \<Longrightarrow> slice i n (set16 j v p) = slice i n p"
  "i + n \<le> j \<or> j + 4 \<le> i \<Longrightarrow> j + 4 \<le> length p \<Longrightarrow> slice i n (set32 j w p) = slice i n p"
  "i + n \<le> j \<or> j + 8 \<le> i \<Longrightarrow> j + 8 \<le> length p \<Longrightarrow> slice i n (set64 j x p) = slice i n p"
  by (auto simp: set16_def set32_def set64_def slice_put_before slice_put_after)

lemma nth_set_before:
  "k < j \<Longrightarrow> j + 2 \<le> length p \<Longrightarrow> set16 j v p ! k = p ! k"
  "k < j \<Longrightarrow> j + 4 \<le> length p \<Longrightarrow> set32 j w p ! k = p ! k"
  "k < j \<Longrightarrow> j + 8 \<le> length p \<Longrightarrow> set64 j x p ! k = p ! k"
  by (simp_all add: set16_def set32_def set64_def nth_put)

lemma unat_word_bound:
  "unat (v16 :: u16) < 256 ^ 2" "unat (v32 :: u32) < 256 ^ 4" "unat (v64 :: u64) < 256 ^ 8"
  using unsigned_less [of v16, where 'a = nat] unsigned_less [of v32, where 'a = nat]
    unsigned_less [of v64, where 'a = nat] by simp_all

lemma get_set_same [simp]:
  "i + 2 \<le> length p \<Longrightarrow> get16 (set16 i v p) i = v"
  "i + 4 \<le> length p \<Longrightarrow> get32 (set32 i w p) i = w"
  "i + 8 \<le> length p \<Longrightarrow> get64 (set64 i x p) i = x"
  using unat_word_bound by (simp_all add: rtp_defs slice_put_same endian_simps)

lemma get_set_apart:
  "i + 2 \<le> j \<or> j + 2 \<le> i \<Longrightarrow> j + 2 \<le> length p \<Longrightarrow> get16 (set16 j v p) i = get16 p i"
  "i + 2 \<le> j \<or> j + 4 \<le> i \<Longrightarrow> j + 4 \<le> length p \<Longrightarrow> get16 (set32 j w p) i = get16 p i"
  "i + 2 \<le> j \<or> j + 8 \<le> i \<Longrightarrow> j + 8 \<le> length p \<Longrightarrow> get16 (set64 j x p) i = get16 p i"
  "i + 4 \<le> j \<or> j + 2 \<le> i \<Longrightarrow> j + 2 \<le> length p \<Longrightarrow> get32 (set16 j v p) i = get32 p i"
  "i + 4 \<le> j \<or> j + 4 \<le> i \<Longrightarrow> j + 4 \<le> length p \<Longrightarrow> get32 (set32 j w p) i = get32 p i"
  "i + 4 \<le> j \<or> j + 8 \<le> i \<Longrightarrow> j + 8 \<le> length p \<Longrightarrow> get32 (set64 j x p) i = get32 p i"
  "i + 8 \<le> j \<or> j + 2 \<le> i \<Longrightarrow> j + 2 \<le> length p \<Longrightarrow> get64 (set16 j v p) i = get64 p i"
  "i + 8 \<le> j \<or> j + 4 \<le> i \<Longrightarrow> j + 4 \<le> length p \<Longrightarrow> get64 (set32 j w p) i = get64 p i"
  "i + 8 \<le> j \<or> j + 8 \<le> i \<Longrightarrow> j + 8 \<le> length p \<Longrightarrow> get64 (set64 j x p) i = get64 p i"
  by (simp_all add: get16_def get32_def get64_def slice_set_other)

lemma length_header_to_host [simp]: "8 \<le> length p \<Longrightarrow> length (header_to_host p) = length p"
  by (simp add: header_to_host_def Let_def)

lemma get_set_other:
  "8 \<le> length q \<Longrightarrow> rtp_timestamp (set16 2 v q) = rtp_timestamp q"
  "8 \<le> length q \<Longrightarrow> rtp_sequence (set32 4 w q) = rtp_sequence q"
  by (simp_all add: rtp_defs slice_put_before slice_put_after)

lemma sequence_to_host [simp]: "8 \<le> length p \<Longrightarrow> rtp_sequence (header_to_host p) = ntohs (rtp_sequence p)"
  by (simp add: header_to_host_def Let_def get_set_other) (simp add: rtp_sequence_def)

lemma timestamp_to_host [simp]: "8 \<le> length p \<Longrightarrow> rtp_timestamp (header_to_host p) = ntohl (rtp_timestamp p)"
  by (simp add: header_to_host_def Let_def get_set_other) (simp add: rtp_timestamp_def get_set_other [unfolded rtp_timestamp_def])

lemma payload_type_to_host [simp]: "8 \<le> length p \<Longrightarrow> payload_type (header_to_host p) = payload_type p"
  by (simp add: payload_type_def header_to_host_def rtp_defs Let_def nth_put buffer_simps)

lemma drop_to_host [simp]: "8 \<le> length p \<Longrightarrow> drop 8 (header_to_host p) = drop 8 p"
  by (intro nth_equalityI) (auto simp: header_to_host_def rtp_defs Let_def nth_put buffer_simps)

lemma sequence_prefix: "4 \<le> n \<Longrightarrow> rtp_sequence (take n p) = rtp_sequence p"
  by (simp add: rtp_defs slice_def drop_take min_def)

end
