(* ===== verification/Priority_Queue.thy ===== *)
theory Priority_Queue
  imports Main "HOL-Library.Multiset"
begin

text \<open>
  What the code relies on of \<open>std::priority_queue\<close> with a comparison that makes \<open>top\<close> a smallest
  element: an interface over the bag of the elements, what draining the queue yields, and the
  sorted list as an implementation. The standard leaves open which of several smallest elements is
  the top; the sorted list takes the latest.
\<close>

locale priority_queue =
  fixes key :: "'a \<Rightarrow> 'k::linorder" and valid :: "'q \<Rightarrow> bool" and bag :: "'q \<Rightarrow> 'a multiset"
    and empty_queue :: 'q and push :: "'a \<Rightarrow> 'q \<Rightarrow> 'q" and top :: "'q \<Rightarrow> 'a" and pop :: "'q \<Rightarrow> 'q"
  assumes empty_law: "valid empty_queue" "bag empty_queue = {#}"
    and push_law: "valid q \<Longrightarrow> valid (push x q)" "valid q \<Longrightarrow> bag (push x q) = add_mset x (bag q)"
    and top_law: "valid q \<Longrightarrow> bag q \<noteq> {#} \<Longrightarrow> top q \<in># bag q"
      "valid q \<Longrightarrow> x \<in># bag q \<Longrightarrow> key (top q) \<le> key x"
    and pop_law: "valid q \<Longrightarrow> bag q \<noteq> {#} \<Longrightarrow> valid (pop q)"
      "valid q \<Longrightarrow> bag q \<noteq> {#} \<Longrightarrow> bag (pop q) = bag q - {#top q#}"
begin

fun drain :: "nat \<Rightarrow> 'q \<Rightarrow> 'a list" where
  "drain 0 q = []"
| "drain (Suc n) q = top q # drain n (pop q)"

lemma pop_size: "valid q \<Longrightarrow> size (bag q) = Suc n \<Longrightarrow> size (bag (pop q)) = n"
  using pop_law(2) [of q] top_law(1) [of q] by (cases "bag q = {#}") (auto simp: size_Diff_singleton)

lemma drain_bag: "valid q \<Longrightarrow> size (bag q) = n \<Longrightarrow> mset (drain n q) = bag q"
proof (induction n arbitrary: q)
  case (Suc n)
  then have "bag q \<noteq> {#}" by auto
  with Suc show ?case using pop_law [of q] top_law(1) [of q] pop_size [of q n] by simp
qed simp

lemma drain_sorted: "valid q \<Longrightarrow> size (bag q) = n \<Longrightarrow> sorted (map key (drain n q))"
proof (induction n arbitrary: q)
  case (Suc n)
  then have ne: "bag q \<noteq> {#}" by auto
  have "set (drain n (pop q)) = set_mset (bag (pop q))"
    using Suc.prems ne pop_law(1) pop_size drain_bag by (metis set_mset_mset)
  moreover have "set_mset (bag (pop q)) \<subseteq> set_mset (bag q)"
    using Suc.prems ne pop_law(2) [of q] by (auto dest: in_diffD)
  ultimately show ?case
    using Suc ne pop_law(1) [of q] pop_size [of q n] top_law(2) [of q] by auto
qed simp

end

section \<open>Sorted lists\<close>

definition queue_push :: "('a \<Rightarrow> 'k::linorder) \<Rightarrow> 'a \<Rightarrow> 'a list \<Rightarrow> 'a list" where
  "queue_push key x q = insort_key key x q"

definition queue_valid :: "('a \<Rightarrow> 'k::linorder) \<Rightarrow> 'a list \<Rightarrow> bool" where
  "queue_valid key q \<longleftrightarrow> sorted (map key q)"

interpretation sorted_list: priority_queue key "queue_valid key" mset "[]" "queue_push key" hd tl
  for key :: "'a \<Rightarrow> 'k::linorder"
proof
  show "hd q \<in># mset q" if "mset q \<noteq> {#}" for q :: "'a list" using that by (cases q) auto
  show "key (hd q) \<le> key x" if "queue_valid key q" "x \<in># mset q" for q x
    using that by (cases q) (auto simp: queue_valid_def)
  show "queue_valid key (tl q)" if "queue_valid key q" "mset q \<noteq> {#}" for q
    using that by (cases q) (auto simp: queue_valid_def)
  show "mset (tl q) = mset q - {#hd q#}" if "mset q \<noteq> {#}" for q :: "'a list" using that by (cases q) auto
qed (simp_all add: queue_valid_def queue_push_def sorted_insort_key)

lemma drain_list: "length q = n \<Longrightarrow> sorted_list.drain n q = q"
  by (induction n arbitrary: q) (auto simp: length_Suc_conv)

end
