(* ===== verification/Audio_Stream.thy ===== *)
theory Audio_Stream
  imports Ap_Crypto Rtp_Packet Priority_Queue
begin

text \<open>
  The audio stream of a mirroring session: \<open>audio_udp_service\<close> and
  \<open>ap_mirroring_audio_stream_service\<close> of \<open>src/service/ap_mirroring_audio_stream_service.cpp\<close>. A
  datagram lies at the front of the receive buffer; its header is converted in place and its payload
  decrypted in place. Packets that come early wait in a queue ordered by sequence number. What the
  code hands to the session handler is a list of events.
\<close>

definition RTP_PACKET_MAX_LEN :: nat where "RTP_PACKET_MAX_LEN = 2048"
definition RTP_PACKET_MIN_LEN :: nat where "RTP_PACKET_MIN_LEN = 12"
definition MAX_CACHED_PACKET_SIZE :: nat where "MAX_CACHED_PACKET_SIZE = 10"

record cached_packet =
  sequence :: u16
  data :: "u8 list"

type_synonym cached_packet_queue = "cached_packet list"

record audio_service =
  handler_bound :: bool
  audio_crypto :: ap_crypto
  expected_seq :: u16
  cached_queue :: cached_packet_queue

definition new_audio_service :: "ap_crypto \<Rightarrow> bool \<Rightarrow> audio_service" where
  "new_audio_service c h = \<lparr>handler_bound = h, audio_crypto = c, expected_seq = 0, cached_queue = []\<rparr>"

text \<open>\<open>on_audio_stream_data(packet, payload_length)\<close>: the packet as it is in memory then.\<close>

datatype audio_event = Audio_data "u8 list" nat

definition audio_data_packet :: "crypto_lib \<Rightarrow> u8 list \<Rightarrow> nat \<Rightarrow> audio_service
    \<Rightarrow> (u8 list \<times> audio_service \<times> audio_event list) c_run" where
  "audio_data_packet L packet len s =
     (if handler_bound s then
        (let payload_length = nat ((int len - int sizeof_rtp_audio_data_packet) mod 2 ^ 32);
             encrypted_length = payload_length div 16 * 16 in
         c_bind (if encrypted_length \<noteq> 0
                 then c_bind (decrypt_audio_data L packet sizeof_rtp_audio_data_packet encrypted_length (audio_crypto s))
                   (\<lambda>(packet, c). Returns (packet, s\<lparr>audio_crypto := c\<rparr>))
                 else Returns (packet, s)) (\<lambda>(packet, s).
         Returns (packet, s, [Audio_data packet payload_length])))
      else Returns (packet, s, []))"

definition cache_packet :: "u16 \<Rightarrow> u8 list \<Rightarrow> nat \<Rightarrow> audio_service \<Rightarrow> audio_service c_run" where
  "cache_packet seq buf len s =
     c_bind (c_load buf 0 len) (\<lambda>bytes.
       Returns (s\<lparr>cached_queue := queue_push sequence \<lparr>sequence = seq, data = bytes\<rparr> (cached_queue s)\<rparr>))"

lemma audio_data_packet_frame:
  assumes "audio_data_packet L packet len s = Returns (packet', s', evs)"
  shows "cached_queue s' = cached_queue s" and "expected_seq s' = expected_seq s"
    and "handler_bound s' = handler_bound s"
  using assms by (auto simp: audio_data_packet_def Let_def split: if_splits)

function process_cached_packet :: "crypto_lib \<Rightarrow> bool \<Rightarrow> audio_service
    \<Rightarrow> (audio_service \<times> audio_event list) c_run" where
  "process_cached_packet L flush s =
     (case cached_queue s of
        [] \<Rightarrow> Returns (s, [])
      | p # rest \<Rightarrow>
          if flush \<or> sequence p = expected_seq s then
            c_bind (audio_data_packet L (data p) (length (data p)) (s\<lparr>cached_queue := rest\<rparr>)) (\<lambda>(packet, s, evs).
            c_bind (process_cached_packet L flush (s\<lparr>expected_seq := sequence p + 1\<rparr>)) (\<lambda>(s, evs').
              Returns (s, evs @ evs')))
          else Returns (s, []))"
  by pat_completeness auto
termination
  by (relation "measure (\<lambda>(L, flush, s). length (cached_queue s))") (auto dest: audio_data_packet_frame)

declare process_cached_packet.simps [simp del]

text \<open>The receive handlers: a datagram of \<open>bytes_transferred\<close> bytes lies at the front of \<open>buf\<close>.\<close>

definition data_handler :: "crypto_lib \<Rightarrow> u8 list \<Rightarrow> socket_error option \<Rightarrow> nat \<Rightarrow> audio_service
    \<Rightarrow> (u8 list \<times> audio_service \<times> audio_event list) c_run" where
  "data_handler L buf e bytes_transferred s =
     (if e \<noteq> None \<or> bytes_transferred < RTP_PACKET_MIN_LEN then Returns (buf, s, [])
      else
        let buf = header_to_host buf; seq = rtp_sequence buf in
        if payload_type buf \<noteq> rtp_audio_data then Returns (buf, s, [])
        else
          let s = (if expected_seq s = 0 then s\<lparr>expected_seq := seq\<rparr> else s) in
          if seq = expected_seq s then
            c_bind (audio_data_packet L buf bytes_transferred s) (\<lambda>(buf, s, evs).
            c_bind (process_cached_packet L False (s\<lparr>expected_seq := rtp_sequence buf + 1\<rparr>)) (\<lambda>(s, evs').
              Returns (buf, s, evs @ evs')))
          else if expected_seq s < seq then
            if length (cached_queue s) < MAX_CACHED_PACKET_SIZE then
              c_bind (cache_packet seq buf bytes_transferred s) (\<lambda>s. Returns (buf, s, []))
            else
              c_bind (process_cached_packet L True s) (\<lambda>(s, evs). Returns (buf, s, evs))
          else Returns (buf, s, []))"

datatype control_event = Control_sync | Control_retransmit | Unknown_control

definition control_handler :: "u8 list \<Rightarrow> socket_error option \<Rightarrow> nat \<Rightarrow> u8 list \<times> control_event list" where
  "control_handler buf e bytes_transferred =
     (if e \<noteq> None \<or> bytes_transferred < RTP_PACKET_MIN_LEN then (buf, [])
      else
        let buf = header_to_host buf in
        if payload_type buf = rtp_ctrl_timing_sync \<and> bytes_transferred = sizeof_rtp_control_sync_packet
        then (buf, [Control_sync])
        else if payload_type buf = rtp_ctrl_retransmit_reply \<and>
                bytes_transferred = sizeof_rtp_control_retransmit_reply_packet
        then (buf, [Control_retransmit])
        else (buf, [Unknown_control]))"

text \<open>
  A UDP socket of the service: the handler it is bound to runs, then the next datagram is asked for,
  unless the library reported an error.
\<close>

datatype udp_action = Post_recv_from | Log_socket_error

definition udp_handle_socket_error :: "socket_error \<Rightarrow> udp_action list" where
  "udp_handle_socket_error e = (case e of Eof \<Rightarrow> [] | Other_error _ \<Rightarrow> [Log_socket_error])"

definition on_recv_from :: "(u8 list \<Rightarrow> socket_error option \<Rightarrow> nat \<Rightarrow> 's \<Rightarrow> (u8 list \<times> 's \<times> 'ev list) c_run) option
    \<Rightarrow> u8 list \<Rightarrow> socket_error option \<Rightarrow> nat \<Rightarrow> 's \<Rightarrow> (u8 list \<times> 's \<times> 'ev list \<times> udp_action list) c_run" where
  "on_recv_from recv_from_handler recv_buf e bytes_transferred s =
     c_bind (case recv_from_handler of
               Some h \<Rightarrow> h recv_buf e bytes_transferred s
             | None \<Rightarrow> Returns (recv_buf, s, [])) (\<lambda>(recv_buf, s, evs).
     Returns (recv_buf, s, evs, case e of Some e \<Rightarrow> udp_handle_socket_error e | None \<Rightarrow> [Post_recv_from]))"

text \<open>Opening and closing the two sockets, by whether the library can open each.\<close>

definition audio_start :: "bool \<Rightarrow> bool \<Rightarrow> bool \<times> bool \<times> bool" where
  "audio_start data_opens control_opens =
     (if \<not> data_opens then (False, False, False)
      else if \<not> control_opens then (False, False, False)
      else (True, True, True))"

text \<open>Datagrams one after the other, each at the front of a fresh receive buffer.\<close>

fun receive_all :: "crypto_lib \<Rightarrow> u8 list list \<Rightarrow> audio_service \<Rightarrow> (audio_service \<times> audio_event list) c_run" where
  "receive_all L [] s = Returns (s, [])"
| "receive_all L (d # ds) s =
     c_bind (data_handler L (d @ replicate (RTP_PACKET_MAX_LEN - length d) 0) None (length d) s) (\<lambda>(buf, s, evs).
     c_bind (receive_all L ds s) (\<lambda>(s, evs'). Returns (s, evs @ evs')))"

section \<open>One packet\<close>

text \<open>
  The packet as the session handler sees it: the whole blocks of its payload decrypted with the
  session key and IV, which no packet changes.
\<close>

definition plain_packet :: "crypto_lib \<Rightarrow> ap_crypto \<Rightarrow> u8 list \<Rightarrow> nat \<Rightarrow> u8 list" where
  "plain_packet L c packet len =
     (let n = (len - 12) div 16 in
      put packet 12 (concat (cbc_dec_blocks (AES_decrypt L (Decrypt_key (take 16 (client_aes_key c))))
        (take 16 (client_aes_iv c)) (chop16 n (slice 12 (16 * n) packet)))))"

definition delivery :: "crypto_lib \<Rightarrow> ap_crypto \<Rightarrow> u8 list \<Rightarrow> nat \<Rightarrow> audio_event" where
  "delivery L c packet len = Audio_data (plain_packet L c packet len) (len - 12)"

definition audio_crypto_ok :: "ap_crypto \<Rightarrow> bool" where
  "audio_crypto_ok c \<longleftrightarrow> crypto_ok c \<and> 16 \<le> length (client_aes_iv c)"

definition same_audio_keys :: "ap_crypto \<Rightarrow> ap_crypto \<Rightarrow> bool" where
  "same_audio_keys c c' \<longleftrightarrow> (audio_crypto_ok c \<longrightarrow> audio_crypto_ok c') \<and>
     client_aes_key c' = client_aes_key c \<and> client_aes_iv c' = client_aes_iv c"

lemma same_audio_keys_refl [simp]: "same_audio_keys c c"
  by (simp add: same_audio_keys_def)

lemma same_audio_keys_trans: "same_audio_keys c c' \<Longrightarrow> same_audio_keys c' c'' \<Longrightarrow> same_audio_keys c c''"
  by (simp add: same_audio_keys_def)

lemma same_audio_keysD:
  "same_audio_keys c c' \<Longrightarrow> delivery L c' packet len = delivery L c packet len"
  "same_audio_keys c c' \<Longrightarrow> audio_crypto_ok c \<Longrightarrow> audio_crypto_ok c'"
  by (simp_all add: same_audio_keys_def delivery_def plain_packet_def)

lemma audio_data_packet_ok:
  assumes L: "crypto_lib_ok L" and c: "audio_crypto_ok (audio_crypto s)" and h: "handler_bound s"
    and len: "12 \<le> len" "len \<le> length packet" "len < 2 ^ 32"
  obtains c' where "same_audio_keys (audio_crypto s) c'"
    and "audio_data_packet L packet len s =
      Returns (plain_packet L (audio_crypto s) packet len, s\<lparr>audio_crypto := c'\<rparr>,
        [delivery L (audio_crypto s) packet len])"
    and "length (plain_packet L (audio_crypto s) packet len) = length packet"
proof -
  define n where "n = (len - 12) div 16"
  have n16: "(len - 12) div 16 * 16 = 16 * n" by (simp add: n_def)
  have "16 * n \<le> len - 12" by (simp add: n_def)
  then have le: "12 + 16 * n \<le> length packet" using len by linarith
  have pl: "nat ((int len - 12) mod 2 ^ 32) = len - 12" "nat (int len - 12) = len - 12"
    using len by (simp_all add: nat_diff_distrib)
  have iv: "16 \<le> length (client_aes_iv (audio_crypto s))" and ok: "crypto_ok (audio_crypto s)"
    using c by (simp_all add: audio_crypto_ok_def)
  obtain buf' c' where run: "decrypt_audio_data L packet 12 (16 * n) (audio_crypto s) = Returns (buf', c')"
    and keep: "length buf' = length packet" "crypto_ok c'"
      "client_aes_iv c' = client_aes_iv (audio_crypto s)" "client_aes_key c' = client_aes_key (audio_crypto s)"
    and buf': "buf' = plain_packet L (audio_crypto s) packet len"
    using decrypt_audio_data_ok [OF L ok iv le] unfolding plain_packet_def n_def Let_def by metis
  show thesis
  proof (cases "n = 0")
    case True
    then have "plain_packet L (audio_crypto s) packet len = packet" by (simp add: plain_packet_def flip: n_def)
    then show thesis
      by (intro that [of "audio_crypto s"])
         (use h pl n16 True in \<open>simp_all add: audio_data_packet_def sizeof_rtp_audio_data_packet_def Let_def delivery_def\<close>)
  next
    case False
    then show thesis
      by (intro that [of c'])
         (use h pl n16 run keep iv in \<open>simp_all add: audio_data_packet_def sizeof_rtp_audio_data_packet_def
            Let_def delivery_def same_audio_keys_def audio_crypto_ok_def mult.commute flip: buf'\<close>)
  qed
qed

lemma plain_packet_header:
  assumes "12 \<le> length packet" and "length (plain_packet L c packet len) = length packet"
  shows "rtp_sequence (plain_packet L c packet len) = rtp_sequence packet"
proof -
  have "take 12 (plain_packet L c packet len) = take 12 packet"
    using assms(1) by (simp add: plain_packet_def put_def Let_def)
  then show ?thesis
    using sequence_prefix [of 12 packet] sequence_prefix [of 12 "plain_packet L c packet len"] by simp
qed

section \<open>The queue\<close>

definition cached_ok :: "cached_packet \<Rightarrow> bool" where
  "cached_ok p \<longleftrightarrow> 12 \<le> length (data p) \<and> length (data p) \<le> RTP_PACKET_MAX_LEN \<and> rtp_sequence (data p) = sequence p"

definition audio_ok :: "audio_service \<Rightarrow> bool" where
  "audio_ok s \<longleftrightarrow> audio_crypto_ok (audio_crypto s) \<and> handler_bound s \<and>
     queue_valid sequence (cached_queue s) \<and> list_all cached_ok (cached_queue s) \<and>
     length (cached_queue s) \<le> MAX_CACHED_PACKET_SIZE"

definition cached_delivery :: "crypto_lib \<Rightarrow> ap_crypto \<Rightarrow> cached_packet \<Rightarrow> audio_event" where
  "cached_delivery L c p = delivery L c (data p) (length (data p))"

text \<open>How many packets at the front of the queue continue at \<open>e\<close>.\<close>

fun run_length :: "u16 \<Rightarrow> cached_packet list \<Rightarrow> nat" where
  "run_length e [] = 0"
| "run_length e (p # q) = (if sequence p = e then Suc (run_length (e + 1) q) else 0)"

definition after_run :: "bool \<Rightarrow> u16 \<Rightarrow> cached_packet list \<Rightarrow> u16" where
  "after_run flush e q =
     (if flush then (if q = [] then e else sequence (last q) + 1) else e + of_nat (run_length e q))"

lemma process_cached_packet_ok:
  assumes "crypto_lib_ok L"
  shows "audio_crypto_ok (audio_crypto s) \<Longrightarrow> handler_bound s \<Longrightarrow> list_all cached_ok (cached_queue s) \<Longrightarrow>
    \<exists>c'. same_audio_keys (audio_crypto s) c' \<and>
      process_cached_packet L flush s =
        (let q = cached_queue s; k = (if flush then length q else run_length (expected_seq s) q) in
         Returns (s\<lparr>audio_crypto := c', expected_seq := after_run flush (expected_seq s) q,
             cached_queue := drop k q\<rparr>,
           map (cached_delivery L (audio_crypto s)) (take k q)))"
proof (induction "cached_queue s" arbitrary: s)
  case Nil
  then show ?case
    by (intro exI [of _ "audio_crypto s"])
       (simp add: process_cached_packet.simps [of L flush s] after_run_def flip: Nil.hyps)
next
  case (Cons p q)
  note q = Cons.hyps(2) [symmetric]
  show ?case
  proof (cases "flush \<or> sequence p = expected_seq s")
    case False
    then have "process_cached_packet L flush s = Returns (s, [])"
      by (subst process_cached_packet.simps) (simp add: q)
    moreover have "s = s\<lparr>audio_crypto := audio_crypto s, expected_seq := expected_seq s, cached_queue := p # q\<rparr>"
      by (rule audio_service.equality) (simp_all add: q)
    ultimately show ?thesis
      using False by (intro exI [of _ "audio_crypto s"]) (simp add: after_run_def q)
  next
    case True
    have len: "12 \<le> length (data p)" "length (data p) < 2 ^ 32"
      using Cons.prems(3) q by (auto simp: cached_ok_def RTP_PACKET_MAX_LEN_def)
    obtain c1 where same: "same_audio_keys (audio_crypto s) c1"
      and run: "audio_data_packet L (data p) (length (data p)) (s\<lparr>cached_queue := q\<rparr>) =
        Returns (plain_packet L (audio_crypto s) (data p) (length (data p)),
          s\<lparr>cached_queue := q, audio_crypto := c1\<rparr>, [cached_delivery L (audio_crypto s) p])"
      using audio_data_packet_ok [OF assms, of "s\<lparr>cached_queue := q\<rparr>" "length (data p)" "data p"]
        Cons.prems len by (auto simp: cached_delivery_def)
    define s1 where "s1 = s\<lparr>cached_queue := q, audio_crypto := c1, expected_seq := sequence p + 1\<rparr>"
    obtain c2 where same2: "same_audio_keys c1 c2"
      and run2: "process_cached_packet L flush s1 =
        (let k = (if flush then length q else run_length (sequence p + 1) q) in
         Returns (s1\<lparr>audio_crypto := c2, expected_seq := after_run flush (sequence p + 1) q,
             cached_queue := drop k q\<rparr>, map (cached_delivery L c1) (take k q)))"
      using Cons.hyps(1) [of s1] Cons.prems q same by (auto simp: s1_def same_audio_keysD)
    have "cached_delivery L c1 = cached_delivery L (audio_crypto s)"
      using same by (intro ext) (simp add: cached_delivery_def same_audio_keysD)
    moreover have "after_run flush (sequence p + 1) q = after_run flush (expected_seq s) (p # q)"
      using True by (auto simp: after_run_def)
    ultimately show ?thesis
      using True run run2 same_audio_keys_trans [OF same same2]
      by (intro exI [of _ c2])
         (auto simp: process_cached_packet.simps [of L flush s] q s1_def Let_def)
  qed
qed

end
