(* ===== verification/Audio_Reorder.thy ===== *)
theory Audio_Reorder
  imports Audio_Stream
begin

text \<open>
  The reordering of the audio packets as an abstract machine over sequence numbers (the number
  expected next and the sorted numbers that wait), the proof that the receive handler implements
  it, and what the machine does for packets that arrive slightly out of order, too late, or twice.
\<close>

section \<open>The abstract machine\<close>

fun run_from :: "u16 \<Rightarrow> u16 list \<Rightarrow> nat" where
  "run_from e [] = 0"
| "run_from e (x # w) = (if x = e then Suc (run_from (e + 1) w) else 0)"

definition reorder :: "u16 \<Rightarrow> u16 \<times> u16 list \<Rightarrow> (u16 \<times> u16 list) \<times> u16 list" where
  "reorder seq st =
     (let (e, w) = st; e = (if e = 0 then seq else e) in
      if seq = e then (let k = run_from (e + 1) w in ((e + 1 + of_nat k, drop k w), e # take k w))
      else if e < seq then
        if length w < 10 then ((e, insort seq w), []) else ((last w + 1, []), w)
      else ((e, w), []))"

fun reorder_all :: "u16 list \<Rightarrow> u16 \<times> u16 list \<Rightarrow> (u16 \<times> u16 list) \<times> u16 list" where
  "reorder_all [] st = (st, [])"
| "reorder_all (x # xs) st =
     (let (st, out) = reorder x st; (st, out') = reorder_all xs st in (st, out @ out'))"

definition abs_queue :: "audio_service \<Rightarrow> u16 \<times> u16 list" where
  "abs_queue s = (expected_seq s, map sequence (cached_queue s))"

fun event_seq :: "audio_event \<Rightarrow> u16" where
  "event_seq (Audio_data packet n) = rtp_sequence packet"

definition wire_seq :: "u8 list \<Rightarrow> u16" where
  "wire_seq d = ntohs (rtp_sequence d)"

definition audio_datagram :: "u8 list \<Rightarrow> bool" where
  "audio_datagram d \<longleftrightarrow> 12 \<le> length d \<and> length d \<le> RTP_PACKET_MAX_LEN \<and> payload_type d = rtp_audio_data"

lemma reorder_next:
  "x = e \<or> e = 0 \<Longrightarrow> reorder x (e, w) =
    ((x + 1 + of_nat (run_from (x + 1) w), drop (run_from (x + 1) w) w), x # take (run_from (x + 1) w) w)"
  by (auto simp: reorder_def Let_def)

lemma reorder_early:
  "e \<noteq> 0 \<Longrightarrow> e < x \<Longrightarrow> length w < 10 \<Longrightarrow> reorder x (e, w) = ((e, insort x w), [])"
  by (auto simp: reorder_def Let_def)

lemma reorder_flush:
  "e \<noteq> 0 \<Longrightarrow> e < x \<Longrightarrow> \<not> length w < 10 \<Longrightarrow> reorder x (e, w) = ((last w + 1, []), w)"
  by (auto simp: reorder_def Let_def)

lemma reorder_late: "x < e \<Longrightarrow> reorder x (e, w) = ((e, w), [])"
  by (auto simp: reorder_def Let_def)

lemmas reorder_cases = reorder_next reorder_early reorder_flush reorder_late

section \<open>Implementation\<close>

lemma run_from_map: "run_from e (map sequence q) = run_length e q"
  by (induction q arbitrary: e) auto

lemma cached_delivery_seq:
  assumes "crypto_lib_ok L" "audio_crypto_ok c" "cached_ok p"
  shows "event_seq (cached_delivery L c p) = sequence p"
proof -
  have len: "12 \<le> length (data p)" "length (data p) < 2 ^ 32" and seq: "rtp_sequence (data p) = sequence p"
    using assms(3) by (auto simp: cached_ok_def RTP_PACKET_MAX_LEN_def)
  let ?s = "\<lparr>handler_bound = True, audio_crypto = c, expected_seq = 0, cached_queue = []\<rparr>"
  have "length (plain_packet L c (data p) (length (data p))) = length (data p)"
    using audio_data_packet_ok [OF assms(1), of ?s "length (data p)" "data p"] assms(2) len by auto
  then show ?thesis
    using plain_packet_header [of "data p"] len seq by (simp add: cached_delivery_def delivery_def)
qed

lemma cached_deliveries_seq:
  assumes "crypto_lib_ok L" "audio_crypto_ok c" "list_all cached_ok q"
  shows "map event_seq (map (cached_delivery L c) q) = map sequence q"
  using assms(3) by (induction q) (simp_all add: cached_delivery_seq [OF assms(1,2)])

definition in_buffer :: "u8 list \<Rightarrow> u8 list" where
  "in_buffer d = header_to_host (d @ replicate (RTP_PACKET_MAX_LEN - length d) 0)"

lemma in_buffer:
  assumes "audio_datagram d"
  shows "length (in_buffer d) = RTP_PACKET_MAX_LEN" and "rtp_sequence (in_buffer d) = wire_seq d"
    and "payload_type (in_buffer d) = rtp_audio_data"
proof -
  have len: "12 \<le> length d" "length d \<le> RTP_PACKET_MAX_LEN" and pt: "payload_type d = rtp_audio_data"
    using assms by (auto simp: audio_datagram_def)
  let ?b = "d @ replicate (RTP_PACKET_MAX_LEN - length d) 0"
  have seq: "rtp_sequence ?b = rtp_sequence d"
    using sequence_prefix [of "length d" ?b] len by simp
  have "payload_type ?b = payload_type d" using len by (simp add: payload_type_def nth_append)
  then show "length (in_buffer d) = RTP_PACKET_MAX_LEN" "rtp_sequence (in_buffer d) = wire_seq d"
    "payload_type (in_buffer d) = rtp_audio_data"
    using len pt seq by (simp_all add: in_buffer_def wire_seq_def)
qed

text \<open>The delivery of a datagram that is not cached, and of one that has waited.\<close>

definition packet_of :: "u8 list \<Rightarrow> cached_packet" where
  "packet_of d = \<lparr>sequence = wire_seq d, data = take (length d) (in_buffer d)\<rparr>"

lemma packet_of_ok: "audio_datagram d \<Longrightarrow> cached_ok (packet_of d)"
  using in_buffer [of d]
  by (auto simp: cached_ok_def packet_of_def audio_datagram_def sequence_prefix)

lemma list_all_insort: "list_all P (insort_key f x q) \<longleftrightarrow> P x \<and> list_all P q"
  by (simp add: list_all_iff set_insort_key)

lemma map_insort_key: "map f (insort_key f x q) = insort (f x) (map f q)"
  by (induction q) auto

lemma data_handler_next:
  assumes L: "crypto_lib_ok L" and s: "audio_ok s" and d: "audio_datagram d"
    and seq: "wire_seq d = expected_seq s \<or> expected_seq s = 0"
  obtains buf c' where "same_audio_keys (audio_crypto s) c'"
    and "data_handler L (d @ replicate (RTP_PACKET_MAX_LEN - length d) 0) None (length d) s =
      (let q = cached_queue s; e = wire_seq d + 1; k = run_length e q in
       Returns (buf, s\<lparr>audio_crypto := c', expected_seq := e + of_nat k, cached_queue := drop k q\<rparr>,
         delivery L (audio_crypto s) (in_buffer d) (length d) #
         map (cached_delivery L (audio_crypto s)) (take k q)))"
    and "event_seq (delivery L (audio_crypto s) (in_buffer d) (length d)) = wire_seq d"
proof -
  let ?c = "audio_crypto s"
  define s0 where "s0 = s\<lparr>expected_seq := wire_seq d\<rparr>"
  have len: "12 \<le> length d" "length d \<le> length (in_buffer d)" "length d < 2 ^ 32"
    "12 \<le> length (in_buffer d)"
    using d in_buffer [OF d] by (auto simp: audio_datagram_def RTP_PACKET_MAX_LEN_def)
  obtain c1 where same: "same_audio_keys ?c c1" and run: "audio_data_packet L (in_buffer d) (length d) s0 =
      Returns (plain_packet L ?c (in_buffer d) (length d), s0\<lparr>audio_crypto := c1\<rparr>,
        [delivery L ?c (in_buffer d) (length d)])"
    and plain: "length (plain_packet L ?c (in_buffer d) (length d)) = length (in_buffer d)"
    using audio_data_packet_ok [OF L, of s0 "length d" "in_buffer d"] s len by (auto simp: audio_ok_def s0_def)
  have hdr: "rtp_sequence (plain_packet L ?c (in_buffer d) (length d)) = wire_seq d"
    using plain_packet_header [OF len(4) plain] in_buffer [OF d] by simp
  define s1 where "s1 = s0\<lparr>audio_crypto := c1, expected_seq := wire_seq d + 1\<rparr>"
  obtain c2 where same2: "same_audio_keys c1 c2" and run2: "process_cached_packet L False s1 =
      (let q = cached_queue s; k = run_length (wire_seq d + 1) q in
       Returns (s1\<lparr>audio_crypto := c2, expected_seq := wire_seq d + 1 + of_nat k, cached_queue := drop k q\<rparr>,
         map (cached_delivery L ?c) (take k q)))"
  proof -
    have "cached_delivery L c1 = cached_delivery L ?c"
      using same by (intro ext) (simp add: cached_delivery_def same_audio_keysD)
    then show thesis
      using process_cached_packet_ok [OF L, of s1 False] s same that
      by (auto simp: s1_def s0_def audio_ok_def same_audio_keysD after_run_def Let_def)
  qed
  have s0: "(if expected_seq s = 0 then s\<lparr>expected_seq := wire_seq d\<rparr> else s) = s0"
    using seq by (auto simp: s0_def)
  have e0: "expected_seq s0 = wire_seq d" by (simp add: s0_def)
  have long: "(length d < RTP_PACKET_MIN_LEN) = False" using len(1) by (simp add: RTP_PACKET_MIN_LEN_def)
  have "data_handler L (d @ replicate (RTP_PACKET_MAX_LEN - length d) 0) None (length d) s =
      c_bind (audio_data_packet L (in_buffer d) (length d) s0) (\<lambda>(buf, s, evs).
      c_bind (process_cached_packet L False (s\<lparr>expected_seq := rtp_sequence buf + 1\<rparr>)) (\<lambda>(s, evs').
        Returns (buf, s, evs @ evs')))"
    unfolding data_handler_def in_buffer_def [symmetric] Let_def
    by (simp only: in_buffer [OF d] s0 e0 long if_True if_False simp_thms)
  also have "\<dots> = (let q = cached_queue s; e = wire_seq d + 1; k = run_length e q in
       Returns (plain_packet L ?c (in_buffer d) (length d),
         s\<lparr>audio_crypto := c2, expected_seq := e + of_nat k, cached_queue := drop k q\<rparr>,
         delivery L ?c (in_buffer d) (length d) # map (cached_delivery L ?c) (take k q)))"
    by (simp add: run hdr run2 Let_def flip: s1_def) (simp add: s1_def s0_def)
  finally show thesis
    using same_audio_keys_trans [OF same same2] hdr by (intro that) (simp_all add: delivery_def)
qed

lemma data_handler_early:
  assumes s: "audio_ok s" and d: "audio_datagram d" and e: "expected_seq s \<noteq> 0" "expected_seq s < wire_seq d"
    and room: "length (cached_queue s) < MAX_CACHED_PACKET_SIZE"
  shows "data_handler L (d @ replicate (RTP_PACKET_MAX_LEN - length d) 0) None (length d) s =
    Returns (in_buffer d, s\<lparr>cached_queue := queue_push sequence (packet_of d) (cached_queue s)\<rparr>, [])"
proof -
  have len: "12 \<le> length d" "length d \<le> length (in_buffer d)"
    using d in_buffer [OF d] by (auto simp: audio_datagram_def)
  have "wire_seq d \<noteq> expected_seq s" using e(2) by auto
  then show ?thesis
    using len in_buffer [OF d] e room
    by (simp add: data_handler_def RTP_PACKET_MIN_LEN_def cache_packet_def c_load_take packet_of_def Let_def
        flip: in_buffer_def)
qed

lemma data_handler_flush:
  assumes L: "crypto_lib_ok L" and s: "audio_ok s" and d: "audio_datagram d"
    and e: "expected_seq s \<noteq> 0" "expected_seq s < wire_seq d"
    and full: "\<not> length (cached_queue s) < MAX_CACHED_PACKET_SIZE"
  obtains c' where "same_audio_keys (audio_crypto s) c'"
    and "data_handler L (d @ replicate (RTP_PACKET_MAX_LEN - length d) 0) None (length d) s =
      Returns (in_buffer d, s\<lparr>audio_crypto := c', expected_seq := sequence (last (cached_queue s)) + 1,
        cached_queue := []\<rparr>, map (cached_delivery L (audio_crypto s)) (cached_queue s))"
proof -
  have len: "12 \<le> length d" using d by (simp add: audio_datagram_def)
  have ne: "cached_queue s \<noteq> []" using full by (auto simp: MAX_CACHED_PACKET_SIZE_def)
  obtain c' where same: "same_audio_keys (audio_crypto s) c'" and run: "process_cached_packet L True s =
      Returns (s\<lparr>audio_crypto := c', expected_seq := sequence (last (cached_queue s)) + 1, cached_queue := []\<rparr>,
        map (cached_delivery L (audio_crypto s)) (cached_queue s))"
    using process_cached_packet_ok [OF L, of s True] s ne by (auto simp: audio_ok_def after_run_def Let_def)
  have "wire_seq d \<noteq> expected_seq s" using e(2) by auto
  then show thesis
    using len in_buffer [OF d] e full run
    by (intro that [OF same]) (simp add: data_handler_def RTP_PACKET_MIN_LEN_def Let_def flip: in_buffer_def)
qed

lemma data_handler_late:
  assumes d: "audio_datagram d" and e: "wire_seq d < expected_seq s"
  shows "data_handler L (d @ replicate (RTP_PACKET_MAX_LEN - length d) 0) None (length d) s =
    Returns (in_buffer d, s, [])"
proof -
  have len: "12 \<le> length d" using d by (simp add: audio_datagram_def)
  have "expected_seq s \<noteq> 0" "wire_seq d \<noteq> expected_seq s" "\<not> expected_seq s < wire_seq d"
    using e by auto
  then show ?thesis
    using len in_buffer [OF d] by (simp add: data_handler_def RTP_PACKET_MIN_LEN_def Let_def flip: in_buffer_def)
qed

text \<open>Every datagram is one step of the abstract machine.\<close>

lemma audio_ok_same:
  assumes "audio_ok s" and "same_audio_keys (audio_crypto s) c'" and "queue_valid sequence q"
    and "list_all cached_ok q" and "length q \<le> MAX_CACHED_PACKET_SIZE"
  shows "audio_ok (s\<lparr>audio_crypto := c', expected_seq := e, cached_queue := q\<rparr>)"
  using assms by (simp add: audio_ok_def same_audio_keysD)

lemma queue_drop:
  "queue_valid f q \<Longrightarrow> queue_valid f (drop k q)"
  "list_all P q \<Longrightarrow> list_all P (drop k q)" "list_all P q \<Longrightarrow> list_all P (take k q)"
  by (auto simp: queue_valid_def list_all_iff drop_map [symmetric] sorted_wrt_drop
      dest: in_set_dropD in_set_takeD)

lemma data_handler_refines:
  assumes L: "crypto_lib_ok L" and s: "audio_ok s" and d: "audio_datagram d"
  obtains buf s' evs where
    "data_handler L (d @ replicate (RTP_PACKET_MAX_LEN - length d) 0) None (length d) s = Returns (buf, s', evs)"
    "audio_ok s'" "reorder (wire_seq d) (abs_queue s) = (abs_queue s', map event_seq evs)"
    "same_audio_keys (audio_crypto s) (audio_crypto s')"
proof -
  let ?q = "cached_queue s"
  have q: "queue_valid sequence ?q" "list_all cached_ok ?q" "length ?q \<le> MAX_CACHED_PACKET_SIZE"
    and c: "audio_crypto_ok (audio_crypto s)"
    using s by (simp_all add: audio_ok_def)
  consider "wire_seq d = expected_seq s \<or> expected_seq s = 0"
    | "expected_seq s \<noteq> 0" "expected_seq s < wire_seq d" "length ?q < MAX_CACHED_PACKET_SIZE"
    | "expected_seq s \<noteq> 0" "expected_seq s < wire_seq d" "\<not> length ?q < MAX_CACHED_PACKET_SIZE"
    | "wire_seq d < expected_seq s" "expected_seq s \<noteq> 0"
    by fastforce
  then show thesis
  proof cases
    case 1
    define k where "k = run_length (wire_seq d + 1) ?q"
    obtain buf c' where same: "same_audio_keys (audio_crypto s) c'"
      and run: "data_handler L (d @ replicate (RTP_PACKET_MAX_LEN - length d) 0) None (length d) s =
       Returns (buf, s\<lparr>audio_crypto := c', expected_seq := wire_seq d + 1 + of_nat k, cached_queue := drop k ?q\<rparr>,
         delivery L (audio_crypto s) (in_buffer d) (length d) #
         map (cached_delivery L (audio_crypto s)) (take k ?q))"
      and first: "event_seq (delivery L (audio_crypto s) (in_buffer d) (length d)) = wire_seq d"
      using data_handler_next [OF L s d 1, unfolded Let_def] unfolding k_def by blast
    have "reorder (wire_seq d) (abs_queue s) =
        ((wire_seq d + 1 + of_nat k, drop k (map sequence ?q)), wire_seq d # take k (map sequence ?q))"
      using 1 by (simp add: reorder_next abs_queue_def run_from_map k_def)
    then have spec: "reorder (wire_seq d) (abs_queue s) =
        ((wire_seq d + 1 + of_nat k, map sequence (drop k ?q)), map event_seq
          (delivery L (audio_crypto s) (in_buffer d) (length d) # map (cached_delivery L (audio_crypto s)) (take k ?q)))"
      using cached_deliveries_seq [OF L c queue_drop(3) [OF q(2), of k]] first by (simp add: drop_map take_map)
    have "audio_ok (s\<lparr>audio_crypto := c', expected_seq := wire_seq d + 1 + of_nat k, cached_queue := drop k ?q\<rparr>)"
      by (rule audio_ok_same [OF s same queue_drop(1) [OF q(1)] queue_drop(2) [OF q(2)]]) (use q(3) in simp)
    then show thesis
      by (rule that [OF run]) (use same spec in \<open>simp_all add: abs_queue_def\<close>)
  next
    case 2
    then show thesis
      using data_handler_early [OF s d 2, of L] q sorted_list.push_law(1) [OF q(1), of "packet_of d"]
        audio_ok_same [OF s same_audio_keys_refl, of "queue_push sequence (packet_of d) ?q" "expected_seq s"]
        packet_of_ok [OF d]
      by (intro that) (auto simp: queue_push_def list_all_insort reorder_early abs_queue_def map_insort_key
          packet_of_def MAX_CACHED_PACKET_SIZE_def)
  next
    case 3
    then have "?q \<noteq> []" "length ?q = 10" using q(3) by (auto simp: MAX_CACHED_PACKET_SIZE_def)
    then have spec: "reorder (wire_seq d) (abs_queue s) =
        ((sequence (last ?q) + 1, []), map event_seq (map (cached_delivery L (audio_crypto s)) ?q))"
      unfolding cached_deliveries_seq [OF L c q(2)] using 3
      by (simp add: reorder_flush abs_queue_def last_map MAX_CACHED_PACKET_SIZE_def)
    obtain c' where same: "same_audio_keys (audio_crypto s) c'" and run:
      "data_handler L (d @ replicate (RTP_PACKET_MAX_LEN - length d) 0) None (length d) s =
        Returns (in_buffer d, s\<lparr>audio_crypto := c', expected_seq := sequence (last ?q) + 1,
          cached_queue := []\<rparr>, map (cached_delivery L (audio_crypto s)) ?q)"
      using data_handler_flush [OF L s d 3] .
    have "audio_ok (s\<lparr>audio_crypto := c', expected_seq := sequence (last ?q) + 1, cached_queue := []\<rparr>)"
      by (rule audio_ok_same [OF s same]) (simp_all add: queue_valid_def)
    then show thesis
      by (rule that [OF run]) (use same spec in \<open>simp_all add: abs_queue_def\<close>)
  next
    case 4
    then show thesis
      using data_handler_late [OF d 4(1), of L] s by (intro that) (auto simp: reorder_late abs_queue_def)
  qed
qed

lemma receive_all_refines:
  assumes L: "crypto_lib_ok L" and "audio_ok s" and "list_all audio_datagram ds"
  obtains s' evs where "receive_all L ds s = Returns (s', evs)" and "audio_ok s'"
    and "reorder_all (map wire_seq ds) (abs_queue s) = (abs_queue s', map event_seq evs)"
    and "same_audio_keys (audio_crypto s) (audio_crypto s')"
proof -
  have "\<exists>s' evs. receive_all L ds s = Returns (s', evs) \<and> audio_ok s' \<and>
      reorder_all (map wire_seq ds) (abs_queue s) = (abs_queue s', map event_seq evs) \<and>
      same_audio_keys (audio_crypto s) (audio_crypto s')"
    using assms(2,3)
  proof (induction ds arbitrary: s)
    case (Cons d ds)
    obtain buf s1 evs where one: "data_handler L (d @ replicate (RTP_PACKET_MAX_LEN - length d) 0) None (length d) s =
        Returns (buf, s1, evs)" "audio_ok s1" "reorder (wire_seq d) (abs_queue s) = (abs_queue s1, map event_seq evs)"
        "same_audio_keys (audio_crypto s) (audio_crypto s1)"
      using data_handler_refines [OF L Cons.prems(1), of d] Cons.prems(2) by auto
    with Cons.IH [of s1] Cons.prems(2) show ?case
      by (auto intro: same_audio_keys_trans)
  qed simp
  then show thesis using that by blast
qed

section \<open>Packets that are a little out of order\<close>

lemma u16_of_nat_less: "a < 65536 \<Longrightarrow> b < 65536 \<Longrightarrow> (of_nat a :: u16) < of_nat b \<longleftrightarrow> a < b"
  by (simp add: word_less_nat_alt unat_of_nat)

lemma u16_of_nat_eq: "a < 65536 \<Longrightarrow> b < 65536 \<Longrightarrow> (of_nat a :: u16) = of_nat b \<longleftrightarrow> a = b"
  by (simp add: word_unat_eq_iff unat_of_nat)

lemma map_insort_of_nat:
  "x < 65536 \<Longrightarrow> list_all (\<lambda>y. y < 65536) w \<Longrightarrow>
    insort (of_nat x :: u16) (map of_nat w) = map of_nat (insort x w)"
  by (induction w) (auto simp: word_le_nat_alt unat_of_nat)

lemma run_from_of_nat:
  assumes "sorted w" "distinct w" "list_all (\<lambda>y. e \<le> y \<and> y < 65536) w"
  obtains k where "run_from (of_nat e) (map of_nat w) = k" "w = [e..<e + k] @ drop k w" "e + k \<notin> set (drop k w)"
    "list_all (\<lambda>y. e + k < y \<and> y < 65536) (drop k w)" "k \<le> length w"
proof -
  have "\<exists>k. run_from (of_nat e) (map of_nat w) = k \<and> w = [e..<e + k] @ drop k w \<and>
      list_all (\<lambda>y. e + k < y \<and> y < 65536) (drop k w) \<and> k \<le> length w"
    using assms
  proof (induction w arbitrary: e)
    case (Cons x w)
    show ?case
    proof (cases "x = e")
      case True
      then have "list_all (\<lambda>y. Suc e \<le> y \<and> y < 65536) w"
        using Cons.prems by (auto simp: list_all_iff order.strict_iff_order Suc_le_eq)
      then obtain k where "run_from (of_nat (Suc e)) (map of_nat w) = k" "w = [Suc e..<Suc e + k] @ drop k w"
        "list_all (\<lambda>y. Suc e + k < y \<and> y < 65536) (drop k w)" "k \<le> length w"
        using Cons.IH [of "Suc e"] Cons.prems by auto
      note k = this
      have "x # w = [e..<e + Suc k] @ drop (Suc k) (x # w)"
        using True k(2) by (subst upt_conv_Cons) (simp_all del: upt_Suc)
      moreover have "run_from (of_nat e) (map of_nat (x # w)) = Suc k"
        using True k(1) by (simp add: add.commute [of 1])
      ultimately show ?thesis
        using k(3,4) by (intro exI [of _ "Suc k"] conjI) simp_all
    next
      case False
      then have "(of_nat x :: u16) \<noteq> of_nat e" using Cons.prems by (auto simp: u16_of_nat_eq)
      moreover have "list_all (\<lambda>y. e < y \<and> y < 65536) (x # w)"
        using Cons.prems False by (auto simp: list_all_iff order.strict_iff_order)
      ultimately show ?thesis by simp
    qed
  qed simp
  then show thesis using that by (auto simp: list_all_iff)
qed

definition displaced :: "nat \<Rightarrow> nat list \<Rightarrow> bool" where
  "displaced b xs \<longleftrightarrow> sorted_wrt (\<lambda>x y. x \<le> y + b) xs"

lemma reorder_displaced:
  assumes "0 < m" "m \<le> n" "n \<le> 65536" "sorted w" "distinct (w @ xs)" "set (w @ xs) = {m..<n}" "m \<notin> set w"
    and "displaced 10 xs" and "list_all (\<lambda>x. list_all (\<lambda>y. x \<le> y + 10) xs) w"
  shows "reorder_all (map of_nat xs) (of_nat m, map of_nat w) = ((of_nat n, []), map of_nat [m..<n])"
  using assms
proof (induction xs arbitrary: m w)
  case Nil
  then have "m = n" by (metis atLeastLessThan_iff append_Nil2 le_eq_less_or_eq order.refl)
  with Nil show ?case by simp
next
  case (Cons x xs)
  have w: "list_all (\<lambda>y. m < y \<and> y < 65536) w" and x: "m \<le> x" "x < n"
  proof -
    have "set w \<subseteq> {m..<n}" "x \<in> {m..<n}" using Cons.prems(6) by auto
    then show "list_all (\<lambda>y. m < y \<and> y < 65536) w" "m \<le> x" "x < n"
      using Cons.prems(3,7) by (auto simp: list_all_iff subset_iff order.strict_iff_order)
  qed
  then have w16: "list_all (\<lambda>y. y < 65536) w" by (auto simp: list_all_iff)
  show ?case
  proof (cases "x = m")
    case True
    have "list_all (\<lambda>y. m + 1 \<le> y \<and> y < 65536) w" using w by (auto simp: list_all_iff)
    then obtain k where k: "run_from (of_nat (m + 1)) (map of_nat w) = k" "w = [m + 1..<m + 1 + k] @ drop k w"
      "m + 1 + k \<notin> set (drop k w)" "list_all (\<lambda>y. m + 1 + k < y \<and> y < 65536) (drop k w)" "k \<le> length w"
      using run_from_of_nat [of w "m + 1"] Cons.prems(4,5) by auto
    have "take k w = take k ([m + 1..<m + 1 + k] @ drop k w)" by (rule arg_cong [OF k(2)])
    then have take: "take k w = [m + 1..<m + 1 + k]" by (simp del: upt_Suc)
    have "set w = {m + 1..<m + 1 + k} \<union> set (drop k w)"
      using arg_cong [OF k(2), of set] unfolding set_append set_upt .
    moreover have "distinct ([m + 1..<m + 1 + k] @ drop k w)"
    proof -
      have "distinct w" using Cons.prems(5) by simp
      then show ?thesis unfolding arg_cong [OF k(2), of distinct] .
    qed
    ultimately have rest: "set (drop k w @ xs) = {m + 1 + k..<n}" "distinct (drop k w @ xs)" "m + 1 + k \<le> n"
    proof -
      assume w': "set w = {m + 1..<m + 1 + k} \<union> set (drop k w)"
        and d: "distinct ([m + 1..<m + 1 + k] @ drop k w)"
      have all: "set w \<union> insert m (set xs) = {m..<n}" and dis: "set w \<inter> set xs = {}" "m \<notin> set xs"
        using Cons.prems(5,6) True by auto
      have "{m + 1..<m + 1 + k} \<subseteq> {m..<n}" using all w' by blast
      then have "k = 0 \<or> m + k < n" by (cases k) auto
      then show "m + 1 + k \<le> n" using x True by auto
      show "set (drop k w @ xs) = {m + 1 + k..<n}"
      proof (intro set_eqI iffI)
        fix y assume y: "y \<in> set (drop k w @ xs)"
        have "y \<in> {m..<n}" using y all by (auto dest: in_set_dropD)
        moreover have "m + 1 + k \<le> y"
        proof (cases "y \<in> set (drop k w)")
          case True
          then show ?thesis using k(4) by (auto simp: list_all_iff)
        next
          case False
          then have "y \<in> set xs" using y by simp
          then have "y \<noteq> m" "y \<notin> {m + 1..<m + 1 + k}" using dis w' by blast+
          then show ?thesis using \<open>y \<in> {m..<n}\<close> by simp
        qed
        ultimately show "y \<in> {m + 1 + k..<n}" by simp
      next
        fix y assume y: "y \<in> {m + 1 + k..<n}"
        then have "y \<in> set w \<union> insert m (set xs)" "y \<noteq> m" "y \<notin> {m + 1..<m + 1 + k}"
          unfolding all by simp_all
        then show "y \<in> set (drop k w @ xs)" using w' by auto
      qed
      show "distinct (drop k w @ xs)"
        using d Cons.prems(5) by (auto dest: in_set_dropD)
    qed
    have "reorder_all (map of_nat xs) (of_nat (m + 1 + k), map of_nat (drop k w)) =
        ((of_nat n, []), map of_nat [m + 1 + k..<n])"
      using Cons.prems rest k(3)
      by (intro Cons.IH) (auto simp: displaced_def list_all_iff sorted_wrt_drop dest: in_set_dropD)
    moreover have "reorder (of_nat x) (of_nat m, map of_nat w) =
        ((of_nat (m + 1 + k), map of_nat (drop k w)), of_nat m # map of_nat [m + 1..<m + 1 + k])"
    proof -
      have "run_from ((of_nat m :: u16) + 1) (map of_nat w) = k" using k(1) by (simp add: add.commute)
      then show ?thesis
        using True take by (simp add: reorder_next drop_map take_map add_ac del: upt_Suc)
    qed
    moreover have "[m..<n] = m # [m + 1..<m + 1 + k] @ [m + 1 + k..<n]"
      using rest(3) x upt_add_eq_append [of "m + 1" "m + 1 + k" "n - (m + 1 + k)"]
      by (simp add: upt_conv_Cons [of m n] del: upt_Suc)
    ultimately show ?thesis by (simp del: upt_Suc)
  next
    case False
    with x have less: "m < x" by simp
    have m: "m \<in> set xs" using Cons.prems(6,7) x False by auto
    then have near: "x \<le> m + 10" "list_all (\<lambda>y. y \<le> m + 10) w"
      using Cons.prems(8,9) by (auto simp: displaced_def list_all_iff)
    have "set (x # w) \<subseteq> {m + 1..<m + 11}" using near w less by (fastforce simp: list_all_iff)
    then have "length (x # w) \<le> 10"
      using Cons.prems(5) card_mono [of "{m + 1..<m + 11}" "set (x # w)"] distinct_card [of "x # w"] by simp
    then have step: "reorder (of_nat x) (of_nat m, map of_nat w) = ((of_nat m, map of_nat (insort x w)), [])"
      using less x Cons.prems(1,3) w16 u16_of_nat_eq [of m 0]
      by (simp add: reorder_early u16_of_nat_less map_insort_of_nat)
    have "reorder_all (map of_nat xs) (of_nat m, map of_nat (insort x w)) = ((of_nat n, []), map of_nat [m..<n])"
      using Cons.prems less
      by (intro Cons.IH) (auto simp: displaced_def list_all_iff set_insort_key sorted_insort distinct_insort)
    with step show ?thesis by simp
  qed
qed

section \<open>Datagrams of any kind\<close>

lemma data_handler_ignores:
  assumes "\<not> audio_datagram d" and "length d \<le> RTP_PACKET_MAX_LEN"
  obtains buf where "data_handler L (d @ replicate (RTP_PACKET_MAX_LEN - length d) 0) None (length d) s =
    Returns (buf, s, [])"
proof (cases "length d < 12")
  case True
  then show thesis by (intro that) (simp add: data_handler_def RTP_PACKET_MIN_LEN_def)
next
  case False
  let ?b = "d @ replicate (RTP_PACKET_MAX_LEN - length d) 0"
  have "payload_type (header_to_host ?b) = payload_type ?b" using assms False by simp
  also have "\<dots> \<noteq> rtp_audio_data"
    using assms False by (simp add: audio_datagram_def payload_type_def nth_append)
  finally have "payload_type (header_to_host ?b) \<noteq> rtp_audio_data" .
  then show thesis using False by (intro that) (simp add: data_handler_def RTP_PACKET_MIN_LEN_def Let_def)
qed

definition received_ok :: "u8 list list \<Rightarrow> bool" where
  "received_ok ds \<longleftrightarrow> list_all (\<lambda>d. length d \<le> RTP_PACKET_MAX_LEN) ds"

lemma receive_all_filter:
  assumes "received_ok ds"
  shows "receive_all L ds s = receive_all L (filter audio_datagram ds) s"
  using assms
proof (induction ds arbitrary: s)
  case (Cons d ds)
  then have d: "length d \<le> RTP_PACKET_MAX_LEN" and ds: "received_ok ds" by (simp_all add: received_ok_def)
  show ?case
  proof (cases "audio_datagram d")
    case True
    then show ?thesis using Cons.IH [OF ds] by simp
  next
    case False
    obtain buf where "data_handler L (d @ replicate (RTP_PACKET_MAX_LEN - length d) 0) None (length d) s =
        Returns (buf, s, [])"
      by (rule data_handler_ignores [OF False d])
    then show ?thesis using False Cons.IH [OF ds, of s] by simp
  qed
qed simp

lemma receive_all_machine:
  assumes "crypto_lib_ok L" and "audio_ok s" and "received_ok ds"
  obtains s' evs where "receive_all L ds s = Returns (s', evs)" and "audio_ok s'"
    and "reorder_all (map wire_seq (filter audio_datagram ds)) (abs_queue s) = (abs_queue s', map event_seq evs)"
    and "same_audio_keys (audio_crypto s) (audio_crypto s')"
proof -
  have "list_all audio_datagram (filter audio_datagram ds)" by (simp add: list_all_iff)
  then show thesis
    using receive_all_refines [OF assms(1,2), of "filter audio_datagram ds" thesis] that
    by (simp add: receive_all_filter [OF assms(3)])
qed

section \<open>Late packets, full queues and duplicates\<close>

lemma reorder_all_late:
  "list_all (\<lambda>x. x < e) xs \<Longrightarrow> reorder_all xs (e, w) = ((e, w), [])"
  by (induction xs) (simp_all add: reorder_late)

lemma receive_all_late:
  assumes "received_ok ds" and "list_all (\<lambda>d. wire_seq d < expected_seq s) (filter audio_datagram ds)"
  shows "receive_all L ds s = Returns (s, [])"
proof -
  have "receive_all L ds s = Returns (s, [])"
    if "list_all (\<lambda>d. audio_datagram d \<and> wire_seq d < expected_seq s) ds" for ds
    using that by (induction ds) (simp_all add: data_handler_late)
  then show ?thesis
    using assms(2) by (simp add: receive_all_filter [OF assms(1)] list_all_iff)
qed

section \<open>The payload\<close>

lemma in_buffer_tail:
  assumes "audio_datagram d"
  shows "drop 12 (in_buffer d) = drop 12 d @ replicate (RTP_PACKET_MAX_LEN - length d) 0"
proof -
  let ?b = "d @ replicate (RTP_PACKET_MAX_LEN - length d) 0"
  have len: "12 \<le> length d" using assms by (simp add: audio_datagram_def)
  have "drop 12 (header_to_host ?b) = drop 4 (drop 8 (header_to_host ?b))" by simp
  also have "\<dots> = drop 12 ?b" using len by (simp del: drop_append)
  finally show ?thesis using len by (simp add: in_buffer_def)
qed

lemma plain_packet_payload:
  assumes cipher: "block_cipher (AES_encrypt L) (AES_decrypt L)" and c: "audio_crypto_ok c"
    and d: "audio_datagram d" and n: "n = (length d - 12) div 16"
    and sent: "cbc_encrypt_inplace (AES_encrypt L) (Encrypt_key (take 16 (client_aes_key c))) p 12 (16 * n)
      (take 16 (client_aes_iv c)) = Returns (d, iv')"
    and p: "length p = length d"
  shows "slice 12 (length d - 12) (plain_packet L c (in_buffer d) (length d)) = drop 12 p"
proof -
  let ?iv = "take 16 (client_aes_iv c)" and ?key = "take 16 (client_aes_key c)"
  define cs where "cs = chop16 n (slice 12 (16 * n) d)"
  define x where "x = concat (cbc_dec_blocks (AES_decrypt L (Decrypt_key ?key)) ?iv cs)"
  have iv: "length ?iv = 16" using c by (simp add: audio_crypto_ok_def)
  have len: "12 \<le> length d" using d by (simp add: audio_datagram_def)
  have le: "12 + 16 * n \<le> length d" using len n by (simp add: mult.commute[of 16])
  obtain buf' iv2 where "cbc_encrypt_inplace (AES_encrypt L) (Encrypt_key ?key) p 12 (16 * n) ?iv = Returns (buf', iv2)"
    "cbc_decrypt_inplace (AES_decrypt L) (Decrypt_key ?key) buf' 12 (16 * n) ?iv = Returns (p, iv2)"
    by (rule cbc_inplace_roundtrip [OF cipher iv, of 12 n p ?key]) (use le p in auto)
  then have undo: "cbc_decrypt_inplace (AES_decrypt L) (Decrypt_key ?key) d 12 (16 * n) ?iv = Returns (p, iv')"
    using sent by simp
  have lend: "length (slice 12 (16 * n) d) = 16 * n" using le by (simp add: slice_def)
  have cs: "concat cs = slice 12 (16 * n) d" "blocks16 cs" "length cs = n"
    using chop16(1,2) [OF lend] by (simp_all add: cs_def chop16(3))
  have D: "length (AES_decrypt L k b) = 16" if "length b = 16" for k b
    using cipher that by (simp add: block_cipher_def)
  have "holds_at d 12 (concat cs)" using le cs lend by (simp add: holds_at_def)
  then have pd: "p = put d 12 x"
    using cbc_decrypt_inplace_blocks [of "AES_decrypt L" "Decrypt_key ?key" cs ?iv d 12] D cs iv undo
    by (simp add: x_def)
  have x: "length x = 16 * n"
    using blocks16_dec [of "AES_decrypt L (Decrypt_key ?key)" cs ?iv] D cs iv
    by (simp add: x_def length_concat_blocks16)
  have tail: "drop 12 (in_buffer d) = drop 12 d @ replicate (RTP_PACKET_MAX_LEN - length d) 0"
    by (rule in_buffer_tail [OF d])
  have same: "slice 12 (16 * n) (in_buffer d) = slice 12 (16 * n) d"
    using tail le by (simp add: slice_def)
  have "plain_packet L c (in_buffer d) (length d) = put (in_buffer d) 12 x"
    by (simp add: plain_packet_def Let_def x_def cs_def same flip: n)
  then have "drop 12 (plain_packet L c (in_buffer d) (length d)) = x @ drop (16 * n) (drop 12 (in_buffer d))"
    using x len in_buffer(1) [OF d] d by (simp add: put_def audio_datagram_def add.commute)
  then show ?thesis
    using tail x le by (simp add: slice_def pd put_def add.commute)
qed

end
