(* ===== verification/Audio_Properties.thy ===== *)
theory Audio_Properties
  imports Audio_Reorder
begin

text \<open>
  The properties of the audio stream. The witnesses run the model with a crypto library whose block
  functions do nothing; it has the documented sizes.
\<close>

definition identity_lib :: crypto_lib where
  "identity_lib = \<lparr>AES_encrypt = \<lambda>k b. b, AES_decrypt = \<lambda>k b. b, sha512 = \<lambda>m. replicate 64 1,
     curve25519_donna = \<lambda>s p. replicate 32 2, ed25519_create_keypair = \<lambda>s. (replicate 32 3, replicate 64 4),
     ed25519_sign = \<lambda>m p s. replicate 64 5, ed25519_verify = \<lambda>g m p. g = replicate 64 5,
     fairplay_setup = \<lambda>m. replicate 142 6, fairplay_handshake = \<lambda>m. replicate 32 7,
     fairplay_decrypt = \<lambda>m k. replicate 16 8\<rparr>"

lemma identity_lib_ok: "crypto_lib_ok identity_lib"
  by (simp add: crypto_lib_ok_def identity_lib_def block_cipher_def)

definition sample_keys :: server_key_chain where
  "sample_keys = \<lparr>ed_public_key = replicate 32 9, ed_private_key = replicate 64 10,
     curve_public_key = replicate 32 11, curve_private_key = replicate 32 12\<rparr>"

definition sample_audio :: audio_service where
  "sample_audio = new_audio_service (new_ap_crypto sample_keys) True"

lemma sample_keys_ok: "keys_ok sample_keys"
  by (simp add: keys_ok_def sample_keys_def)

lemma sample_audio_ok: "audio_ok sample_audio" "abs_queue sample_audio = (0, [])"
  using new_ap_crypto_ok [OF sample_keys_ok]
  by (simp_all add: audio_ok_def sample_audio_def new_audio_service_def audio_crypto_ok_def queue_valid_def
      abs_queue_def new_ap_crypto_def)

text \<open>An audio datagram with a given sequence number and no payload.\<close>

definition datagram :: "nat \<Rightarrow> u8 list" where
  "datagram i = [0x80, 0x60] @ be_bytes 2 i @ replicate 8 0"

lemma datagram_ok: "audio_datagram (datagram i)" "length (datagram i) = 12"
  by (simp_all add: audio_datagram_def datagram_def RTP_PACKET_MAX_LEN_def payload_type_def rtp_audio_data_def)

lemma wire_seq_datagram: "wire_seq (datagram i) = of_nat i"
proof -
  have "slice 2 2 (datagram i) = be_bytes 2 i" by (simp add: datagram_def slice_def)
  then have "unat (rtp_sequence (datagram i)) = le_value (be_bytes 2 i)"
    using le_value_lt [of "be_bytes 2 i"] by (simp add: rtp_defs unat_of_nat)
  then have "unat (wire_seq (datagram i)) = i mod 65536"
    by (simp add: wire_seq_def endian_simps byte_swap_le_value)
  then show ?thesis by (simp add: word_unat_eq_iff unat_of_nat)
qed

text \<open>C5: On any sequence of datagrams that fit the receive buffer, the audio service runs without
  undefined behaviour and delivers exactly the sequence numbers that the abstract reordering machine
  delivers for the datagrams that are audio packets; it ends in the machine's state.\<close>

theorem audio_refines_machine:
  assumes "crypto_lib_ok L" and "audio_ok s" and "received_ok ds"
  shows "\<exists>s' evs. receive_all L ds s = Returns (s', evs) \<and>
    reorder_all (map wire_seq (filter audio_datagram ds)) (abs_queue s) = (abs_queue s', map event_seq evs)"
  by (rule receive_all_machine [OF assms]) blast

lemma audio_refines_machine_witness:
  "\<exists>s' evs. receive_all identity_lib [datagram 7, datagram 9, datagram 8] sample_audio = Returns (s', evs) \<and>
    map event_seq evs = [7, 8, 9] \<and> expected_seq s' = 10"
proof -
  have "received_ok [datagram 7, datagram 9, datagram 8]"
    by (simp add: received_ok_def datagram_ok RTP_PACKET_MAX_LEN_def)
  from audio_refines_machine [OF identity_lib_ok sample_audio_ok(1) this] obtain s' evs where
    "receive_all identity_lib [datagram 7, datagram 9, datagram 8] sample_audio = Returns (s', evs)"
    "reorder_all [7, 9, 8] (0, []) = (abs_queue s', map event_seq evs)"
    by (auto simp: datagram_ok wire_seq_datagram sample_audio_ok(2) simp del: receive_all.simps reorder_all.simps)
  moreover have "reorder_all [7, 9, 8] (0, []) = ((10, []), [7, 8, 9])"
    by (simp add: reorder_next reorder_early)
  ultimately show ?thesis by (auto simp: abs_queue_def simp del: receive_all.simps reorder_all.simps)
qed

text \<open>C28: The queue of early packets never holds more than ten packets, stays ordered by sequence
  number, and every packet in it carries the number it is filed under.\<close>

theorem audio_queue_bounded:
  assumes "crypto_lib_ok L" and "audio_ok s" and "received_ok ds"
    and "receive_all L ds s = Returns (s', evs)"
  shows "length (cached_queue s') \<le> MAX_CACHED_PACKET_SIZE \<and> sorted (map sequence (cached_queue s')) \<and>
    map (\<lambda>p. rtp_sequence (data p)) (cached_queue s') = map sequence (cached_queue s')"
proof -
  have "audio_ok s'" using receive_all_machine [OF assms(1-3)] assms(4) by auto
  then show ?thesis by (auto simp: audio_ok_def queue_valid_def list_all_iff cached_ok_def)
qed

lemma audio_queue_bounded_witness:
  "\<exists>s' evs. receive_all identity_lib [datagram 7, datagram 9] sample_audio = Returns (s', evs) \<and>
    length (cached_queue s') \<le> 10"
proof -
  have ok: "received_ok [datagram 7, datagram 9]"
    by (simp add: received_ok_def datagram_ok RTP_PACKET_MAX_LEN_def)
  obtain s' evs where run: "receive_all identity_lib [datagram 7, datagram 9] sample_audio = Returns (s', evs)"
    using receive_all_machine [OF identity_lib_ok sample_audio_ok(1) ok] .
  show ?thesis
    using audio_queue_bounded [OF identity_lib_ok sample_audio_ok(1) ok run] run
    by (auto simp: MAX_CACHED_PACKET_SIZE_def)
qed

text \<open>C12: Packets are put back in order: when the packets with the numbers \<open>m\<close> to \<open>n - 1\<close> each arrive
  once, none more than ten places ahead of one that is still to come, all of them are delivered, in
  order, and none is left waiting. The first of them either is expected or is the first packet at all.\<close>

theorem audio_in_order:
  assumes "crypto_lib_ok L" and "audio_ok s" and "cached_queue s = []"
    and "received_ok ds" and "map wire_seq (filter audio_datagram ds) = map of_nat xs"
    and "0 < m" "m \<le> n" "n \<le> 65536" and "mset xs = mset [m..<n]" and "displaced 10 xs"
    and "expected_seq s = of_nat m \<or> expected_seq s = 0 \<and> hd xs = m"
  shows "\<exists>s' evs. receive_all L ds s = Returns (s', evs) \<and> map event_seq evs = map of_nat [m..<n] \<and>
    cached_queue s' = []"
proof -
  have dist: "distinct xs" "set xs = {m..<n}"
    using mset_eq_imp_distinct_iff [OF assms(9)] mset_eq_setD [OF assms(9)] by auto
  have "reorder_all (map of_nat xs) (of_nat m, map of_nat []) = ((of_nat n, []), map of_nat [m..<n])"
    using assms dist by (intro reorder_displaced) auto
  then have run: "snd (reorder_all (map of_nat xs) (abs_queue s)) = map of_nat [m..<n]"
    "snd (fst (reorder_all (map of_nat xs) (abs_queue s))) = []"
    using assms(3,11) by (cases xs; auto simp: abs_queue_def reorder_next split: prod.splits)+
  obtain s' evs where "receive_all L ds s = Returns (s', evs)"
    "reorder_all (map of_nat xs) (abs_queue s) = (abs_queue s', map event_seq evs)"
    using receive_all_machine [OF assms(1,2,4)] unfolding assms(5) by metis
  with run show ?thesis by (simp add: abs_queue_def)
qed

lemma audio_in_order_witness:
  "\<exists>s' evs. receive_all identity_lib [datagram 7, datagram 9, datagram 10, datagram 8] sample_audio =
    Returns (s', evs) \<and> map event_seq evs = map of_nat [7..<11] \<and> cached_queue s' = []"
  by (rule audio_in_order [OF identity_lib_ok sample_audio_ok(1), where xs = "[7, 9, 10, 8]"])
    (simp_all add: sample_audio_def new_audio_service_def received_ok_def datagram_ok RTP_PACKET_MAX_LEN_def
      wire_seq_datagram displaced_def upt_rec)

text \<open>C27: The session handler sees what the sender encrypted: when the payload of an expected packet is
  the chained-mode encryption of whole blocks under the session's key and IV, the delivered packet
  carries the plain payload and its length.\<close>

theorem audio_payload_roundtrip:
  assumes "crypto_lib_ok L" and "audio_ok s" and "audio_datagram d"
    and "wire_seq d = expected_seq s \<or> expected_seq s = 0" and "length p = length d"
    and "cbc_encrypt_inplace (AES_encrypt L) (Encrypt_key (take 16 (client_aes_key (audio_crypto s)))) p 12
      (16 * ((length d - 12) div 16)) (take 16 (client_aes_iv (audio_crypto s))) = Returns (d, iv')"
  shows "\<exists>buf s' packet evs.
    data_handler L (d @ replicate (RTP_PACKET_MAX_LEN - length d) 0) None (length d) s =
      Returns (buf, s', Audio_data packet (length d - 12) # evs) \<and>
    slice 12 (length d - 12) packet = drop 12 p"
proof -
  have "slice 12 (length d - 12) (plain_packet L (audio_crypto s) (in_buffer d) (length d)) = drop 12 p"
    using assms crypto_lib_cipher [OF assms(1)] by (intro plain_packet_payload) (auto simp: audio_ok_def)
  then show ?thesis
    by (rule_tac data_handler_next [OF assms(1-4)]) (auto simp: delivery_def Let_def)
qed

lemma audio_payload_roundtrip_witness:
  "\<exists>buf s' packet evs. data_handler identity_lib ((datagram 7 @ replicate 16 1) @ replicate (RTP_PACKET_MAX_LEN - 28) 0)
      None 28 sample_audio = Returns (buf, s', Audio_data packet 16 # evs) \<and> slice 12 16 packet = replicate 16 1"
proof -
  have d: "audio_datagram (datagram 7 @ replicate 16 1)"
    by (simp add: audio_datagram_def datagram_def RTP_PACKET_MAX_LEN_def payload_type_def rtp_audio_data_def)
  have sent: "cbc_encrypt_inplace (AES_encrypt identity_lib) (Encrypt_key (take 16 (client_aes_key (audio_crypto sample_audio))))
      (datagram 7 @ replicate 16 1) 12 (16 * ((length (datagram 7 @ replicate 16 1) - 12) div 16))
      (take 16 (client_aes_iv (audio_crypto sample_audio))) =
    Returns (datagram 7 @ replicate 16 1, replicate 16 1)"
    by (simp add: cbc_encrypt_inplace.simps identity_lib_def sample_audio_def new_audio_service_def new_ap_crypto_def
        datagram_ok c_load_def c_store_def slice_def put_def xor_bytes_def zip_replicate Let_def)
  from audio_payload_roundtrip [OF identity_lib_ok sample_audio_ok(1) d _ refl sent] show ?thesis
    by (simp add: datagram_ok sample_audio_def new_audio_service_def)
qed

text \<open>C29: When ten packets wait and another early one arrives, all ten are delivered in ascending order
  and the stream continues behind them; the packet that arrived is neither delivered nor kept.\<close>

theorem audio_flush_drops_packet:
  assumes "crypto_lib_ok L" and "audio_ok s" and "audio_datagram d"
    and "expected_seq s \<noteq> 0" "expected_seq s < wire_seq d" "length (cached_queue s) = MAX_CACHED_PACKET_SIZE"
  shows "\<exists>buf s' evs. data_handler L (d @ replicate (RTP_PACKET_MAX_LEN - length d) 0) None (length d) s =
      Returns (buf, s', evs) \<and> map event_seq evs = map sequence (cached_queue s) \<and> cached_queue s' = [] \<and>
    expected_seq s' = sequence (last (cached_queue s)) + 1"
proof -
  have "map event_seq (map (cached_delivery L (audio_crypto s)) (cached_queue s)) = map sequence (cached_queue s)"
    using assms(2) by (intro cached_deliveries_seq [OF assms(1)]) (auto simp: audio_ok_def)
  moreover obtain c' where "data_handler L (d @ replicate (RTP_PACKET_MAX_LEN - length d) 0) None (length d) s =
      Returns (in_buffer d, s\<lparr>audio_crypto := c', expected_seq := sequence (last (cached_queue s)) + 1,
        cached_queue := []\<rparr>, map (cached_delivery L (audio_crypto s)) (cached_queue s))"
    by (rule data_handler_flush [OF assms(1-5)]) (use assms(6) in simp_all)
  ultimately show ?thesis by simp
qed

definition full_audio :: audio_service where
  "full_audio = sample_audio\<lparr>expected_seq := 5, cached_queue := map (\<lambda>i. packet_of (datagram i)) [7..<17]\<rparr>"

lemma full_audio_ok: "audio_ok full_audio"
proof -
  have "list_all cached_ok (map (\<lambda>i. packet_of (datagram i)) [7..<17])"
    using packet_of_ok [OF datagram_ok(1)] by (simp add: list_all_iff)
  moreover have "sorted (map sequence (map (\<lambda>i. packet_of (datagram i)) [7..<17]))"
    by (simp add: packet_of_def wire_seq_datagram upt_rec)
  ultimately show ?thesis
    using sample_audio_ok(1) by (simp add: audio_ok_def full_audio_def queue_valid_def MAX_CACHED_PACKET_SIZE_def)
qed

lemma audio_flush_drops_packet_witness:
  "\<exists>buf s' evs. data_handler identity_lib (datagram 20 @ replicate (RTP_PACKET_MAX_LEN - 12) 0) None 12 full_audio =
      Returns (buf, s', evs) \<and> map event_seq evs = [7, 8, 9, 10, 11, 12, 13, 14, 15, 16] \<and> cached_queue s' = []"
  using audio_flush_drops_packet [OF identity_lib_ok full_audio_ok datagram_ok(1) [of 20]]
  by (auto simp: full_audio_def wire_seq_datagram datagram_ok MAX_CACHED_PACKET_SIZE_def packet_of_def upt_rec)

text \<open>C30: A lost packet with the highest sequence number stalls the stream: as long as that number does
  not come again, nothing is delivered, nothing is cached and the state does not change.\<close>

theorem audio_stalls_at_wrap:
  assumes "expected_seq s = 65535" and "received_ok ds" and "list_all (\<lambda>d. wire_seq d \<noteq> 65535) ds"
  shows "receive_all L ds s = Returns (s, [])"
proof (rule receive_all_late [OF assms(2)])
  have "x < 65535" if "x \<noteq> 65535" for x :: u16
    using that unsigned_less [of x, where 'a = nat] by (simp add: word_less_nat_alt word_unat_eq_iff)
  then show "list_all (\<lambda>d. wire_seq d < expected_seq s) (filter audio_datagram ds)"
    using assms(1,3) by (auto simp: list_all_iff)
qed

lemma audio_stalls_at_wrap_witness:
  "receive_all identity_lib [datagram 0, datagram 1, datagram 2] (sample_audio\<lparr>expected_seq := 65535\<rparr>) =
    Returns (sample_audio\<lparr>expected_seq := 65535\<rparr>, [])"
  by (rule audio_stalls_at_wrap)
    (simp_all add: received_ok_def datagram_ok RTP_PACKET_MAX_LEN_def wire_seq_datagram)



end
