(* ===== verification/Byte_Order.thy ===== *)
theory Byte_Order
  imports C_Machine
begin

text \<open>
  The byte-order helpers of \<open>src/utils/utils.h\<close> as they are written: the macros \<open>ntohll\<close> and
  \<open>htonll\<close> of the Linux build and the three overloads of \<open>swap_bytes\<close>. The host is little-endian,
  so \<open>ntohl\<close> and \<open>htonl\<close> are the same function.
\<close>

text \<open>The macros have no parentheses around the sum and evaluate their argument twice: \<open>n\<close> and \<open>n'\<close>.\<close>

definition ntohll_macro :: "u64 \<Rightarrow> u64 \<Rightarrow> u64" where
  "ntohll_macro n n' = push_bit 32 (ucast (ntohl (ucast n))) + ucast (ntohl (ucast (drop_bit 32 n')))"

definition swap_bytes16 :: "u16 \<Rightarrow> u16" where
  "swap_bytes16 v = push_bit 8 (v AND 0x00ff) OR drop_bit 8 (v AND 0xff00)"

definition swap_bytes32 :: "u32 \<Rightarrow> u32" where
  "swap_bytes32 v =
     (let pv = le_bytes 4 (unat v) in word_of_nat (le_value [pv ! 3, pv ! 2, pv ! 1, pv ! 0]))"

definition swap_bytes64 :: "u64 \<Rightarrow> u64" where
  "swap_bytes64 v =
     (let pv = le_bytes 8 (unat v)
      in word_of_nat (le_value [pv ! 7, pv ! 6, pv ! 5, pv ! 4, pv ! 3, pv ! 2, pv ! 1, pv ! 0]))"

section \<open>All of them reverse the memory image\<close>

lemma rev4: "length xs = 4 \<Longrightarrow> rev xs = [xs ! 3, xs ! 2, xs ! 1, xs ! 0]"
  by (auto simp: length_Suc_conv numeral_eq_Suc)

lemma rev8: "length xs = 8 \<Longrightarrow> rev xs = [xs ! 7, xs ! 6, xs ! 5, xs ! 4, xs ! 3, xs ! 2, xs ! 1, xs ! 0]"
  by (auto simp: length_Suc_conv numeral_eq_Suc)

lemma swap_bytes32_eq: "swap_bytes32 v = ntohl v"
  unfolding swap_bytes32_def ntohl_def byte_swap_def Let_def by (subst rev4) simp_all

lemma swap_bytes64_eq: "swap_bytes64 v = ntohll v"
  unfolding swap_bytes64_def ntohll_def byte_swap_def Let_def by (subst rev8) simp_all

lemma swap_bytes16_eq: "swap_bytes16 v = ntohs v"
proof -
  have masks: "(0x00ff :: u16) = mask 8" "(0xff00 :: u16) = push_bit 8 (mask 8)"
    by (simp_all add: mask_eq_exp_minus_1 push_bit_eq_mult)
  have "swap_bytes16 v = push_bit 8 (take_bit 8 v) + drop_bit 8 v"
  proof -
    have "v AND mask 8 = take_bit 8 v" by (simp add: take_bit_eq_mask)
    moreover have "drop_bit 8 (v AND push_bit 8 (mask 8)) = drop_bit 8 v"
      by (rule bit_word_eqI) (auto simp: bit_simps dest: bit_imp_le_length)
    moreover have "push_bit 8 (take_bit 8 v) OR drop_bit 8 v = push_bit 8 (take_bit 8 v) + drop_bit 8 v"
      by (rule disjunctive_add [symmetric]) (auto simp: bit_simps dest: bit_imp_le_length)
    ultimately show ?thesis unfolding swap_bytes16_def masks by simp
  qed
  moreover have "unat (push_bit 8 (take_bit 8 v) + drop_bit 8 v) = unat v mod 256 * 256 + unat v div 256"
  proof -
    have d: "unat (drop_bit 8 v) = unat v div 256" by (simp add: drop_bit_eq_div unat_div)
    have p: "unat (push_bit 8 (take_bit 8 v)) = unat v mod 256 * 256"
    proof -
      have "unat v mod 256 * 256 < 65536" by (simp add: mod_less_divisor [of 256, THEN order_less_le_trans])
      then show ?thesis by (simp add: push_bit_eq_mult take_bit_eq_mod unat_word_ariths unat_mod)
    qed
    have "unat v div 256 < 256" using unsigned_less [of v, where 'a = nat] by simp
    moreover have "unat v mod 256 \<le> 255" by simp
    ultimately show ?thesis by (subst unat_plus_simple [THEN iffD1]) (simp_all add: d p word_le_nat_alt unat_word_ariths)
  qed
  moreover have "byte_swap 2 (unat v) = unat v mod 256 * 256 + unat v div 256"
    using unsigned_less [of v, where 'a = nat] by (simp add: byte_swap_def le_bytes_numeral unsigned_ucast_eq take_bit_eq_mod)
  ultimately show ?thesis by (simp add: word_unat_eq_iff unat_ntohs)
qed

lemma unat_le_bytes: "le_value (le_bytes 8 (unat (v :: u64))) = unat v"
  using unsigned_less [of v, where 'a = nat] by (simp add: le_value_le_bytes)

lemma ntohll_macro_halves:
  assumes "length lo = 4" "length hi = 4" "unat n mod 2 ^ 32 = le_value lo" "unat n' div 2 ^ 32 = le_value hi"
  shows "unat (ntohll_macro n n') = be_value (lo @ hi)"
proof -
  have lo: "be_value lo < 2 ^ 32" and hi: "be_value hi < 2 ^ 32"
    using be_value_lt [of lo] be_value_lt [of hi] assms by simp_all
  have "unat (ucast n :: u32) = le_value lo" using assms(3) by (simp add: unsigned_ucast_eq take_bit_eq_mod)
  then have l: "unat (ntohl (ucast n)) = be_value lo" using assms(1) by (simp add: endian_simps)
  have "le_value hi < 2 ^ 32" using le_value_lt [of hi] assms(2) by simp
  moreover have "unat (drop_bit 32 n') = le_value hi"
    using assms(4) by (simp add: drop_bit_eq_div unat_div)
  ultimately have "unat (ucast (drop_bit 32 n') :: u32) = le_value hi"
    by (simp add: unsigned_ucast_eq take_bit_eq_mod)
  then have h: "unat (ntohl (ucast (drop_bit 32 n'))) = be_value hi" using assms(2) by (simp add: endian_simps)
  have "unat (push_bit 32 (ucast (ntohl (ucast n))) :: u64) = be_value lo * 2 ^ 32"
  proof -
    have "unat (ucast (ntohl (ucast n)) :: u64) = be_value lo"
      using l lo by (simp add: unsigned_ucast_eq take_bit_eq_mod)
    then show ?thesis using lo by (simp add: push_bit_eq_mult unat_word_ariths)
  qed
  moreover have "unat (ucast (ntohl (ucast (drop_bit 32 n'))) :: u64) = be_value hi"
    using h hi by (simp add: unsigned_ucast_eq take_bit_eq_mod)
  ultimately show ?thesis
    using lo hi assms(2) by (simp add: ntohll_macro_def unat_word_ariths be_value_append)
qed

lemma ntohll_macro_eq: "ntohll_macro v v = ntohll v"
proof -
  define bs where "bs = le_bytes 8 (unat v)"
  have bs: "bs = take 4 bs @ drop 4 bs" "length (take 4 bs) = 4" "length (drop 4 bs) = 4"
    by (simp_all add: bs_def)
  have v: "unat v = le_value (take 4 bs) + 2 ^ 32 * le_value (drop 4 bs)"
  proof -
    have "unat v = le_value bs" by (simp add: bs_def unat_le_bytes)
    also have "\<dots> = le_value (take 4 bs @ drop 4 bs)" using bs(1) by (rule arg_cong)
    finally show ?thesis using bs(2) by (simp add: le_value_append del: append_take_drop_id)
  qed
  have "le_value (take 4 bs) < 2 ^ 32" using le_value_lt [of "take 4 bs"] bs(2) by simp
  then have "unat (ntohll_macro v v) = be_value (take 4 bs @ drop 4 bs)"
    using v bs by (intro ntohll_macro_halves) auto
  also have "\<dots> = unat (ntohll v)" by (simp add: endian_simps byte_swap_def be_value_def bs_def)
  finally show ?thesis by (simp add: word_unat_eq_iff)
qed

end
