(* ===== verification/Video_Stream.thy ===== *)
theory Video_Stream
  imports Ap_Crypto Byte_Order Rtp_Packet
begin

text \<open>
  The video stream of a mirroring session: \<open>ap_mirroring_video_stream_connection\<close> of
  \<open>src/service/ap_mirroring_video_stream_service.cpp\<close>. A packet is a header of 128 bytes and a
  payload whose size the header announces; both are read into one buffer of 4 MB, the header at its
  front and the payload behind it. A pending read of the socket library is an action; the bytes it
  delivers are stored at the place the code asked for.
\<close>

definition sms_video_data :: nat where "sms_video_data = 0"
definition sms_video_codec :: nat where "sms_video_codec = 1"
definition sms_payload_5 :: nat where "sms_payload_5 = 5"
definition sms_payload_4096 :: nat where "sms_payload_4096 = 4096"

definition SMS_BUFFER_SIZE :: nat where "SMS_BUFFER_SIZE = 4 * 1024 * 1024"
definition sizeof_sms_packet_header :: nat where "sizeof_sms_packet_header = 128"

definition sms_payload_size :: "u8 list \<Rightarrow> u32" where "sms_payload_size p = get32 p 0"
definition sms_payload_type :: "u8 list \<Rightarrow> u16" where "sms_payload_type p = get16 p 4"
definition sms_timestamp :: "u8 list \<Rightarrow> u64" where "sms_timestamp p = get64 p 8"

record video_connection =
  video_handler :: bool
  video_crypto :: ap_crypto
  buffer :: "u8 list"

definition new_video_connection :: "ap_crypto \<Rightarrow> bool \<Rightarrow> video_connection" where
  "new_video_connection c h = \<lparr>video_handler = h, video_crypto = c, buffer = replicate SMS_BUFFER_SIZE 0\<rparr>"

text \<open>The calls of the session handler, with the packet as it is in memory, up to its announced end.\<close>

datatype video_event = Video_data "u8 list" | Video_codec "u8 list" | Heartbeat | Unknown_payload

datatype video_action = Read_at nat nat | Log_video_error

definition post_receive_packet_header :: "video_connection \<Rightarrow> video_connection \<times> video_action list" where
  "post_receive_packet_header s =
     (s\<lparr>buffer := put (buffer s) 0 (replicate sizeof_sms_packet_header 0)\<rparr>, [Read_at 0 sizeof_sms_packet_header])"

definition video_start :: "video_connection \<Rightarrow> video_connection \<times> video_action list" where
  "video_start s = post_receive_packet_header s"

definition post_receive_packet_payload :: "video_connection \<Rightarrow> video_connection \<times> video_action list" where
  "post_receive_packet_payload s = (s, [Read_at sizeof_sms_packet_header (unat (sms_payload_size (buffer s)))])"

definition video_handle_socket_error :: "socket_error \<Rightarrow> video_action list" where
  "video_handle_socket_error e = (case e of Eof \<Rightarrow> [] | Other_error _ \<Rightarrow> [Log_video_error])"

definition on_packet_header_received :: "socket_error option \<Rightarrow> video_connection \<Rightarrow> video_connection \<times> video_action list" where
  "on_packet_header_received e s =
     (case e of
        Some e \<Rightarrow> (s, video_handle_socket_error e)
      | None \<Rightarrow>
          (let p = buffer s;
               p = set32 0 (swap_bytes32 (sms_payload_size p)) p;
               p = set32 0 (ntohl (sms_payload_size p)) p;
               p = set16 4 (swap_bytes16 (sms_payload_type p)) p;
               p = set16 4 (ntohs (sms_payload_type p)) p;
               p = set64 8 (swap_bytes64 (sms_timestamp p)) p;
               p = set64 8 (ntohll_macro (sms_timestamp p) (sms_timestamp p)) p
           in post_receive_packet_payload (s\<lparr>buffer := p\<rparr>)))"

definition process_packet :: "crypto_lib \<Rightarrow> video_connection \<Rightarrow> (video_connection \<times> video_event list) c_run" where
  "process_packet L s =
     (let t = unat (sms_payload_type (buffer s)); n = unat (sms_payload_size (buffer s)) in
      if t = sms_video_data \<or> t = sms_payload_4096 then
        c_bind (c_load (buffer s) sizeof_sms_packet_header n) (\<lambda>frame.
          let (frame, c) = decrypt_video_frame L frame (video_crypto s);
              s = s\<lparr>buffer := put (buffer s) sizeof_sms_packet_header frame, video_crypto := c\<rparr>
          in Returns (s, if video_handler s then [Video_data (take (sizeof_sms_packet_header + n) (buffer s))] else []))
      else if t = sms_video_codec then
        Returns (s, if video_handler s then [Video_codec (take (sizeof_sms_packet_header + n) (buffer s))] else [])
      else if t = sms_payload_5 then Returns (s, if video_handler s then [Heartbeat] else [])
      else Returns (s, [Unknown_payload]))"

definition on_packet_payload_received :: "crypto_lib \<Rightarrow> socket_error option \<Rightarrow> video_connection
    \<Rightarrow> (video_connection \<times> video_event list \<times> video_action list) c_run" where
  "on_packet_payload_received L e s =
     (case e of
        None \<Rightarrow>
          c_bind (process_packet L s) (\<lambda>(s, evs).
            let (s, as) = post_receive_packet_header s in Returns (s, evs, as))
      | Some e \<Rightarrow> Returns (s, [], video_handle_socket_error e))"

text \<open>
  The library completes the first of the pending reads with bytes of the stream: it stores them where
  the code asked, and the completion handler runs. A read that is not complete stays pending.
\<close>

fun complete_read :: "crypto_lib \<Rightarrow> u8 list \<Rightarrow> video_action \<Rightarrow> video_connection
    \<Rightarrow> (video_connection \<times> video_event list \<times> video_action list) c_run" where
  "complete_read L bytes (Read_at off n) s =
     c_bind (c_store (buffer s) off bytes) (\<lambda>b.
       if off = 0 then
         let (s, as) = on_packet_header_received None (s\<lparr>buffer := b\<rparr>) in Returns (s, [], as)
       else on_packet_payload_received L None (s\<lparr>buffer := b\<rparr>))"
| "complete_read L bytes Log_video_error s = Returns (s, [], [])"

fun video_run :: "crypto_lib \<Rightarrow> u8 list list \<Rightarrow> video_action list \<Rightarrow> video_connection
    \<Rightarrow> (video_connection \<times> video_event list \<times> video_action list) c_run" where
  "video_run L [] as s = Returns (s, [], as)"
| "video_run L (bs # chunks) [] s = Returns (s, [], [])"
| "video_run L (bs # chunks) (a # as) s =
     c_bind (complete_read L bs a s) (\<lambda>(s, evs, as).
     c_bind (video_run L chunks as s) (\<lambda>(s, evs', as). Returns (s, evs @ evs', as)))"

section \<open>The header conversion\<close>

lemma set_get_same:
  "i + 2 \<le> length p \<Longrightarrow> set16 i (get16 p i) p = p"
  "i + 4 \<le> length p \<Longrightarrow> set32 i (get32 p i) p = p"
  "i + 8 \<le> length p \<Longrightarrow> set64 i (get64 p i) p = p"
proof -
  have same: "put p i (le_bytes n (le_value (slice i n p))) = p" if "i + n \<le> length p" for n
    using that le_bytes_le_value [of "slice i n p"] by (simp add: slice_def put_def) (metis append_take_drop_id drop_drop add.commute)
  show "i + 2 \<le> length p \<Longrightarrow> set16 i (get16 p i) p = p"
    "i + 4 \<le> length p \<Longrightarrow> set32 i (get32 p i) p = p"
    "i + 8 \<le> length p \<Longrightarrow> set64 i (get64 p i) p = p"
    using same le_value_lt [of "slice i 2 p"] le_value_lt [of "slice i 4 p"] le_value_lt [of "slice i 8 p"]
    by (simp_all add: set16_def set32_def set64_def get16_def get32_def get64_def unat_of_nat slice_def)
qed

lemma set_set_same:
  "i + 2 \<le> length p \<Longrightarrow> set16 i v' (set16 i v p) = set16 i v' p"
  "i + 4 \<le> length p \<Longrightarrow> set32 i w' (set32 i w p) = set32 i w' p"
  "i + 8 \<le> length p \<Longrightarrow> set64 i x' (set64 i x p) = set64 i x' p"
  by (simp_all add: set16_def set32_def set64_def put_put_same)

lemma header_received:
  assumes "128 \<le> length (buffer s)"
  shows "on_packet_header_received None s = (s, [Read_at 128 (unat (sms_payload_size (buffer s)))])"
  using assms
  by (simp add: on_packet_header_received_def Let_def sms_payload_size_def sms_payload_type_def sms_timestamp_def
      swap_bytes16_eq swap_bytes32_eq swap_bytes64_eq ntohll_macro_eq set_set_same set_get_same
      post_receive_packet_payload_def sizeof_sms_packet_header_def)

section \<open>One packet\<close>

lemma sms_fields_prefix:
  assumes "length hdr = 128"
  shows "sms_payload_size (hdr @ r) = sms_payload_size hdr" "sms_payload_type (hdr @ r) = sms_payload_type hdr"
    "sms_timestamp (hdr @ r) = sms_timestamp hdr"
  using assms
  by (simp_all add: sms_payload_size_def sms_payload_type_def sms_timestamp_def get16_def get32_def get64_def slice_def)

definition encrypted_type :: "u8 list \<Rightarrow> bool" where
  "encrypted_type hdr \<longleftrightarrow> unat (sms_payload_type hdr) = sms_video_data \<or> unat (sms_payload_type hdr) = sms_payload_4096"

text \<open>What the session handler is told of a packet with a given plain payload.\<close>

definition video_event_of :: "u8 list \<times> u8 list \<Rightarrow> video_event" where
  "video_event_of pkt =
     (let (hdr, plain) = pkt; t = unat (sms_payload_type hdr) in
      if encrypted_type hdr then Video_data (hdr @ plain)
      else if t = sms_video_codec then Video_codec (hdr @ plain)
      else if t = sms_payload_5 then Heartbeat else Unknown_payload)"

definition packet_fits :: "nat \<Rightarrow> u8 list \<times> u8 list \<Rightarrow> bool" where
  "packet_fits room pkt \<longleftrightarrow> length (fst pkt) = 128 \<and>
     unat (sms_payload_size (fst pkt)) = length (snd pkt) \<and> 128 + length (snd pkt) \<le> room"

lemma header_chunk:
  assumes "length hdr = 128" "128 \<le> length (buffer s)"
  shows "complete_read L hdr (Read_at 0 128) s =
    Returns (s\<lparr>buffer := hdr @ drop 128 (buffer s)\<rparr>, [], [Read_at 128 (unat (sms_payload_size hdr))])"
proof -
  have "put (buffer s) 0 hdr = hdr @ drop 128 (buffer s)" using assms by (simp add: put_def)
  then show ?thesis
    using assms by (simp add: c_store_def header_received sms_fields_prefix)
qed

lemma payload_chunk:
  assumes hdr: "length hdr = 128" and n: "unat (sms_payload_size hdr) = length body"
    and b: "buffer s = hdr @ rest" "length body \<le> length rest" and h: "video_handler s"
  obtains s' where "length (buffer s') = length (buffer s)" "video_handler s'"
    and "video_crypto s' = (if encrypted_type hdr then snd (decrypt_video_frame L body (video_crypto s)) else video_crypto s)"
    and "complete_read L body (Read_at 128 (length body)) s =
      Returns (s', [video_event_of (hdr, if encrypted_type hdr
        then fst (decrypt_video_frame L body (video_crypto s)) else body)], [Read_at 0 128])"
proof -
  define tail where "tail = drop (length body) rest"
  have store: "c_store (buffer s) 128 body = Returns (hdr @ body @ tail)"
    using hdr b by (simp add: c_store_def put_def tail_def)
  have fields: "unat (sms_payload_size (hdr @ r)) = length body" "sms_payload_type (hdr @ r) = sms_payload_type hdr" for r
    using hdr n by (simp_all add: sms_fields_prefix)
  have load: "c_load (hdr @ body @ tail) 128 (length body) = Returns body"
    using hdr by (simp add: c_load_def slice_def)
  define f where "f = fst (decrypt_video_frame L body (video_crypto s))"
  have f: "length f = length body"
    by (simp add: f_def decrypt_video_frame_def ctr_xcrypt_buffer_def ctr_length split_beta)
  have put: "put (hdr @ body @ tail) 128 f = hdr @ f @ tail" using hdr f by (simp add: put_def)
  define b' where "b' = (if encrypted_type hdr then hdr @ f @ tail else hdr @ body @ tail)"
  define c' where "c' = (if encrypted_type hdr then snd (decrypt_video_frame L body (video_crypto s)) else video_crypto s)"
  have run: "process_packet L (s\<lparr>buffer := hdr @ body @ tail\<rparr>) = Returns (s\<lparr>buffer := b', video_crypto := c'\<rparr>,
      [video_event_of (hdr, if encrypted_type hdr then f else body)])"
    using hdr h f
    by (auto simp: process_packet_def fields load put Let_def split_beta sizeof_sms_packet_header_def b'_def c'_def
        encrypted_type_def video_event_of_def sms_video_data_def sms_payload_4096_def sms_video_codec_def
        sms_payload_5_def simp flip: f_def)
  have len: "length b' = length (buffer s)" using b f by (simp add: b'_def tail_def)
  show thesis
  proof (rule that)
    let ?s' = "s\<lparr>buffer := put b' 0 (replicate 128 0), video_crypto := c'\<rparr>"
    show "length (buffer ?s') = length (buffer s)" using len b hdr by (simp add: length_put)
    show "video_handler ?s'" "video_crypto ?s' = (if encrypted_type hdr
        then snd (decrypt_video_frame L body (video_crypto s)) else video_crypto s)"
      using h by (simp_all add: c'_def)
    show "complete_read L body (Read_at 128 (length body)) s =
      Returns (?s', [video_event_of (hdr, if encrypted_type hdr
        then fst (decrypt_video_frame L body (video_crypto s)) else body)], [Read_at 0 128])"
      by (simp add: store on_packet_payload_received_def run post_receive_packet_header_def
          sizeof_sms_packet_header_def f_def)
  qed
qed

section \<open>A stream of packets\<close>

text \<open>The sender encrypts video payloads with one key stream; the other payloads are sent as they are.\<close>

fun send_packets :: "crypto_lib \<Rightarrow> ap_aes_ctr128 \<Rightarrow> (u8 list \<times> u8 list) list \<Rightarrow> u8 list list" where
  "send_packets L ctr [] = []"
| "send_packets L ctr ((hdr, plain) # pkts) =
     (if encrypted_type hdr
      then let (body, ctr) = ctr_xcrypt_buffer (AES_encrypt L) plain ctr in hdr # body # send_packets L ctr pkts
      else hdr # plain # send_packets L ctr pkts)"

lemma ctr_xcrypt_twice:
  "ctr_xcrypt_buffer E (fst (ctr_xcrypt_buffer E xs a)) a = (xs, snd (ctr_xcrypt_buffer E xs a))"
  using ctr_involution [of E "ctr_ctx a" xs "ctr_pos a"]
  by (simp add: ctr_xcrypt_buffer_def split_beta)

lemma video_run_packets:
  assumes "list_all (packet_fits (length (buffer s))) pkts" "video_handler s"
    "mirror_stream_aes_ctr (video_crypto s) = ctr"
  obtains s' where "video_run L (send_packets L ctr pkts) [Read_at 0 128] s =
    Returns (s', map video_event_of pkts, [Read_at 0 128])"
    and "length (buffer s') = length (buffer s)" and "video_handler s'"
proof -
  have "\<exists>s'. video_run L (send_packets L ctr pkts) [Read_at 0 128] s =
      Returns (s', map video_event_of pkts, [Read_at 0 128]) \<and> length (buffer s') = length (buffer s) \<and> video_handler s'"
    using assms
  proof (induction pkts arbitrary: s ctr)
    case (Cons pkt pkts)
    obtain hdr plain where pkt: "pkt = (hdr, plain)" by (cases pkt)
    define body where "body = (if encrypted_type hdr then fst (ctr_xcrypt_buffer (AES_encrypt L) plain ctr) else plain)"
    define ctr' where "ctr' = (if encrypted_type hdr then snd (ctr_xcrypt_buffer (AES_encrypt L) plain ctr) else ctr)"
    have fits: "length hdr = 128" "unat (sms_payload_size hdr) = length plain" "128 + length plain \<le> length (buffer s)"
      using Cons.prems(1) by (simp_all add: packet_fits_def pkt)
    have body: "length body = length plain"
      by (simp add: body_def ctr_xcrypt_buffer_def ctr_length split_beta)
    define s1 where "s1 = s\<lparr>buffer := hdr @ drop 128 (buffer s)\<rparr>"
    have one: "complete_read L hdr (Read_at 0 128) s = Returns (s1, [], [Read_at 128 (length body)])"
      using header_chunk [of hdr s L] fits body by (simp add: s1_def)
    have dec: "encrypted_type hdr \<Longrightarrow> decrypt_video_frame L body (video_crypto s) =
        (plain, (video_crypto s)\<lparr>mirror_stream_aes_ctr := ctr'\<rparr>)"
      using ctr_xcrypt_twice [of "AES_encrypt L" plain ctr] Cons.prems(3)
      by (simp add: decrypt_video_frame_def body_def ctr'_def)
    obtain s2 where two: "length (buffer s2) = length (buffer s1)" "video_handler s2"
      "video_crypto s2 = (if encrypted_type hdr then snd (decrypt_video_frame L body (video_crypto s1)) else video_crypto s1)"
      "complete_read L body (Read_at 128 (length body)) s1 = Returns (s2, [video_event_of (hdr,
        if encrypted_type hdr then fst (decrypt_video_frame L body (video_crypto s1)) else body)], [Read_at 0 128])"
      by (rule payload_chunk [of hdr body s1 "drop 128 (buffer s)" L])
        (use fits body Cons.prems(2) in \<open>simp_all add: s1_def\<close>)
    have len: "length (buffer s2) = length (buffer s)" using two(1) fits by (simp add: s1_def)
    have ctr: "mirror_stream_aes_ctr (video_crypto s2) = ctr'"
      using two(3) dec Cons.prems(3) by (simp add: s1_def ctr'_def)
    have ev: "video_event_of (hdr, if encrypted_type hdr then fst (decrypt_video_frame L body (video_crypto s1)) else body) =
        video_event_of pkt"
      using dec by (simp add: s1_def pkt body_def)
    obtain s' where "video_run L (send_packets L ctr' pkts) [Read_at 0 128] s2 =
        Returns (s', map video_event_of pkts, [Read_at 0 128])" "length (buffer s') = length (buffer s2)" "video_handler s'"
      using Cons.IH [of s2 ctr'] Cons.prems(1) two(2) ctr len by auto
    moreover have "send_packets L ctr (pkt # pkts) = hdr # body # send_packets L ctr' pkts"
      by (simp add: pkt body_def ctr'_def split_beta)
    ultimately show ?case
      by (intro exI [of _ s']) (simp add: one two(4) ev len del: complete_read.simps)
  qed simp
  then show thesis using that by blast
qed

end
