(* ===== verification/Video_Properties.thy ===== *)
theory Video_Properties
  imports Video_Stream Audio_Properties
begin

text \<open>The properties of the video stream. A header with a given size and type serves as the witness.\<close>

definition sms_header :: "nat \<Rightarrow> nat \<Rightarrow> u8 list" where
  "sms_header n t = le_bytes 4 n @ le_bytes 2 t @ replicate 122 0"

lemma sms_header:
  "length (sms_header n t) = 128"
  "n < 2 ^ 32 \<Longrightarrow> unat (sms_payload_size (sms_header n t)) = n"
  "t < 2 ^ 16 \<Longrightarrow> unat (sms_payload_type (sms_header n t)) = t"
  by (simp_all add: sms_header_def sms_payload_size_def sms_payload_type_def get16_def get32_def slice_def
      le_value_le_bytes unat_of_nat)

definition sample_video :: video_connection where
  "sample_video = new_video_connection (new_ap_crypto sample_keys) True"

lemma sample_video:
  "length (buffer sample_video) = SMS_BUFFER_SIZE" "video_handler sample_video"
  "mirror_stream_aes_ctr (video_crypto sample_video) = ctr_reset"
  by (simp_all add: sample_video_def new_video_connection_def new_ap_crypto_def)

text \<open>C33: The header fields are little-endian on the wire and the host is little-endian: the two swaps of
  each field cancel, the buffer is unchanged, and the payload is asked for with its announced size.\<close>

theorem video_header_native:
  assumes "sizeof_sms_packet_header \<le> length (buffer s)"
  shows "on_packet_header_received None s = (s, [Read_at 128 (unat (sms_payload_size (buffer s)))])"
  using assms by (intro header_received) (simp add: sizeof_sms_packet_header_def)

lemma video_header_native_witness:
  "on_packet_header_received None sample_video =
    (sample_video, [Read_at 128 (unat (sms_payload_size (buffer sample_video)))])"
  by (rule video_header_native)
    (simp add: sample_video sizeof_sms_packet_header_def SMS_BUFFER_SIZE_def)

text \<open>C8: Whatever packets arrive, in whatever mixture, the session handler is told of each once, in order,
  with its plain payload: video payloads are decrypted with one key stream that runs on from packet to
  packet, the others are passed on as they are, and the next header is asked for. Every payload must
  fit the buffer behind the header.\<close>

theorem video_stream_roundtrip:
  assumes "list_all (packet_fits (length (buffer s))) pkts" and "video_handler s"
  shows "\<exists>s'. video_run L (send_packets L (mirror_stream_aes_ctr (video_crypto s)) pkts) [Read_at 0 128] s =
    Returns (s', map video_event_of pkts, [Read_at 0 128])"
  by (rule video_run_packets [OF assms refl]) blast

lemma video_stream_roundtrip_witness:
  "\<exists>s'. video_run identity_lib (send_packets identity_lib ctr_reset
      [(sms_header 3 0, [1, 2, 3]), (sms_header 1 1, [7]), (sms_header 2 4096, [4, 5])]) [Read_at 0 128] sample_video =
    Returns (s', [Video_data (sms_header 3 0 @ [1, 2, 3]), Video_codec (sms_header 1 1 @ [7]),
      Video_data (sms_header 2 4096 @ [4, 5])], [Read_at 0 128])"
proof -
  have "list_all (packet_fits (length (buffer sample_video)))
      [(sms_header 3 0, [1, 2, 3]), (sms_header 1 1, [7]), (sms_header 2 4096, [4, 5])]"
    by (simp add: packet_fits_def sms_header sample_video SMS_BUFFER_SIZE_def)
  from video_stream_roundtrip [OF this sample_video(2), of identity_lib] show ?thesis
    by (simp add: sample_video video_event_of_def encrypted_type_def sms_header sms_video_data_def
        sms_payload_4096_def sms_video_codec_def)
qed

text \<open>C32: The announced size is not checked against the buffer: a packet whose payload does not fit behind
  the header is written past the end of the buffer.\<close>

theorem video_payload_overflow:
  assumes "length (buffer s) = SMS_BUFFER_SIZE" and "length hdr = sizeof_sms_packet_header"
    and "unat (sms_payload_size hdr) = length body" and "SMS_BUFFER_SIZE < sizeof_sms_packet_header + length body"
  shows "video_run L [hdr, body] [Read_at 0 128] s = Undefined (Out_of_bounds 128 (length body))"
  using assms header_chunk [of hdr s L]
  by (simp add: sizeof_sms_packet_header_def SMS_BUFFER_SIZE_def c_store_def del: complete_read.simps(1))
    (simp add: c_store_def)

lemma video_payload_overflow_witness:
  "video_run identity_lib [sms_header 4194177 0, replicate 4194177 0] [Read_at 0 128] sample_video =
    Undefined (Out_of_bounds 128 4194177)"
  using video_payload_overflow [of sample_video "sms_header 4194177 0" "replicate 4194177 0" identity_lib]
  by (simp add: sample_video sms_header sizeof_sms_packet_header_def SMS_BUFFER_SIZE_def)

end
