(* ===== verification/Timing_Sync.thy ===== *)
theory Timing_Sync
  imports Byte_Order Rtp_Packet
begin

text \<open>
  NTP time stamps (\<open>src/utils/utils.cpp\<close>, and the conversion of the Android wrapper in
  \<open>IAirPlayMirroringHandler.cpp\<close>) and \<open>ap_mirroring_timing_sync_service\<close>. The system clock is an
  argument: milliseconds since 1970. Single-precision arithmetic is modelled on the integers that
  occur: \<open>round24\<close> rounds to 24 significant bits, ties to even; the double-precision operations
  of the code are exact.
\<close>

definition EPOCH :: nat where "EPOCH = 2208988800"

definition get_ntp_timestamp :: "nat \<Rightarrow> u64" where
  "get_ntp_timestamp ms =
     (let seconds = of_nat (ms div 1000 + EPOCH); fraction = of_nat (ms mod 1000 * 2 ^ 32 div 1000)
      in push_bit 32 seconds OR fraction)"

fun excess_bits :: "nat \<Rightarrow> nat" where
  "excess_bits n = (if n < 2 ^ 24 then 0 else Suc (excess_bits (n div 2)))"

declare excess_bits.simps [simp del]

definition round24 :: "nat \<Rightarrow> nat" where
  "round24 n =
     (let u = 2 ^ excess_bits n; q = n div u; r = n mod u
      in if 2 * r > u \<or> 2 * r = u \<and> odd q then (q + 1) * u else q * u)"

definition normalize_ntp_to_ms :: "u64 \<Rightarrow> u64" where
  "normalize_ntp_to_ms ntp =
     (let milliseconds = drop_bit 32 ntp * 1000;
          product = round24 (round24 (unat (ntp AND 0xffffffff)) * 1000);
          fraction = product div 2 ^ 32 mod 2 ^ 32
      in milliseconds + of_nat fraction)"

definition android_normalize_ntp_to_ms :: "u64 \<Rightarrow> u64" where
  "android_normalize_ntp_to_ms ntp =
     (let milliseconds = drop_bit 32 ntp * 1000 - of_nat EPOCH;
          fraction = unat (ntp AND 0xffffffff) * 1000 div 2 ^ 32 mod 2 ^ 32
      in milliseconds + of_nat fraction)"

section \<open>The service\<close>

text \<open>The two packets are members of the service; a query is sent from, a reply received into, its memory.\<close>

record timing_service =
  remote_endpoint :: "string \<times> nat"
  query_packet :: "u8 list"
  reply_packet :: "u8 list"

datatype timing_action = Send_to "u8 list" "string \<times> nat" | Recv_reply | Log_timing

definition rtp_packet_init :: "nat \<Rightarrow> u8 list" where
  "rtp_packet_init n = 0x80 # replicate (n - 1) 0"

definition new_timing_service :: timing_service where
  "new_timing_service = \<lparr>remote_endpoint = ('''', 0),
     query_packet = rtp_packet_init sizeof_rtp_timming_sync_packet,
     reply_packet = rtp_packet_init sizeof_rtp_timming_sync_packet\<rparr>"

definition set_server_endpoint :: "string \<Rightarrow> nat \<Rightarrow> timing_service \<Rightarrow> timing_service" where
  "set_server_endpoint addr port s = s\<lparr>remote_endpoint := (addr, port)\<rparr>"

text \<open>The clock is read twice, because the macro evaluates its argument twice.\<close>

definition post_send_query :: "nat \<Rightarrow> nat \<Rightarrow> timing_service \<Rightarrow> timing_service \<times> timing_action list" where
  "post_send_query ms ms' s =
     (let q = set_payload_type rtp_timing_query (set_marker 1 (query_packet s));
          q = set64 8 (ntohll_macro 0 0) q;
          q = set64 16 (ntohll_macro 0 0) q;
          q = set64 24 (ntohll_macro (get_ntp_timestamp ms) (get_ntp_timestamp ms')) q
      in (s\<lparr>query_packet := q\<rparr>, [Send_to q (remote_endpoint s)]))"

definition timing_on_send_to :: "socket_error option \<Rightarrow> timing_service \<Rightarrow> timing_service \<times> timing_action list" where
  "timing_on_send_to e s = (s, [if e \<noteq> None then Log_timing else Recv_reply])"

definition timing_on_recv_from :: "socket_error option \<Rightarrow> timing_service \<Rightarrow> timing_service \<times> timing_action list" where
  "timing_on_recv_from e s =
     (if e \<noteq> None then (s, [Log_timing])
      else
        let p = reply_packet s;
            p = set16 2 (ntohs (get16 p 2)) p;
            p = set32 4 (ntohl (get32 p 4)) p;
            p = set64 8 (ntohll_macro (get64 p 8) (get64 p 8)) p;
            p = set64 16 (ntohll_macro (get64 p 16) (get64 p 16)) p;
            p = set64 24 (ntohll_macro (get64 p 24) (get64 p 24)) p
        in (s\<lparr>reply_packet := p\<rparr>, [Log_timing]))"

section \<open>Time stamps\<close>

lemma low32: "(ntp :: u64) AND 0xffffffff = ntp mod 2 ^ 32"
proof -
  have "(0xffffffff :: u64) = mask 32" by (simp add: mask_eq_exp_minus_1)
  then show ?thesis by (simp only: take_bit_eq_mask [symmetric] take_bit_eq_mod)
qed

lemma bit_small: "f < 2 ^ 32 \<Longrightarrow> bit (of_nat f :: u64) n \<Longrightarrow> n < 32"
proof (rule ccontr)
  assume f: "f < 2 ^ 32" and bit: "bit (of_nat f :: u64) n" and "\<not> n < 32"
  then have "(2 :: nat) ^ 32 \<le> 2 ^ n" by (intro power_increasing) auto
  with f have "f div 2 ^ n = 0" by simp
  moreover have "bit f n" using bit by (simp add: bit_simps)
  ultimately show False by (simp add: bit_iff_odd)
qed

lemma ntp_parts:
  assumes "s < 2 ^ 32" "f < 2 ^ 32" and "ntp = push_bit 32 (of_nat s) OR (of_nat f :: u64)"
  shows "unat (drop_bit 32 ntp) = s" and "unat (ntp AND 0xffffffff) = f" and "unat ntp = s * 2 ^ 32 + f"
proof -
  have "ntp = push_bit 32 (of_nat s) + of_nat f"
    unfolding assms(3)
  proof (rule disjunctive_add [symmetric])
    show "\<not> bit (push_bit 32 (of_nat s :: u64)) n \<or> \<not> bit (of_nat f :: u64) n" for n
      using bit_small [OF assms(2), of n] by (cases "n < 32") (auto simp: bit_push_bit_iff)
  qed
  then have "ntp = of_nat (s * 2 ^ 32 + f)" by (simp add: push_bit_eq_mult)
  moreover have "s * 2 ^ 32 + f < 2 ^ 64" using assms by simp
  ultimately show n: "unat ntp = s * 2 ^ 32 + f"
    by (simp only: unat_of_nat) simp
  show "unat (drop_bit 32 ntp) = s" "unat (ntp AND 0xffffffff) = f"
    using n assms(2) by (simp_all add: low32 drop_bit_eq_div unat_div unat_mod)
qed

lemma excess_bits_bound: "excess_bits n = 0 \<or> 2 ^ 23 * 2 ^ excess_bits n \<le> n"
proof (induction n rule: excess_bits.induct)
  case (1 n)
  show ?case
  proof (cases "n < 2 ^ 24")
    case False
    then have "2 ^ 23 * 2 ^ excess_bits (n div 2) \<le> n div 2"
      using 1 by (cases "excess_bits (n div 2) = 0") simp_all
    moreover have "n div 2 * 2 \<le> n" by simp
    ultimately have "2 ^ 23 * (2 * 2 ^ excess_bits (n div 2)) \<le> n" by linarith
    then show ?thesis using False by (simp add: excess_bits.simps [of n])
  qed (simp add: excess_bits.simps [of n])
qed

lemma round24_error: "2 ^ 24 * round24 n \<le> 2 ^ 24 * n + n" "2 ^ 24 * n \<le> 2 ^ 24 * round24 n + n"
proof -
  define u q r where "u = (2 :: nat) ^ excess_bits n" and "q = n div u" and "r = n mod u"
  have n: "n = q * u + r" unfolding q_def r_def by (rule div_mult_mod_eq [symmetric])
  have r: "r < u" by (simp add: u_def r_def)
  have small: "2 ^ 23 * u \<le> n \<or> r = 0" using excess_bits_bound [of n] by (auto simp: u_def r_def)
  have round: "round24 n = (if 2 * r > u \<or> 2 * r = u \<and> odd q then q * u + u else q * u)"
    by (simp add: round24_def Let_def u_def q_def r_def)
  consider "round24 n = q * u + u" "u \<le> 2 * r" | "round24 n = q * u" "2 * r \<le> u"
    using round by (auto split: if_splits)
  then show "2 ^ 24 * round24 n \<le> 2 ^ 24 * n + n" "2 ^ 24 * n \<le> 2 ^ 24 * round24 n + n"
    using n r small by (cases; force)+
qed

text \<open>A time stamp read back differs from the clock by at most a millisecond, besides the epoch.\<close>

lemma fraction_bounds:
  fixes m f :: nat
  assumes "m < 1000" and "f = m * 2 ^ 32 div 1000"
  shows "f < 2 ^ 32" "f * 1000 \<le> m * 2 ^ 32" "m * 2 ^ 32 < f * 1000 + 1000"
proof -
  have "m * 2 ^ 32 = f * 1000 + m * 2 ^ 32 mod 1000" unfolding assms(2) by (rule div_mult_mod_eq [symmetric])
  moreover have "m * 2 ^ 32 mod 1000 < 1000" by simp
  ultimately show "f * 1000 \<le> m * 2 ^ 32" "m * 2 ^ 32 < f * 1000 + 1000" by linarith+
  then show "f < 2 ^ 32" using assms(1) by simp
qed

lemma round_fraction:
  assumes "m < 1000" and "f = m * 2 ^ 32 div 1000"
  shows "round24 (round24 f * 1000) div 2 ^ 32 \<le> m" "m \<le> round24 (round24 f * 1000) div 2 ^ 32 + 1"
    "f * 1000 div 2 ^ 32 \<le> m" "m \<le> f * 1000 div 2 ^ 32 + 1"
proof -
  note f = fraction_bounds [OF assms]
  note e = round24_error [of f] round24_error [of "round24 f * 1000"]
  have up: "round24 (round24 f * 1000) < (m + 1) * 2 ^ 32" using f e assms(1) by simp
  have down: "m * 2 ^ 32 \<le> round24 (round24 f * 1000) + 2 ^ 32" using f e assms(1) by simp
  show "round24 (round24 f * 1000) div 2 ^ 32 \<le> m" using up by (simp add: less_mult_imp_div_less flip: less_Suc_eq_le)
  show "m \<le> round24 (round24 f * 1000) div 2 ^ 32 + 1"
    using down by (simp add: less_eq_div_iff_mult_less_eq flip: div_add_self2)
  show "f * 1000 div 2 ^ 32 \<le> m" "m \<le> f * 1000 div 2 ^ 32 + 1" using f by simp_all
qed

lemma get_ntp_parts:
  assumes "ms div 1000 + EPOCH < 2 ^ 32"
  shows "unat (drop_bit 32 (get_ntp_timestamp ms)) = ms div 1000 + EPOCH"
    and "unat (get_ntp_timestamp ms AND 0xffffffff) = ms mod 1000 * 2 ^ 32 div 1000"
    and "unat (get_ntp_timestamp ms) = (ms div 1000 + EPOCH) * 2 ^ 32 + ms mod 1000 * 2 ^ 32 div 1000"
  by (rule ntp_parts [OF assms fraction_bounds(1) [OF _ refl, of "ms mod 1000"]];
      simp add: get_ntp_timestamp_def Let_def)+

lemma ntp_seconds:
  "ms div 1000 + EPOCH < 2 ^ 32 \<Longrightarrow> drop_bit 32 (get_ntp_timestamp ms) = of_nat (ms div 1000 + EPOCH)"
  by (simp only: word_unat_eq_iff get_ntp_parts) (simp add: unat_of_nat del: of_nat_add)

lemma unat_u64: "n < 2 ^ 64 \<Longrightarrow> unat (of_nat n :: u64) = n"
  by (simp add: unat_of_nat)

lemma within_ms:
  fixes t q e m k ms :: nat
  shows "t = (q + e) * 1000 + k \<Longrightarrow> k \<le> m \<Longrightarrow> m \<le> k + 1 \<Longrightarrow> ms = q * 1000 + m \<Longrightarrow>
      t \<le> ms + 1000 * e \<and> ms + 1000 * e \<le> t + 1"
    and "t = q * 1000 + 999 * e + k \<Longrightarrow> k \<le> m \<Longrightarrow> m \<le> k + 1 \<Longrightarrow> ms = q * 1000 + m \<Longrightarrow>
      t \<le> ms + 999 * e \<and> ms + 999 * e \<le> t + 1"
  by simp_all

text \<open>C15: Converting a clock reading to an NTP time stamp and back gives the reading in milliseconds
  since 1900, rounded down by at most one millisecond, in spite of the single-precision arithmetic in
  between; the bound holds as long as the seconds fit 32 bits.\<close>

theorem ntp_roundtrip_bound:
  assumes "ms div 1000 + EPOCH < 2 ^ 32"
  shows "unat (normalize_ntp_to_ms (get_ntp_timestamp ms)) \<le> ms + 1000 * EPOCH \<and>
    ms + 1000 * EPOCH \<le> unat (normalize_ntp_to_ms (get_ntp_timestamp ms)) + 1"
proof -
  define m k where "m = ms mod 1000" and "k = round24 (round24 (m * 2 ^ 32 div 1000) * 1000) div 2 ^ 32"
  have m: "m < 1000" and ms: "ms = ms div 1000 * 1000 + m" by (simp_all add: m_def)
  have k: "k \<le> m" "m \<le> k + 1" using round_fraction(1,2) [OF m refl] by (simp_all add: k_def)
  have "normalize_ntp_to_ms (get_ntp_timestamp ms) = of_nat ((ms div 1000 + EPOCH) * 1000 + k mod 2 ^ 32)"
    unfolding normalize_ntp_to_ms_def Let_def get_ntp_parts [OF assms] ntp_seconds [OF assms] k_def m_def
    by (simp only: of_nat_add of_nat_mult of_nat_numeral)
  moreover have "k mod 2 ^ 32 = k" using k m by simp
  moreover have "(ms div 1000 + EPOCH) * 1000 + k < 2 ^ 64" using assms k m by simp
  ultimately have "unat (normalize_ntp_to_ms (get_ntp_timestamp ms)) = (ms div 1000 + EPOCH) * 1000 + k"
    by (simp only: unat_u64)
  then show ?thesis using k ms by (rule within_ms(1))
qed

lemma ntp_roundtrip_bound_witness:
  "unat (normalize_ntp_to_ms (get_ntp_timestamp 1700000000123)) \<le> 1700000000123 + 1000 * EPOCH"
  using ntp_roundtrip_bound [of 1700000000123] by (simp add: EPOCH_def)

text \<open>C34: The Android wrapper subtracts the seconds of the epoch from a number of milliseconds: its time
  stamps are the clock reading plus 999 times the epoch, up to a millisecond.\<close>

theorem android_timestamp_offset:
  assumes "ms div 1000 + EPOCH < 2 ^ 32"
  shows "unat (android_normalize_ntp_to_ms (get_ntp_timestamp ms)) \<le> ms + 999 * EPOCH \<and>
    ms + 999 * EPOCH \<le> unat (android_normalize_ntp_to_ms (get_ntp_timestamp ms)) + 1"
proof -
  define m k where "m = ms mod 1000" and "k = m * 2 ^ 32 div 1000 * 1000 div 2 ^ 32"
  have m: "m < 1000" and ms: "ms = ms div 1000 * 1000 + m" by (simp_all add: m_def)
  have k: "k \<le> m" "m \<le> k + 1" using round_fraction(3,4) [OF m refl] by (simp_all add: k_def)
  have "android_normalize_ntp_to_ms (get_ntp_timestamp ms) =
      of_nat ((ms div 1000 + EPOCH) * 1000) - of_nat EPOCH + of_nat (k mod 2 ^ 32)"
    unfolding android_normalize_ntp_to_ms_def Let_def get_ntp_parts [OF assms] ntp_seconds [OF assms] k_def m_def
    by (simp only: of_nat_mult of_nat_numeral)
  moreover have "k mod 2 ^ 32 = k" using k m by simp
  moreover have "(of_nat ((ms div 1000 + EPOCH) * 1000) :: u64) - of_nat EPOCH =
      of_nat (ms div 1000 * 1000 + 999 * EPOCH)"
    by (simp add: algebra_simps)
  ultimately have "android_normalize_ntp_to_ms (get_ntp_timestamp ms) =
      of_nat (ms div 1000 * 1000 + 999 * EPOCH + k)"
    by (simp only: of_nat_add)
  moreover have "ms div 1000 * 1000 + 999 * EPOCH + k < 2 ^ 64" using assms k m by (simp add: EPOCH_def)
  ultimately have "unat (android_normalize_ntp_to_ms (get_ntp_timestamp ms)) =
      ms div 1000 * 1000 + 999 * EPOCH + k"
    by (simp only: unat_u64)
  then show ?thesis using k ms by (rule within_ms(2))
qed

lemma android_timestamp_offset_witness:
  "1700000000123 + 999 * EPOCH \<le> unat (android_normalize_ntp_to_ms (get_ntp_timestamp 1700000000123)) + 1"
  using android_timestamp_offset [of 1700000000123] by (simp add: EPOCH_def)

section \<open>Queries and replies\<close>

definition timing_ok :: "timing_service \<Rightarrow> bool" where
  "timing_ok s \<longleftrightarrow> length (query_packet s) = 32 \<and> length (reply_packet s) = 32"

lemma new_timing_service_ok: "timing_ok new_timing_service"
  by (simp add: timing_ok_def new_timing_service_def rtp_packet_init_def sizeof_rtp_timming_sync_packet_def)

lemma be_value_macro:
  "be_value (le_bytes 8 (unat (ntohll_macro n n'))) = unat n' div 2 ^ 32 * 2 ^ 32 + unat n mod 2 ^ 32"
proof -
  define lo hi where "lo = le_bytes 4 (unat n mod 2 ^ 32)" and "hi = le_bytes 4 (unat n' div 2 ^ 32)"
  have "unat n' div 2 ^ 32 < 2 ^ 32"
    using unsigned_less [of n', where 'a = nat] by (simp add: less_mult_imp_div_less)
  then have vals: "unat n mod 2 ^ 32 = le_value lo" "unat n' div 2 ^ 32 = le_value hi"
    by (simp_all add: lo_def hi_def le_value_le_bytes)
  have len: "length lo = 4" "length hi = 4" by (simp_all add: lo_def hi_def)
  have "le_bytes 8 (unat (ntohll_macro n n')) = rev (lo @ hi)"
    using le_bytes_le_value [of "rev (lo @ hi)"] len
    by (simp only: ntohll_macro_halves [OF len vals] be_value_def) simp
  then show ?thesis
    unfolding vals by (simp add: be_value_def le_value_append len)
qed

text \<open>C35: A timing query announces itself as one, goes to the endpoint of the server, and its transmit time
  is the current time in network byte order; the seconds and the fraction come from two readings of
  the clock, so that a second passing between them shows as an error of nearly a second.\<close>

theorem timing_query_stamp:
  assumes "timing_ok s" and "ms div 1000 + EPOCH < 2 ^ 32" "ms' div 1000 + EPOCH < 2 ^ 32"
    and "post_send_query ms ms' s = (s', acts)"
  shows "acts = [Send_to (query_packet s') (remote_endpoint s)] \<and> timing_ok s' \<and>
    payload_type (query_packet s') = rtp_timing_query \<and> marker (query_packet s') = 1 \<and>
    be_value (slice 24 8 (query_packet s')) =
      (ms' div 1000 + EPOCH) * 2 ^ 32 + ms mod 1000 * 2 ^ 32 div 1000"
proof -
  note len = assms(1) [unfolded timing_ok_def, THEN conjunct1]
  note sizes = fraction_bounds(1) [OF _ refl, of "ms mod 1000"] fraction_bounds(1) [OF _ refl, of "ms' mod 1000"]
  have "unat (get_ntp_timestamp ms') div 2 ^ 32 = ms' div 1000 + EPOCH"
    "unat (get_ntp_timestamp ms) mod 2 ^ 32 = ms mod 1000 * 2 ^ 32 div 1000"
    using sizes by (simp_all only: get_ntp_parts(3) [OF assms(2)] get_ntp_parts(3) [OF assms(3)]
        mod_mult_self3 mod_less div_mult_self3 div_less) simp_all
  then have "be_value (slice 24 8 (query_packet s')) =
      (ms' div 1000 + EPOCH) * 2 ^ 32 + ms mod 1000 * 2 ^ 32 div 1000"
    using assms(4) len by (auto simp: post_send_query_def Let_def slice_set_same be_value_macro bit_fields)
  moreover have "payload_type (set64 j x p) = payload_type p" "marker (set64 j x p) = marker p"
    if "1 < j" "j + 8 \<le> length p" for j x p
    using that by (simp_all add: payload_type_def marker_def nth_set_before)
  ultimately show ?thesis
    using assms(1,4) len
    by (auto simp: post_send_query_def Let_def timing_ok_def bit_fields rtp_timing_query_def)
qed

lemma timing_query_stamp_witness:
  "be_value (slice 24 8 (query_packet (fst (post_send_query 999 1000 new_timing_service)))) =
    (1 + EPOCH) * 2 ^ 32 + 999 * 2 ^ 32 div 1000"
  using timing_query_stamp [OF new_timing_service_ok, of 999 1000
      "fst (post_send_query 999 1000 new_timing_service)" "snd (post_send_query 999 1000 new_timing_service)"]
  by (simp add: EPOCH_def)

text \<open>C36: A reply that has been received holds its fields in host byte order.\<close>

theorem timing_reply_decoded:
  assumes "timing_ok s" and "timing_on_recv_from None s = (s', acts)"
  shows "timing_ok s' \<and> unat (get16 (reply_packet s') 2) = be_value (slice 2 2 (reply_packet s)) \<and>
    unat (get32 (reply_packet s') 4) = be_value (slice 4 4 (reply_packet s)) \<and>
    unat (get64 (reply_packet s') 8) = be_value (slice 8 8 (reply_packet s)) \<and>
    unat (get64 (reply_packet s') 16) = be_value (slice 16 8 (reply_packet s)) \<and>
    unat (get64 (reply_packet s') 24) = be_value (slice 24 8 (reply_packet s))"
proof -
  note len = assms(1) [unfolded timing_ok_def, THEN conjunct2]
  have conv: "unat (ntohs (get16 p i)) = be_value (slice i 2 p)" if "i + 2 \<le> length p" for p i
    using that le_value_lt [of "slice i 2 p"] by (simp add: get16_def unat_of_nat endian_simps slice_def)
  have conv32: "unat (ntohl (get32 p i)) = be_value (slice i 4 p)" if "i + 4 \<le> length p" for p i
    using that le_value_lt [of "slice i 4 p"] by (simp add: get32_def unat_of_nat endian_simps slice_def)
  have conv64: "unat (ntohll (get64 p i)) = be_value (slice i 8 p)" if "i + 8 \<le> length p" for p i
    using that le_value_lt [of "slice i 8 p"] by (simp add: get64_def unat_of_nat endian_simps slice_def)
  show ?thesis
    using assms len
    by (auto simp: timing_on_recv_from_def Let_def timing_ok_def ntohll_macro_eq get_set_apart
        slice_set_other conv conv32 conv64)
qed

lemma timing_reply_decoded_witness:
  "unat (get16 (reply_packet (fst (timing_on_recv_from None new_timing_service))) 2) = 0"
  using timing_reply_decoded [OF new_timing_service_ok, of
      "fst (timing_on_recv_from None new_timing_service)" "snd (timing_on_recv_from None new_timing_service)"]
  by (simp add: new_timing_service_def rtp_packet_init_def sizeof_rtp_timming_sync_packet_def slice_def
      be_value_def numeral_eq_Suc)

end
