(* ===== verification/Network_Services.thy ===== *)
theory Network_Services
  imports C_Machine
begin

text \<open>
  \<open>tcp_service_base\<close> (\<open>src/network/tcp_service.h\<close>) and \<open>udp_service_base\<close>
  (\<open>src/network/udp_service.h\<close>): the accept loop of a service and the opening and closing of a
  socket. What the socket library does is an argument: whether the worker thread can be created, and
  the port a bind yields, \<open>None\<close> when one of the socket calls throws. The connections a service
  prepares are numbered.
\<close>

datatype 'a opened = Opened 'a | Not_opened | Throws

record tcp_service =
  single_session :: bool
  worker_thread :: bool
  local_port :: nat
  new_session :: "nat option"
  prepared :: nat

datatype accept_action = Accept_into nat | Start_session nat | Log_accept_error

definition new_tcp_service :: "bool \<Rightarrow> nat \<Rightarrow> tcp_service" where
  "new_tcp_service single port =
     \<lparr>single_session = single, worker_thread = False, local_port = port, new_session = None, prepared = 0\<rparr>"

definition post_accept :: "tcp_service \<Rightarrow> tcp_service \<times> accept_action list" where
  "post_accept s =
     (let i = prepared s; s = s\<lparr>new_session := Some i, prepared := Suc i\<rparr> in (s, [Accept_into i]))"

definition on_accept :: "socket_error option \<Rightarrow> tcp_service \<Rightarrow> (tcp_service \<times> accept_action list) c_run" where
  "on_accept e s =
     (if e = None then
        (case new_session s of
           None \<Rightarrow> Undefined Null_deref
         | Some i \<Rightarrow>
             if single_session s then Returns (s, [Start_session i])
             else let (s, as) = post_accept s in Returns (s, Start_session i # as))
      else Returns (s, [Log_accept_error]))"

definition tcp_setup :: "bool \<Rightarrow> nat option \<Rightarrow> tcp_service \<Rightarrow> tcp_service opened" where
  "tcp_setup thread_created bound s =
     (let s = s\<lparr>worker_thread := thread_created\<rparr> in
      if \<not> thread_created then Not_opened
      else (case bound of None \<Rightarrow> Throws | Some port \<Rightarrow> Opened (s\<lparr>local_port := port\<rparr>)))"

definition tcp_start :: "bool \<Rightarrow> nat option \<Rightarrow> tcp_service \<Rightarrow> (tcp_service \<times> accept_action list) opened" where
  "tcp_start thread_created bound s =
     (case tcp_setup thread_created bound s of
        Opened s \<Rightarrow> Opened (post_accept s)
      | Not_opened \<Rightarrow> Not_opened
      | Throws \<Rightarrow> Throws)"

definition tcp_cleanup :: "tcp_service \<Rightarrow> tcp_service" where
  "tcp_cleanup s = s\<lparr>worker_thread := False\<rparr>"

record udp_service =
  udp_worker_thread :: bool
  udp_port :: nat

definition udp_open :: "bool \<Rightarrow> nat option \<Rightarrow> udp_service \<Rightarrow> udp_service opened" where
  "udp_open thread_created bound s =
     (let s = s\<lparr>udp_worker_thread := thread_created\<rparr> in
      if \<not> thread_created then Not_opened
      else (case bound of None \<Rightarrow> Throws | Some port \<Rightarrow> Opened (s\<lparr>udp_port := port\<rparr>)))"

definition udp_close :: "udp_service \<Rightarrow> udp_service" where
  "udp_close s = s\<lparr>udp_worker_thread := False\<rparr>"

text \<open>The completions of the accepts that are asked for, one after the other.\<close>

fun accept_run :: "socket_error option list \<Rightarrow> tcp_service \<Rightarrow> accept_action list \<Rightarrow> (tcp_service \<times> nat list) c_run" where
  "accept_run [] s pending = Returns (s, [])"
| "accept_run (e # es) s pending =
     (if list_ex (\<lambda>a. case a of Accept_into i \<Rightarrow> True | _ \<Rightarrow> False) pending then
        c_bind (on_accept e s) (\<lambda>(s, as).
        c_bind (accept_run es s as) (\<lambda>(s, started).
          Returns (s, concat (map (\<lambda>a. case a of Start_session i \<Rightarrow> [i] | _ \<Rightarrow> []) as) @ started)))
      else Returns (s, []))"

lemma accept_run_idle: "\<not> list_ex (\<lambda>a. case a of Accept_into i \<Rightarrow> True | _ \<Rightarrow> False) as \<Longrightarrow>
    accept_run es s as = Returns (s, [])"
  by (cases es) auto

lemma accept_run_many:
  "\<not> single_session s \<Longrightarrow> prepared s = Suc n \<Longrightarrow> new_session s = Some n \<Longrightarrow>
    \<exists>s'. accept_run es s [Accept_into n] = Returns (s', [n..<n + length (takeWhile (\<lambda>e. e = None) es)])"
proof (induction es arbitrary: s n)
  case (Cons e es)
  show ?case
  proof (cases e)
    case None
    define s1 where "s1 = s\<lparr>new_session := Some (Suc n), prepared := Suc (Suc n)\<rparr>"
    have "\<not> single_session s1" "prepared s1 = Suc (Suc n)" "new_session s1 = Some (Suc n)"
      using Cons.prems by (simp_all add: s1_def)
    then obtain s' where run: "accept_run es s1 [Accept_into (Suc n)] =
        Returns (s', [Suc n..<Suc n + length (takeWhile (\<lambda>e. e = None) es)])"
      using Cons.IH by blast
    have "accept_run es s1 [Start_session n, Accept_into (Suc n)] = accept_run es s1 [Accept_into (Suc n)]"
      by (cases es) simp_all
    then show ?thesis
      using None Cons.prems run
      by (simp add: on_accept_def post_accept_def Let_def upt_conv_Cons del: upt_Suc flip: s1_def)
  next
    case (Some err)
    then show ?thesis by (simp add: on_accept_def accept_run_idle)
  qed
qed simp

text \<open>C37: After a successful start the service accepts: it starts one connection for every accept that
  succeeds, each a connection of its own, up to the first accept that fails, after which it never
  accepts again; a single-session service starts at most one.\<close>

theorem tcp_accept_loop:
  assumes "tcp_start thread_created bound (new_tcp_service single port) = Opened (s, as)"
  shows "\<exists>s'. accept_run es s as =
    Returns (s', [0..<(if single then min 1 (length (takeWhile (\<lambda>e. e = None) es))
                       else length (takeWhile (\<lambda>e. e = None) es))])"
proof -
  have s: "single_session s = single" "prepared s = Suc 0" "new_session s = Some 0" "as = [Accept_into 0]"
    using assms
    by (auto simp: tcp_start_def tcp_setup_def new_tcp_service_def post_accept_def Let_def
        split: if_splits option.splits opened.splits)
  show ?thesis
  proof (cases single)
    case True
    then show ?thesis
      using s by (cases es) (auto simp: on_accept_def accept_run_idle)
  next
    case False
    then show ?thesis using accept_run_many [of s 0 es] s by simp
  qed
qed

lemma tcp_accept_loop_witness:
  "\<exists>s'. accept_run [None, None, Some (Other_error 22), None]
      (fst (post_accept ((new_tcp_service False 7000)\<lparr>worker_thread := True\<rparr>))) [Accept_into 0] = Returns (s', [0, 1])"
  using tcp_accept_loop [of True "Some 7000" False 7000
      "fst (post_accept ((new_tcp_service False 7000)\<lparr>worker_thread := True\<rparr>))" "[Accept_into 0]"
      "[None, None, Some (Other_error 22), None]"]
  by (simp add: tcp_start_def tcp_setup_def new_tcp_service_def post_accept_def Let_def)

end
