(* ===== verification/Ieee_Float.thy ===== *)
theory Ieee_Float
  imports Http_Roundtrip
begin

text \<open>
  The \<open>float\<close> and \<open>double\<close> arithmetic the code uses, as IEC 60559 has it, rounding to nearest with
  ties to even; no intermediate result is kept at a higher precision. \<open>Finite s m e\<close> is
  the number \<open>m * 2 ^ e\<close> with the sign \<open>s\<close>. Also \<open>strtof\<close>, for the decimal texts the
  code gives it, and the output of a number on a stream in its default format.
\<close>

datatype fp = NaN | Infinite bool | Finite bool nat int

text \<open>Precision, and the exponents of the smallest and of the largest unit in the last place.\<close>

record fp_format =
  precision :: nat
  least_exp :: int
  greatest_exp :: int

definition single :: fp_format where
  "single = \<lparr>precision = 24, least_exp = - 149, greatest_exp = 104\<rparr>"

definition double :: fp_format where
  "double = \<lparr>precision = 53, least_exp = - 1074, greatest_exp = 971\<rparr>"

section \<open>Rounding\<close>

fun bit_len :: "nat \<Rightarrow> nat" where
  "bit_len n = (if n = 0 then 0 else Suc (bit_len (n div 2)))"

declare bit_len.simps [simp del]

definition half_even :: "nat \<Rightarrow> nat \<Rightarrow> nat" where
  "half_even n d =
     (let q = n div d; r = n mod d in if 2 * r > d \<or> 2 * r = d \<and> odd q then q + 1 else q)"

text \<open>The quotient of \<open>n / d\<close> by \<open>2 ^ e\<close>.\<close>

definition scaled :: "nat \<Rightarrow> nat \<Rightarrow> int \<Rightarrow> nat \<times> nat" where
  "scaled n d e = (if 0 \<le> e then (n, d * 2 ^ nat e) else (n * 2 ^ nat (- e), d))"

definition round_ratio :: "fp_format \<Rightarrow> bool \<Rightarrow> nat \<Rightarrow> nat \<Rightarrow> fp" where
  "round_ratio F s n d =
     (if n = 0 then Finite s 0 (least_exp F)
      else
        let p = precision F;
            e = max (least_exp F) (int (bit_len n) - int (bit_len d) - int p);
            e = (case scaled n d e of (a, b) \<Rightarrow> if a div b < 2 ^ p then e else e + 1);
            q = (case scaled n d e of (a, b) \<Rightarrow> half_even a b);
            (q, e) = (if q = 2 ^ p then (2 ^ (p - 1), e + 1) else (q, e))
        in if greatest_exp F < e then Infinite s else Finite s q e)"

section \<open>Operations\<close>

text \<open>A magnitude as a ratio.\<close>

definition ratio_of :: "nat \<Rightarrow> int \<Rightarrow> nat \<times> nat" where
  "ratio_of m e = (if 0 \<le> e then (m * 2 ^ nat e, 1) else (m, 2 ^ nat (- e)))"

definition fp_convert :: "fp_format \<Rightarrow> fp \<Rightarrow> fp" where
  "fp_convert F x = (case x of Finite s m e \<Rightarrow> (case ratio_of m e of (n, d) \<Rightarrow> round_ratio F s n d) | _ \<Rightarrow> x)"

definition fp_of_nat :: "fp_format \<Rightarrow> nat \<Rightarrow> fp" where
  "fp_of_nat F n = round_ratio F False n 1"

fun fp_mul :: "fp_format \<Rightarrow> fp \<Rightarrow> fp \<Rightarrow> fp" where
  "fp_mul F (Finite s m e) (Finite s' m' e') =
     (case ratio_of (m * m') (e + e') of (n, d) \<Rightarrow> round_ratio F (s \<noteq> s') n d)"
| "fp_mul F (Infinite s) (Infinite s') = Infinite (s \<noteq> s')"
| "fp_mul F (Infinite s) (Finite s' m e) = (if m = 0 then NaN else Infinite (s \<noteq> s'))"
| "fp_mul F (Finite s m e) (Infinite s') = (if m = 0 then NaN else Infinite (s \<noteq> s'))"
| "fp_mul F _ _ = NaN"

fun fp_div :: "fp_format \<Rightarrow> fp \<Rightarrow> fp \<Rightarrow> fp" where
  "fp_div F (Finite s m e) (Finite s' m' e') =
     (if m' = 0 then (if m = 0 then NaN else Infinite (s \<noteq> s'))
      else case (ratio_of m e, ratio_of m' e') of ((n, d), (n', d')) \<Rightarrow> round_ratio F (s \<noteq> s') (n * d') (d * n'))"
| "fp_div F (Infinite s) (Finite s' m e) = Infinite (s \<noteq> s')"
| "fp_div F (Finite s m e) (Infinite s') = Finite (s \<noteq> s') 0 (least_exp F)"
| "fp_div F _ _ = NaN"

fun fp_add :: "fp_format \<Rightarrow> fp \<Rightarrow> fp \<Rightarrow> fp" where
  "fp_add F (Finite s m e) (Finite s' m' e') =
     (case (ratio_of m e, ratio_of m' e') of ((n, d), (n', d')) \<Rightarrow>
        let a = (if s then - int (n * d') else int (n * d'));
            b = (if s' then - int (n' * d) else int (n' * d))
        in if a + b = 0 then Finite (if m = 0 \<and> m' = 0 then s \<and> s' else False) 0 (least_exp F)
           else round_ratio F (a + b < 0) (nat \<bar>a + b\<bar>) (d * d'))"
| "fp_add F (Infinite s) (Infinite s') = (if s = s' then Infinite s else NaN)"
| "fp_add F (Infinite s) (Finite _ _ _) = Infinite s"
| "fp_add F (Finite _ _ _) (Infinite s) = Infinite s"
| "fp_add F _ _ = NaN"

text \<open>The comparison \<open>==\<close>.\<close>

fun fp_eq :: "fp \<Rightarrow> fp \<Rightarrow> bool" where
  "fp_eq (Finite s m e) (Finite s' m' e') =
     (case (ratio_of m e, ratio_of m' e') of ((n, d), (n', d')) \<Rightarrow> n * d' = n' * d \<and> (s = s' \<or> m = 0))"
| "fp_eq (Infinite s) (Infinite s') = (s = s')"
| "fp_eq _ _ = False"

text \<open>The \<open>double\<close> a 64-bit pattern stands for.\<close>

definition decode_double :: "u64 \<Rightarrow> fp" where
  "decode_double w =
     (let n = unat w; s = (n div 2 ^ 63 = 1); ex = n div 2 ^ 52 mod 2 ^ 11; frac = n mod 2 ^ 52
      in if ex = 2047 then (if frac = 0 then Infinite s else NaN)
         else if ex = 0 then Finite s frac (- 1074)
         else Finite s (frac + 2 ^ 52) (int ex - 1075))"

section \<open>Numbers as text\<close>

text \<open>\<open>strtof\<close> on a text of an optional sign, digits, a point and digits.\<close>

definition strtof :: "string \<Rightarrow> fp" where
  "strtof s =
     (let neg = (s \<noteq> [] \<and> hd s = CHR ''-'');
          s = (if s \<noteq> [] \<and> (hd s = CHR ''-'' \<or> hd s = CHR ''+'') then tl s else s);
          i = takeWhile is_digit s;
          f = takeWhile is_digit (drop (length i + 1) s)
      in round_ratio single neg (digits_value 0 (i @ f)) (10 ^ length f))"

text \<open>The default format of a stream: \<open>%g\<close> with six significant digits.\<close>

primrec exp10_below :: "nat \<Rightarrow> nat \<Rightarrow> nat \<Rightarrow> nat" where
  "exp10_below 0 n d = 0"
| "exp10_below (Suc k) n d = (if d \<le> n then 0 else Suc (exp10_below k (10 * n) d))"

definition exp10_of :: "nat \<Rightarrow> nat \<Rightarrow> int" where
  "exp10_of n d =
     (if d \<le> n then int (length (decimal (n div d))) - 1 else - int (exp10_below (bit_len d) n d))"

definition strip_zeros :: "string \<Rightarrow> string" where
  "strip_zeros s = rev (dropWhile (\<lambda>c. c = CHR ''0'') (rev s))"

definition fraction_text :: "string \<Rightarrow> string" where
  "fraction_text s = (case strip_zeros s of [] \<Rightarrow> [] | f \<Rightarrow> ''.'' @ f)"

definition exponent_text :: "int \<Rightarrow> string" where
  "exponent_text x =
     (let ds = decimal (nat \<bar>x\<bar>)
      in ''e'' @ (if x < 0 then ''-'' else ''+'') @ (if length ds < 2 then ''0'' else []) @ ds)"

definition print_ratio :: "nat \<Rightarrow> nat \<Rightarrow> string" where
  "print_ratio n d =
     (let x = exp10_of n d;
          q = (if x \<le> 5 then half_even (n * 10 ^ nat (5 - x)) d else half_even n (d * 10 ^ nat (x - 5)));
          (q, x) = (if q = 10 ^ 6 then (10 ^ 5, x + 1) else (q, x));
          ds = decimal q
      in if - 4 \<le> x \<and> x < 6 then
           (if 0 \<le> x then take (nat x + 1) ds @ fraction_text (drop (nat x + 1) ds)
            else ''0'' @ fraction_text (replicate (nat (- x) - 1) (CHR ''0'') @ ds))
         else take 1 ds @ fraction_text (drop 1 ds) @ exponent_text x)"

definition print_fp :: "fp \<Rightarrow> string" where
  "print_fp x =
     (case x of
        NaN \<Rightarrow> ''nan''
      | Infinite s \<Rightarrow> (if s then ''-'' else []) @ ''inf''
      | Finite s m e \<Rightarrow>
          (if s then ''-'' else []) @
          (if m = 0 then ''0'' else case ratio_of m e of (n, d) \<Rightarrow> print_ratio n d))"

section \<open>What rounding keeps\<close>

lemma half_even_error: "0 < d \<Longrightarrow> 2 * \<bar>int (half_even n d * d) - int n\<bar> \<le> int d"
proof -
  assume d: "0 < d"
  have n: "int n = int (n div d) * int d + int (n mod d)"
    by (metis div_mult_mod_eq of_nat_add of_nat_mult)
  have "n mod d < d" using d by simp
  then show ?thesis
    unfolding half_even_def Let_def using n by (auto simp: algebra_simps)
qed

lemma half_even_exact: "0 < d \<Longrightarrow> half_even (q * d) d = q"
  by (simp add: half_even_def)

lemma half_even_mono:
  assumes "0 < d" and "n \<le> n'"
  shows "half_even n d \<le> half_even n' d"
proof (cases "n div d = n' div d")
  case True
  have "n = n div d * d + n mod d" "n' = n' div d * d + n' mod d" by simp_all
  then have "n mod d \<le> n' mod d" using True assms(2) by (metis nat_add_left_cancel_le)
  then show ?thesis using True by (auto simp: half_even_def Let_def)
next
  case False
  then have "n div d + 1 \<le> n' div d" using div_le_mono [OF assms(2), of d] by simp
  moreover have "half_even n d \<le> n div d + 1" "n' div d \<le> half_even n' d"
    by (simp_all add: half_even_def Let_def)
  ultimately show ?thesis by simp
qed

end
