(* ===== verification/Regex.thy ===== *)
theory Regex
  imports Aps_Prelude
begin

text \<open>
  What the code uses of \<open>std::regex\<close>: ECMAScript patterns of literals, classes, \<open>.\<close>, sequences,
  alternatives, greedy repetitions and capture groups. Matching is backtracking: \<open>re_match\<close>
  gives all ways to match a prefix of the text, in the order in which backtracking tries them,
  each with the rest of the text and the captures. A search takes the first way at the leftmost
  position. The functions here are the language's; the patterns are in the theories that use them.
\<close>

datatype re =
    Eps
  | Lit char
  | Cls "(char \<times> char) list"  \<comment> \<open>\<open>[...]\<close>, as ranges\<close>
  | AnyChar                  \<comment> \<open>\<open>.\<close>: no line terminator\<close>
  | Seq re re
  | Alt re re
  | Star re                  \<comment> \<open>greedy\<close>
  | Grp nat re               \<comment> \<open>capture group with its number\<close>

type_synonym captures = "(nat \<times> string) list"

text \<open>\<open>r+\<close>, \<open>r?\<close>, a literal text, a sequence and an alternative of several.\<close>

definition Plus :: "re \<Rightarrow> re" where "Plus r = Seq r (Star r)"
definition Opt :: "re \<Rightarrow> re" where "Opt r = Alt r Eps"

fun lit :: "string \<Rightarrow> re" where
  "lit [] = Eps"
| "lit (c # cs) = Seq (Lit c) (lit cs)"

fun re_seq :: "re list \<Rightarrow> re" where
  "re_seq [] = Eps"
| "re_seq (r # rs) = Seq r (re_seq rs)"

definition Digit :: re where "Digit = Cls [(CHR ''0'', CHR ''9'')]"

definition in_class :: "(char \<times> char) list \<Rightarrow> char \<Rightarrow> bool" where
  "in_class cs c \<longleftrightarrow>
     list_ex (\<lambda>(lo, hi). (of_char lo :: nat) \<le> of_char c \<and> (of_char c :: nat) \<le> of_char hi) cs"

definition line_terminator :: "char \<Rightarrow> bool" where
  "line_terminator c \<longleftrightarrow> c = CHR 0x0A \<or> c = CHR 0x0D"

text \<open>An iteration of a repetition that matches the empty text is not taken.\<close>

primrec star_match :: "nat \<Rightarrow> (string \<Rightarrow> captures \<Rightarrow> (string \<times> captures) list) \<Rightarrow> string \<Rightarrow> captures
    \<Rightarrow> (string \<times> captures) list" where
  "star_match 0 f s caps = [(s, caps)]"
| "star_match (Suc n) f s caps =
     concat (map (\<lambda>(s', caps'). if length s' < length s then star_match n f s' caps' else []) (f s caps)) @
     [(s, caps)]"

definition match_one :: "(char \<Rightarrow> bool) \<Rightarrow> string \<Rightarrow> captures \<Rightarrow> (string \<times> captures) list" where
  "match_one P s caps = (case s of [] \<Rightarrow> [] | c # cs \<Rightarrow> if P c then [(cs, caps)] else [])"

lemma match_one_simps [simp]:
  "match_one P [] caps = []" "match_one P (c # s) caps = (if P c then [(s, caps)] else [])"
  by (simp_all add: match_one_def)

primrec re_match :: "re \<Rightarrow> string \<Rightarrow> captures \<Rightarrow> (string \<times> captures) list" where
  "re_match Eps = (\<lambda>s caps. [(s, caps)])"
| "re_match (Lit c) = match_one (\<lambda>d. d = c)"
| "re_match (Cls cs) = match_one (in_class cs)"
| "re_match AnyChar = match_one (\<lambda>d. \<not> line_terminator d)"
| "re_match (Seq r1 r2) = (\<lambda>s caps. concat (map (\<lambda>(s', caps'). re_match r2 s' caps') (re_match r1 s caps)))"
| "re_match (Alt r1 r2) = (\<lambda>s caps. re_match r1 s caps @ re_match r2 s caps)"
| "re_match (Star r) = (\<lambda>s caps. star_match (length s) (re_match r) s caps)"
| "re_match (Grp i r) = (\<lambda>s caps.
     map (\<lambda>(s', caps'). (s', (i, take (length s - length s') s) # caps')) (re_match r s caps))"

text \<open>\<open>regex_search\<close>: the text before the match, the match, the rest, and the captures.\<close>

fun re_search :: "re \<Rightarrow> string \<Rightarrow> (string \<times> string \<times> string \<times> captures) option" where
  "re_search r s =
     (case re_match r s [] of
        (s', caps) # _ \<Rightarrow> Some ([], take (length s - length s') s, s', caps)
      | [] \<Rightarrow>
          (case s of
             [] \<Rightarrow> None
           | c # cs \<Rightarrow> map_option (\<lambda>(pre, m). (c # pre, m)) (re_search r cs)))"

declare re_search.simps [simp del]

text \<open>\<open>groups.str(i)\<close>: the empty text for a group that took no part.\<close>

definition group_str :: "captures \<Rightarrow> nat \<Rightarrow> string" where
  "group_str caps i = (case map_of caps i of None \<Rightarrow> [] | Some s \<Rightarrow> s)"

text \<open>
  \<open>regex_replace\<close> with a replacement text without \<open>$\<close>, for a pattern that matches no empty text: every
  match from left to right.
\<close>

primrec replace_fuel :: "nat \<Rightarrow> re \<Rightarrow> string \<Rightarrow> string \<Rightarrow> string" where
  "replace_fuel 0 r s fmt = s"
| "replace_fuel (Suc n) r s fmt =
     (case re_search r s of
        None \<Rightarrow> s
      | Some (pre, m, rest, caps) \<Rightarrow> pre @ fmt @ replace_fuel n r rest fmt)"

definition regex_replace :: "re \<Rightarrow> string \<Rightarrow> string \<Rightarrow> string" where
  "regex_replace r s fmt = replace_fuel (length s) r s fmt"

section \<open>The first way to match\<close>

definition first_match :: "re \<Rightarrow> string \<Rightarrow> captures \<Rightarrow> string \<Rightarrow> captures \<Rightarrow> bool" where
  "first_match r s caps s' caps' \<longleftrightarrow> (\<exists>ms. re_match r s caps = (s', caps') # ms)"

named_theorems first_intros \<open>what a pattern matches first\<close>

lemma first_Eps [first_intros]: "first_match Eps s caps s caps"
  by (simp add: first_match_def)

lemma first_Lit [first_intros]: "first_match (Lit c) (c # s) caps s caps"
  by (simp add: first_match_def)

lemma first_Lit_append [first_intros]: "first_match (Lit c) ([c] @ s) caps s caps"
  by (simp add: first_match_def)

lemma first_Cls [first_intros]: "in_class cs c \<Longrightarrow> first_match (Cls cs) (c # s) caps s caps"
  by (simp add: first_match_def)

lemma first_Seq [first_intros]:
  "first_match r1 s caps s' caps' \<Longrightarrow> first_match r2 s' caps' s'' caps'' \<Longrightarrow> first_match (Seq r1 r2) s caps s'' caps''"
  by (auto simp: first_match_def)

lemma first_Alt_left: "first_match r1 s caps s' caps' \<Longrightarrow> first_match (Alt r1 r2) s caps s' caps'"
  by (auto simp: first_match_def)

lemma first_Alt_right:
  "re_match r1 s caps = [] \<Longrightarrow> first_match r2 s caps s' caps' \<Longrightarrow> first_match (Alt r1 r2) s caps s' caps'"
  by (auto simp: first_match_def)

lemma first_lit [first_intros]: "first_match (lit t) (t @ s) caps s caps"
  by (induction t) (auto intro: first_intros)

lemma first_Grp [first_intros]:
  "first_match r (t @ s) caps s caps' \<Longrightarrow> first_match (Grp i r) (t @ s) caps s ((i, t) # caps')"
  by (auto simp: first_match_def)

text \<open>A repeated class takes all it can.\<close>

lemma first_star_class:
  assumes "list_all (in_class cs) t" and "s = [] \<or> \<not> in_class cs (hd s)" and "length t + length s \<le> n"
  shows "\<exists>ms. star_match n (match_one (in_class cs)) (t @ s) caps = (s, caps) # ms"
  using assms
proof (induction t arbitrary: n)
  case Nil
  then show ?case
    by (cases n; cases s) auto
next
  case (Cons c t)
  then obtain m where m: "n = Suc m" by (cases n) auto
  with Cons obtain ms where "star_match m (match_one (in_class cs)) (t @ s) caps = (s, caps) # ms" by auto
  with Cons m show ?case by simp
qed

lemma first_Star_class [first_intros]:
  "list_all (in_class cs) t \<Longrightarrow> s = [] \<or> \<not> in_class cs (hd s) \<Longrightarrow> first_match (Star (Cls cs)) (t @ s) caps s caps"
  using first_star_class [of cs t s "length t + length s" caps] by (simp add: first_match_def)

lemma first_Plus_class [first_intros]:
  assumes "list_all (in_class cs) t" "t \<noteq> []" "s = [] \<or> \<not> in_class cs (hd s)"
  shows "first_match (Plus (Cls cs)) (t @ s) caps s caps"
proof (cases t)
  case (Cons c u)
  have "first_match (Cls cs) (c # (u @ s)) caps (u @ s) caps"
    using assms Cons by (intro first_Cls) simp
  moreover have "first_match (Star (Cls cs)) (u @ s) caps s caps"
    using assms Cons by (intro first_Star_class) simp_all
  ultimately show ?thesis unfolding Plus_def Cons by (auto intro: first_Seq)
qed (use assms in simp)

lemma search_first:
  "first_match r (t @ s) [] s caps \<Longrightarrow> re_search r (t @ s) = Some ([], t, s, caps)"
  by (subst re_search.simps) (auto simp: first_match_def)

section \<open>What a search finds\<close>

text \<open>Every way to match consumes a prefix of the text.\<close>

lemma star_match_suffix:
  assumes "\<And>s caps s' caps'. (s', caps') \<in> set (f s caps) \<Longrightarrow> \<exists>t. s = t @ s'"
  shows "(s', caps') \<in> set (star_match n f s caps) \<Longrightarrow> \<exists>t. s = t @ s'"
proof (induction n arbitrary: s caps)
  case (Suc n)
  then show ?case using assms by (auto split: if_splits) (metis append.assoc)
qed simp

lemma re_match_suffix: "(s', caps') \<in> set (re_match r s caps) \<Longrightarrow> \<exists>t. s = t @ s'"
proof (induction r arbitrary: s caps s' caps')
  case (Seq r1 r2)
  then obtain u cu where "(u, cu) \<in> set (re_match r1 s caps)" "(s', caps') \<in> set (re_match r2 u cu)" by auto
  with Seq.IH show ?case by (metis append.assoc)
next
  case (Star r)
  then show ?case using star_match_suffix [of "re_match r"] by auto
next
  case (Alt r1 r2)
  then show ?case by auto
next
  case (Grp i r)
  then show ?case by auto
qed (auto simp: match_one_def split: list.splits if_splits)

text \<open>A search splits the text, and what it reports is a way to match there.\<close>

lemma re_search_split:
  "re_search r s = Some (pre, m, rest, caps) \<Longrightarrow> s = pre @ m @ rest \<and> (rest, caps) \<in> set (re_match r (m @ rest) [])"
proof (induction r s arbitrary: pre rule: re_search.induct)
  case (1 r s)
  show ?case
  proof (cases "re_match r s []")
    case Nil
    with "1.prems" obtain c cs where s: "s = c # cs"
      by (cases s) (auto simp: re_search.simps [of r "[]"])
    with "1.prems" Nil obtain p where "re_search r cs = Some (p, m, rest, caps)" "pre = c # p"
      by (subst (asm) re_search.simps) auto
    with "1.IH" [OF Nil s] s show ?thesis by simp
  next
    case (Cons x xs)
    then obtain s' caps' where "re_match r s [] = (s', caps') # xs" by (cases x) auto
    moreover obtain t where "s = t @ s'" using calculation re_match_suffix [of s' caps' r s "[]"] by auto
    ultimately show ?thesis
      using "1.prems" by (subst (asm) re_search.simps) auto
  qed
qed

text \<open>A search fails exactly if the pattern matches nowhere.\<close>

lemma re_search_None: "re_search r s = None \<longleftrightarrow> (\<forall>pre post. s = pre @ post \<longrightarrow> re_match r post [] = [])"
proof (induction r s rule: re_search.induct)
  case (1 r s)
  show ?case
  proof (cases "re_match r s []")
    case Nil
    show ?thesis
    proof (cases s)
      case Nil
      then show ?thesis using \<open>re_match r s [] = []\<close> by (subst re_search.simps) simp
    next
      case (Cons c cs)
      then have "re_search r s = None \<longleftrightarrow> re_search r cs = None"
        using Nil by (subst re_search.simps) simp
      also have "\<dots> \<longleftrightarrow> (\<forall>pre post. cs = pre @ post \<longrightarrow> re_match r post [] = [])"
        by (rule "1.IH" [OF Nil Cons])
      also have "\<dots> \<longleftrightarrow> (\<forall>pre post. s = pre @ post \<longrightarrow> re_match r post [] = [])"
        using Nil Cons by (auto simp: Cons_eq_append_conv)
      finally show ?thesis .
    qed
  next
    case (Cons x xs)
    then have "\<exists>pre post. s = pre @ post \<and> re_match r post [] \<noteq> []"
      by (intro exI [of _ "[]"] exI [of _ s]) simp
    with Cons show ?thesis by (subst re_search.simps) (auto split: prod.splits)
  qed
qed

text \<open>\<open>nonempty r\<close>: no match of \<open>r\<close> is empty; then every replacement makes progress.\<close>

definition nonempty :: "re \<Rightarrow> bool" where
  "nonempty r \<longleftrightarrow> (\<forall>s caps. \<forall>(s', caps') \<in> set (re_match r s caps). length s' < length s)"

lemma nonempty_end:
  assumes "nonempty r"
  shows "re_match r [] caps = []"
proof (rule ccontr)
  assume "re_match r [] caps \<noteq> []"
  then obtain s' caps' where "(s', caps') \<in> set (re_match r [] caps)"
    by (cases "re_match r [] caps") auto
  with assms have "length s' < length ([] :: string)" unfolding nonempty_def by blast
  then show False by simp
qed

lemma replace_fuel_enough:
  assumes "nonempty r" and "length s \<le> n"
  shows "replace_fuel n r s fmt = regex_replace r s fmt"
proof -
  have "replace_fuel n r s fmt = replace_fuel k r s fmt" if "length s \<le> n" "length s \<le> k" for n k
    using that
  proof (induction n arbitrary: s k)
    case 0
    then show ?case
      using nonempty_end [OF assms(1)] by (cases k) (auto simp: re_search.simps [of r "[]"])
  next
    case (Suc n)
    show ?case
    proof (cases "re_search r s")
      case None
      then show ?thesis by (cases k) simp_all
    next
      case (Some x)
      then obtain pre m rest caps where x: "re_search r s = Some (pre, m, rest, caps)" by (cases x) auto
      from re_search_split [OF this] have s: "s = pre @ m @ rest"
        and mem: "(rest, caps) \<in> set (re_match r (m @ rest) [])" by auto
      have "length rest < length (m @ rest)" using assms(1) mem unfolding nonempty_def by blast
      then have "length rest < length s" using s by simp
      moreover then obtain j where "k = Suc j" using Suc.prems by (cases k) auto
      ultimately show ?thesis using x Suc.IH [of rest j] Suc.prems by simp
    qed
  qed
  from this [OF assms(2) le_refl] show ?thesis by (simp add: regex_replace_def)
qed

end
