(* ===== verification/Ap_Config.thy ===== *)
theory Ap_Config
  imports Ieee_Float Regex
begin

text \<open>
  \<open>ap_config\<close> of \<open>src/ap_config.cpp\<close> and \<open>include/ap_config.h\<close>, and \<open>generate_mac_address\<close> of
  \<open>src/utils/utils.cpp\<close>: the configuration of the receiver. Signed integers are
  \<open>int\<close>, the refresh rate a \<open>float\<close>. The setters are record updates.
\<close>

record ap_config_audio_format =
  fmt_audioInputFormats :: int
  fmt_audioOutputFormats :: int
  fmt_type :: int

record ap_config_audio_latency =
  lat_audioType :: string
  lat_inputLatencyMicros :: int
  lat_outputLatencyMicros :: int
  lat_type :: int

record ap_config_display =
  disp_width :: int
  disp_height :: int
  disp_refreshRate :: fp
  disp_uuid :: string

record ap_config =
  cfg_name :: string
  cfg_publishService :: bool
  cfg_model :: string
  cfg_serverVersion :: string
  cfg_macAddress :: string
  cfg_pi :: string
  cfg_pk :: string
  cfg_flags :: string
  cfg_audioCodecs :: string
  cfg_encryptionTypes :: string
  cfg_metadataTypes :: string
  cfg_needPassword :: string
  cfg_transmissionProtocol :: string
  cfg_vv :: int
  cfg_features :: int
  cfg_statusFlag :: int
  cfg_audio_format :: ap_config_audio_format
  cfg_audio_latency :: ap_config_audio_latency
  cfg_display :: ap_config_display

text \<open>\<open>std::hex\<close> with \<open>std::uppercase\<close>, and \<open>%02X\<close>.\<close>

definition hex_digit :: "nat \<Rightarrow> char" where
  "hex_digit d = char_of (if d < 10 then 48 + d else 55 + d)"

fun hex_upper :: "nat \<Rightarrow> string" where
  "hex_upper n = (if n < 16 then [hex_digit n] else hex_upper (n div 16) @ [hex_digit (n mod 16)])"

declare hex_upper.simps [simp del]

definition hex_byte :: "nat \<Rightarrow> string" where
  "hex_byte n = [hex_digit (n div 16 mod 16), hex_digit (n mod 16)]"

text \<open>The clock, in milliseconds, gives the address.\<close>

definition generate_mac_address :: "nat \<Rightarrow> string" where
  "generate_mac_address ts =
     hex_byte (ts mod 256) @ '':'' @ hex_byte (ts div 2 ^ 8 mod 256) @ '':'' @
     hex_byte (ts div 2 ^ 16 mod 256) @ '':'' @ hex_byte (ts div 2 ^ 24 mod 256) @ '':'' @
     hex_byte (ts div 2 ^ 32 mod 256) @ '':'' @ hex_byte (ts div 2 ^ 40 mod 256)"

definition default_instance :: "nat \<Rightarrow> ap_config" where
  "default_instance ts =
     \<lparr>cfg_name = ''APS Display'', cfg_publishService = True, cfg_model = ''AppleTV3,2'',
      cfg_serverVersion = ''220.68'', cfg_macAddress = generate_mac_address ts,
      cfg_pi = ''b08f5a79-db29-4384-b456-a4784d9e6055'',
      cfg_pk = ''99FD4299889422515FBD27949E4E1E21B2AF50A454499E3D4BE75A4E0F55FE63'',
      cfg_flags = ''0x04'', cfg_audioCodecs = ''0,1,2,3'', cfg_encryptionTypes = ''0,3,5'',
      cfg_metadataTypes = ''0,1,2'', cfg_needPassword = ''false'', cfg_transmissionProtocol = ''UDP'',
      cfg_vv = 2, cfg_features = 0x527FFFF7, cfg_statusFlag = 68,
      cfg_audio_format = \<lparr>fmt_audioInputFormats = 0x01000000, fmt_audioOutputFormats = 0x01000000, fmt_type = 96\<rparr>,
      cfg_audio_latency = \<lparr>lat_audioType = ''default'', lat_inputLatencyMicros = 3,
        lat_outputLatencyMicros = 79, lat_type = 96\<rparr>,
      cfg_display = \<lparr>disp_width = 1920, disp_height = 1080, disp_refreshRate = fp_of_nat single 60,
        disp_uuid = ''e5f7a68d-7b0f-4305-984b-974f677a150b''\<rparr>\<rparr>"

text \<open>The two halves of the 64 bits of the features; the upper one only when it is not zero.\<close>

definition features_hex_string :: "ap_config \<Rightarrow> string" where
  "features_hex_string c =
     (let f = to_size (cfg_features c)
      in ''0x'' @ hex_upper (f mod 2 ^ 32) @
         (if f div 2 ^ 32 \<noteq> 0 then '',0x'' @ hex_upper (f div 2 ^ 32) else []))"

text \<open>The argument is the address as a \<open>char *\<close>.\<close>

definition deviceID :: "ap_config \<Rightarrow> string" where
  "deviceID c = regex_replace (lit '':'') (c_str (cfg_macAddress c)) []"

text \<open>The bits of a \<open>double\<close> the \<open>float\<close> is converted to.\<close>

definition encode_double :: "fp \<Rightarrow> u64" where
  "encode_double x =
     (case fp_convert double x of
        NaN \<Rightarrow> 0x7ff8000000000000
      | Infinite s \<Rightarrow> (if s then 0xfff0000000000000 else 0x7ff0000000000000)
      | Finite s m e \<Rightarrow>
          of_nat ((if s then 2 ^ 63 else 0) +
            (if m < 2 ^ 52 then m else nat (e + 1075) * 2 ^ 52 + (m - 2 ^ 52))))"

section \<open>The device identifier\<close>

lemma search_char_None: "c \<notin> set s \<Longrightarrow> re_search (lit [c]) s = None"
  unfolding re_search_None by (auto simp: match_one_def split: list.splits)

lemma search_char_found:
  assumes "c \<notin> set s"
  shows "re_search (lit [c]) (s @ c # t) = Some (s, [c], t, [])"
  using assms
proof (induction s)
  case Nil
  then show ?case by (simp add: re_search.simps)
next
  case (Cons d s)
  then show ?case by (subst re_search.simps) auto
qed

lemma nonempty_char: "nonempty (lit [c])"
  by (auto simp: nonempty_def match_one_def split: list.splits)

text \<open>Replacing a character by nothing removes it everywhere.\<close>

lemma replace_char_removes: "regex_replace (lit [c]) s [] = filter (\<lambda>d. d \<noteq> c) s"
proof (induction "length s" arbitrary: s rule: less_induct)
  case less
  show ?case
  proof (cases "c \<in> set s")
    case False
    then have "filter (\<lambda>d. d \<noteq> c) s = s" by (auto simp: filter_id_conv)
    then show ?thesis
      using search_char_None [OF False]
      by (cases "length s") (simp_all add: regex_replace_def del: lit.simps)
  next
    case True
    then obtain p q where s: "s = p @ c # q" "c \<notin> set p" by (meson split_list_first)
    have "regex_replace (lit [c]) s [] = replace_fuel (Suc (length s)) (lit [c]) s []"
      by (rule replace_fuel_enough [OF nonempty_char, symmetric]) simp
    also have "\<dots> = p @ replace_fuel (length s) (lit [c]) q []"
      by (subst replace_fuel.simps) (simp add: s search_char_found del: lit.simps replace_fuel.simps)
    also have "replace_fuel (length s) (lit [c]) q [] = regex_replace (lit [c]) q []"
      by (rule replace_fuel_enough [OF nonempty_char]) (simp add: s)
    also have "\<dots> = filter (\<lambda>d. d \<noteq> c) q"
      using less [of q] s by simp
    finally show ?thesis using s by (simp add: filter_True) (metis (mono_tags, lifting) filter_True)
  qed
qed

lemma deviceID_no_colon: "deviceID c = filter (\<lambda>d. d \<noteq> CHR '':'') (c_str (cfg_macAddress c))"
  unfolding deviceID_def by (rule replace_char_removes)

end
