(* ===== verification/Content_Parser.thy ===== *)
theory Content_Parser
  imports Regex Ieee_Float
begin

text \<open>
  \<open>src/service/ap_casting_content_parser.cpp\<close>: the values the sender puts into the text of a
  request or into its URI. Each function searches a pattern and converts captures; the
  out-parameters are the result, \<open>None\<close> when the function returns false and leaves them alone. The
  \<open>char *\<close> argument ends at its first NUL.
\<close>

definition signed_decimal :: re where
  "signed_decimal = re_seq [Opt (Cls [(CHR ''-'', CHR ''-''), (CHR ''+'', CHR ''+'')]), Plus Digit, Lit (CHR ''.''), Plus Digit]"

definition unsigned_decimal :: re where
  "unsigned_decimal = re_seq [Plus Digit, Lit (CHR ''.''), Plus Digit]"

definition volume_pattern :: re where
  "volume_pattern = Seq (lit ''volume: '') (Grp 1 signed_decimal)"

definition progress_pattern :: re where
  "progress_pattern = re_seq [lit ''progress: '', Grp 1 (Plus Digit), Lit (CHR ''/''),
     Grp 2 (Plus Digit), Lit (CHR ''/''), Grp 3 (Plus Digit)]"

definition play_pattern :: re where
  "play_pattern = re_seq [lit ''Content-Location: '', Grp 1 (Star AnyChar), Lit LF,
     lit ''Start-Position: '', Grp 2 signed_decimal]"

definition scrub_pattern :: re where
  "scrub_pattern = Seq (lit ''/scrub?position='') (Grp 1 unsigned_decimal)"

definition rate_pattern :: re where
  "rate_pattern = Seq (lit ''/rate?value='') (Grp 1 unsigned_decimal)"

definition agent_pattern :: re where
  "agent_pattern =
     re_seq [Grp 1 (Star AnyChar), Lit (CHR ''/''), Grp 2 (Plus Digit),
       Opt (re_seq [Lit (CHR ''.''), Grp 3 (Plus Digit),
         Opt (re_seq [Lit (CHR ''.''), Grp 4 (Plus Digit),
           Opt (re_seq [Lit (CHR ''.''), Grp 5 (Plus Digit)])])])]"

definition get_volume_value :: "string \<Rightarrow> fp option" where
  "get_volume_value str =
     (case re_search volume_pattern (c_str str) of
        None \<Rightarrow> None
      | Some (_, _, _, groups) \<Rightarrow> Some (strtof (group_str groups 1)))"

definition get_progress_values :: "string \<Rightarrow> (nat \<times> nat \<times> nat) option" where
  "get_progress_values str =
     (case re_search progress_pattern (c_str str) of
        None \<Rightarrow> None
      | Some (_, _, _, groups) \<Rightarrow>
          Some (to_size (strtol (group_str groups 1)), to_size (strtol (group_str groups 2)),
            to_size (strtol (group_str groups 3))))"

definition get_play_parameters :: "string \<Rightarrow> (string \<times> fp) option" where
  "get_play_parameters str =
     (case re_search play_pattern (c_str str) of
        None \<Rightarrow> None
      | Some (_, _, _, groups) \<Rightarrow> Some (group_str groups 1, strtof (group_str groups 2)))"

definition get_scrub_position :: "string \<Rightarrow> fp option" where
  "get_scrub_position str =
     (case re_search scrub_pattern (c_str str) of
        None \<Rightarrow> None
      | Some (_, _, _, groups) \<Rightarrow> Some (strtof (group_str groups 1)))"

definition get_rate_value :: "string \<Rightarrow> fp option" where
  "get_rate_value str =
     (case re_search rate_pattern (c_str str) of
        None \<Rightarrow> None
      | Some (_, _, _, groups) \<Rightarrow> Some (strtof (group_str groups 1)))"

record agent_version =
  major :: u16
  minor :: u16
  revision :: u16
  build :: u16

definition no_agent_version :: agent_version where
  "no_agent_version = \<lparr>major = 0, minor = 0, revision = 0, build = 0\<rparr>"

text \<open>\<open>(uint16_t) strtol(s)\<close>\<close>

definition version_number :: "string \<Rightarrow> u16" where
  "version_number s = of_int (strtol s)"

definition get_user_agent_version :: "string \<Rightarrow> string \<Rightarrow> string \<times> agent_version" where
  "get_user_agent_version agent str =
     (case re_search agent_pattern (c_str str) of
        None \<Rightarrow> (agent, no_agent_version)
      | Some (_, _, _, groups) \<Rightarrow>
          (group_str groups 1,
           \<lparr>major = version_number (group_str groups 2), minor = version_number (group_str groups 3),
            revision = version_number (group_str groups 4), build = version_number (group_str groups 5)\<rparr>))"

section \<open>Numbers survive printing and parsing\<close>

lemma in_Digit: "in_class [(CHR ''0'', CHR ''9'')] = is_digit"
  by (simp add: in_class_def is_digit_def fun_eq_iff)

lemma first_Digits:
  assumes "list_all is_digit t" "t \<noteq> []" "s = [] \<or> \<not> is_digit (hd s)"
  shows "first_match (Plus Digit) (t @ s) caps s caps"
  unfolding Digit_def using assms by (intro first_Plus_class) (auto simp: in_Digit)

lemma first_decimal [first_intros]:
  "s = [] \<or> \<not> is_digit (hd s) \<Longrightarrow> first_match (Plus Digit) (decimal n @ s) caps s caps"
  using decimal_digits decimal_nonempty by (intro first_Digits) (auto simp: list_all_iff)

lemma decimal_no_NUL: "NUL \<notin> set (decimal n)"
  using decimal_digits [of NUL n] by (auto simp: is_digit_def NUL_def)

lemma c_str_append: "NUL \<notin> set s \<Longrightarrow> c_str (s @ t) = s @ c_str t"
  by (induction s) (auto simp: c_str_def)

lemma c_str_Cons: "c \<noteq> CHR 0x00 \<Longrightarrow> c_str (c # s) = c # c_str s"
  by (simp add: c_str_def NUL_def)

lemma c_str_hd: "c_str s = [] \<or> c_str s \<noteq> [] \<and> hd (c_str s) = hd s"
  by (cases s) (auto simp: c_str_def)

definition ends_number :: "string \<Rightarrow> bool" where
  "ends_number s \<longleftrightarrow> s = [] \<or> \<not> is_digit (hd s)"

lemma ends_number_c_str: "ends_number s \<Longrightarrow> c_str s = [] \<or> \<not> is_digit (hd (c_str s))"
  using c_str_hd [of s] by (auto simp: ends_number_def c_str_def)

text \<open>The number the parser reads is the largest \<open>long\<close> when the text holds a larger one.\<close>

lemma strtol_decimal_clamped: "to_size (strtol (decimal n)) = min n (2 ^ 63 - 1)"
proof -
  obtain c cs where d: "decimal n = c # cs" using decimal_nonempty [of n] by (cases "decimal n") auto
  have "is_digit c" using decimal_digits [of c n] d by simp
  then have "\<not> is_space c" "c \<noteq> CHR ''-''" "c \<noteq> CHR ''+''"
    by (auto simp: is_space_def is_digit_def)
  then show ?thesis
    using digits_value_decimal [of n] by (auto simp: strtol_def d clamp_long_def to_size_def)
qed

lemma get_progress_decimal:
  assumes "ends_number rest"
  shows "get_progress_values (''progress: '' @ decimal a @ ''/'' @ decimal b @ ''/'' @ decimal c @ rest) =
    Some (min a (2 ^ 63 - 1), min b (2 ^ 63 - 1), min c (2 ^ 63 - 1))"
proof -
  let ?t = "decimal a @ ''/'' @ decimal b @ ''/'' @ decimal c @ c_str rest"
  have c: "c_str (''progress: '' @ decimal a @ ''/'' @ decimal b @ ''/'' @ decimal c @ rest) = ''progress: '' @ ?t"
    using decimal_no_NUL [of a] decimal_no_NUL [of b] decimal_no_NUL [of c] by (simp add: c_str_append c_str_Cons)
  have "first_match progress_pattern (''progress: '' @ ?t) [] (c_str rest) [(3, decimal c), (2, decimal b), (1, decimal a)]"
    unfolding progress_pattern_def re_seq.simps
    by (rule first_intros | rule ends_number_c_str [OF assms] | simp add: is_digit_def)+
  then have "\<exists>pre m. re_search progress_pattern (''progress: '' @ ?t) =
      Some (pre, m, c_str rest, [(3, decimal c), (2, decimal b), (1, decimal a)])"
    by (subst re_search.simps) (auto simp: first_match_def)
  then show ?thesis
    unfolding get_progress_values_def c by (auto simp: group_str_def strtol_decimal_clamped)
qed

end
