(* ===== verification/Media_Store.thy ===== *)
theory Media_Store
  imports Regex Route_Table Xtxp_Connection
begin

text \<open>
  The casting side of the service: \<open>ap_casting_event_connection_manager\<close> (which reversed connection
  belongs to which session), \<open>ap_casting_media_data_store\<close> (the playlists a local player is to
  fetch, collected from the sender one request at a time), and
  \<open>ap_casting_media_http_service\<close> (what serves them). Both singletons are values that are passed
  along; the mutex of each makes an operation on its map atomic. Connections are numbered; a weak
  pointer is such a number, which \<open>alive\<close> says is still in use.
\<close>

section \<open>Constants of the protocol\<close>

definition TEXT_APPLE_PLIST_XML :: string where "TEXT_APPLE_PLIST_XML = ''text/x-apple-plist+xml''"
definition APPLICATION_MPEGURL :: string where
  "APPLICATION_MPEGURL = ''application/x-mpegURL; charset=utf-8''"
definition HEADER_DATE :: string where "HEADER_DATE = ''Date''"
definition HEADER_ALLOW_ORIGIN :: string where "HEADER_ALLOW_ORIGIN = ''Access-Control-Allow-Origin''"
definition HEADER_ALLOW_HEADER :: string where "HEADER_ALLOW_HEADER = ''Access-Control-Allow-Headers''"

text \<open>Lines of XML: each with its number of tabs; the last one has no line break.\<close>

fun xml_text :: "(nat \<times> string) list \<Rightarrow> string" where
  "xml_text [] = []"
| "xml_text [(n, l)] = replicate n (CHR 0x09) @ l"
| "xml_text ((n, l) # ls) = replicate n (CHR 0x09) @ l @ [LF] @ xml_text ls"

definition xml_prolog :: "(nat \<times> string) list" where
  "xml_prolog =
     [(0, ''<?xml version=\"1.0\" encoding=\"UTF-8\"?>''),
      (0, ''<!DOCTYPE plist PUBLIC \"-//Apple//DTD PLIST 1.0//EN\" \"http://www.apple.com/DTDs/PropertyList-1.0.dtd\">''),
      (0, ''<plist version=\"1.0\">'')]"

definition xml_element :: "string \<Rightarrow> string \<Rightarrow> string" where
  "xml_element tag v = ''<'' @ tag @ ''>'' @ v @ ''</'' @ tag @ ''>''"

section \<open>The event connections\<close>

type_synonym event_connection_map = "(string, nat) std_map"

definition connection_insert :: "string \<Rightarrow> nat \<Rightarrow> event_connection_map \<Rightarrow> event_connection_map" where
  "connection_insert sid p m = map_set sid p m"

definition connection_remove :: "string \<Rightarrow> event_connection_map \<Rightarrow> event_connection_map" where
  "connection_remove sid m = (if map_find sid m \<noteq> None then map_erase sid m else m)"

definition connection_get :: "string \<Rightarrow> event_connection_map \<Rightarrow> nat option" where
  "connection_get sid m = map_find sid m"

section \<open>The media data store\<close>

datatype app_id = e_app_youtube | e_app_netflix | e_app_unknown

record media_store =
  store_app_id :: app_id
  request_id :: u32
  store_session_id :: string
  primary_uri :: string
  uri_stack :: "string list"                 \<comment> \<open>top first\<close>
  host :: string
  media_data :: "(string, string) std_map"

text \<open>
  What the store uses and this repository does not hold. \<open>hls_master_init\<close> and \<open>hls_master\<close> are the
  playlist parser: whether its structure was set up, and the number of bytes parsed with the two
  linked lists, of media and of streams, where \<open>None\<close> is an item without data or without
  URI. \<open>dynamic_replace\<close> is a replacement whose pattern the sender chooses; \<open>None\<close> is an
  exception of the pattern's constructor.
\<close>

record casting_env =
  alive :: "nat \<Rightarrow> bool"
  hls_master_init :: bool
  hls_master :: "string \<Rightarrow> nat \<times> string option list \<times> string option list"
  dynamic_replace :: "string \<Rightarrow> string \<Rightarrow> string \<Rightarrow> string option"  \<comment> \<open>pattern, text, format\<close>

definition MLHLS_SCHEME :: string where "MLHLS_SCHEME = ''mlhls://''"
definition NFHLS_SCHEME :: string where "NFHLS_SCHEME = ''nfhls://''"
definition HTTP_SCHEME :: string where "HTTP_SCHEME = ''http://''"
definition MASTER_M3U8 :: string where "MASTER_M3U8 = ''master.m3u8''"
definition INDEX_M3U8 :: string where "INDEX_M3U8 = ''index.m3u8''"
definition SCHEME_LIST :: re where "SCHEME_LIST = Alt (lit MLHLS_SCHEME) (lit NFHLS_SCHEME)"
definition HOST_LIST :: re where "HOST_LIST = Alt (lit ''localhost'') (lit ''127.0.0.1'')"

definition string_replace :: "string \<Rightarrow> re \<Rightarrow> string \<Rightarrow> string" where
  "string_replace str pattern fmt = regex_replace pattern str fmt"

definition new_media_store :: "u32 \<Rightarrow> media_store" where
  "new_media_store uninitialised =
     \<lparr>store_app_id = e_app_unknown, request_id = uninitialised, store_session_id = [], primary_uri = [],
      uri_stack = [], host = [], media_data = []\<rparr>"

definition set_store_root :: "u16 \<Rightarrow> media_store \<Rightarrow> media_store" where
  "set_store_root port s = s\<lparr>host := ''localhost:'' @ decimal (unat port)\<rparr>"

definition store_reset :: "media_store \<Rightarrow> media_store" where
  "store_reset s = s\<lparr>store_app_id := e_app_unknown, request_id := 1, store_session_id := [],
     primary_uri := [], uri_stack := [], media_data := []\<rparr>"

definition starts_with :: "string \<Rightarrow> string \<Rightarrow> bool" where
  "starts_with p s \<longleftrightarrow> take (length p) s = p"

text \<open>\<open>strstr\<close> and \<open>find\<close> on the texts they see.\<close>

fun contains :: "string \<Rightarrow> string \<Rightarrow> bool" where
  "contains p s = (starts_with p s \<or> (case s of [] \<Rightarrow> False | c # cs \<Rightarrow> contains p cs))"

declare contains.simps [simp del]

definition get_app_id :: "string \<Rightarrow> app_id" where
  "get_app_id u =
     (if starts_with MLHLS_SCHEME u then e_app_youtube
      else if starts_with NFHLS_SCHEME u then e_app_netflix
      else e_app_unknown)"

definition add_media_data :: "string \<Rightarrow> string \<Rightarrow> media_store \<Rightarrow> media_store" where
  "add_media_data u data s = s\<lparr>media_data := map_set u data (media_data s)\<rparr>"

definition query_media_data :: "string \<Rightarrow> media_store \<Rightarrow> string" where
  "query_media_data path s = (case map_find path (media_data s) of Some d \<Rightarrow> d | None \<Rightarrow> [])"

definition is_primary_data_uri :: "string \<Rightarrow> bool" where
  "is_primary_data_uri u \<longleftrightarrow> contains MASTER_M3U8 (c_str u) \<or> contains INDEX_M3U8 (c_str u)"

text \<open>The request for one resource, and the connection it goes out on.\<close>

definition fcup_text :: "u32 \<Rightarrow> string \<Rightarrow> string \<Rightarrow> string" where
  "fcup_text req_id u session_id = xml_text (xml_prolog @
     [(1, ''<dict>''),
      (2, xml_element ''key'' ''sessionID''), (2, xml_element ''integer'' ''1''),
      (2, xml_element ''key'' ''type''), (2, xml_element ''string'' ''unhandledURLRequest''),
      (2, xml_element ''key'' ''request''),
      (2, ''<dict>''),
      (3, xml_element ''key'' ''FCUP_Response_ClientInfo''), (3, xml_element ''integer'' ''1''),
      (3, xml_element ''key'' ''FCUP_Response_ClientRef''), (3, xml_element ''integer'' ''40030004''),
      (3, xml_element ''key'' ''FCUP_Response_RequestID''), (3, xml_element ''integer'' (decimal (unat req_id))),
      (3, xml_element ''key'' ''FCUP_Response_URL''), (3, xml_element ''string'' u),
      (3, xml_element ''key'' ''sessionID''), (3, xml_element ''integer'' ''1''),
      (3, xml_element ''key'' ''FCUP_Response_Headers''),
      (3, ''<dict>''),
      (4, xml_element ''key'' ''X-Playback-Session-Id''), (4, xml_element ''string'' session_id),
      (4, xml_element ''key'' ''User-Agent''),
      (4, xml_element ''string'' ''AppleCoreMedia/1.0.0.11B554a (Apple TV; U; CPU OS 7_0_4 like Mac OS X; en_us)''),
      (3, ''</dict>''),
      (2, ''</dict>''),
      (1, ''</dict>''),
      (0, ''</plist>'')])"

definition fcup_request :: "u32 \<Rightarrow> string \<Rightarrow> string \<Rightarrow> request" where
  "fcup_request req_id u session_id =
     with_content_string (fcup_text req_id u session_id)
       (with_content_type TEXT_APPLE_PLIST_XML
         (with_header ''X-Apple-Session-ID'' session_id (new_request ''HTTP/1.1'' ''POST'' ''/event'')))"

datatype store_event = Event_request nat request  \<comment> \<open>\<open>send_request\<close> on that connection\<close>

definition send_fcup_request ::
  "casting_env \<Rightarrow> event_connection_map \<Rightarrow> string \<Rightarrow> media_store \<Rightarrow> media_store \<times> store_event list" where
  "send_fcup_request E conns u s =
     (let req = fcup_request (request_id s) u (store_session_id s);
          s = s\<lparr>request_id := request_id s + 1\<rparr>
      in (s, case connection_get (store_session_id s) conns of
               None \<Rightarrow> []
             | Some p \<Rightarrow> if alive E p then [Event_request p req] else []))"

definition adjust_primary_uri :: "string \<Rightarrow> media_store \<Rightarrow> string" where
  "adjust_primary_uri u s = string_replace (string_replace u SCHEME_LIST HTTP_SCHEME) HOST_LIST (host s)"

text \<open>The first case falls through into the second; \<open>at\<close> throws when nothing is left.\<close>

definition netflix_path :: "string \<Rightarrow> string c_run" where
  "netflix_path s =
     (let s = string_replace (string_replace s (lit NFHLS_SCHEME) []) HOST_LIST []
      in case s of
           [] \<Rightarrow> Undefined Uncaught_exception
         | c # _ \<Rightarrow> Returns (if c \<noteq> CHR ''/'' then CHR ''/'' # s else s))"

definition extract_uri_path :: "string \<Rightarrow> media_store \<Rightarrow> string c_run" where
  "extract_uri_path u s =
     (case store_app_id s of
        e_app_youtube \<Rightarrow> netflix_path (string_replace (string_replace u (lit MLHLS_SCHEME) []) HOST_LIST [])
      | e_app_netflix \<Rightarrow> netflix_path u
      | e_app_unknown \<Rightarrow> Returns u)"

definition adjust_mlhls_data :: "string \<Rightarrow> media_store \<Rightarrow> string" where
  "adjust_mlhls_data data s = string_replace (string_replace data (lit MLHLS_SCHEME) HTTP_SCHEME) HOST_LIST (host s)"

definition adjust_nfhls_data :: "string \<Rightarrow> media_store \<Rightarrow> string" where
  "adjust_nfhls_data data s = string_replace data (lit NFHLS_SCHEME) (HTTP_SCHEME @ host s @ ''/'')"

definition adjust_primary_media_data :: "string \<Rightarrow> media_store \<Rightarrow> string" where
  "adjust_primary_media_data data s =
     (case store_app_id s of
        e_app_youtube \<Rightarrow> adjust_mlhls_data data s
      | e_app_netflix \<Rightarrow> adjust_nfhls_data data s
      | e_app_unknown \<Rightarrow> data)"

definition youtube_pattern :: re where
  "youtube_pattern = re_seq [lit ''#YT-EXT-CONDENSED-URL:BASE-URI=\"'', Grp 1 (Star AnyChar), lit ''\",PARAMS='',
     Star AnyChar, lit ''PREFIX=\"'', Grp 2 (Star AnyChar), Lit (CHR 0x22)]"

definition adjust_secondary_media_data :: "casting_env \<Rightarrow> string \<Rightarrow> string c_run" where
  "adjust_secondary_media_data E data =
     (let (base, prefix) =
            (case re_search youtube_pattern (c_str data) of
               None \<Rightarrow> ([], [])
             | Some (_, _, _, groups) \<Rightarrow> (group_str groups 1, group_str groups 2))
      in if base \<noteq> [] \<and> prefix \<noteq> [] then
           (case dynamic_replace E ([LF] @ prefix) data ([LF] @ base @ ''/'' @ prefix) of
              None \<Rightarrow> Undefined Uncaught_exception
            | Some result \<Rightarrow> Returns result)
         else Returns data)"

definition request_media_data ::
  "casting_env \<Rightarrow> event_connection_map \<Rightarrow> string \<Rightarrow> string \<Rightarrow> media_store
   \<Rightarrow> bool \<times> media_store \<times> store_event list" where
  "request_media_data E conns u session_id s =
     (let s = store_reset s; app = get_app_id u
      in if app \<noteq> e_app_unknown then
           let s = s\<lparr>store_app_id := app, store_session_id := session_id\<rparr>;
               s = s\<lparr>primary_uri := adjust_primary_uri u s\<rparr>;
               (s, es) = send_fcup_request E conns u s
           in (True, s, es)
         else (False, s, []))"

text \<open>The walk over a linked list stops at the first item without data or URI.\<close>

definition list_uris :: "string option list \<Rightarrow> string list" where
  "list_uris items = map the (takeWhile (\<lambda>i. i \<noteq> None) items)"

definition push_all :: "string list \<Rightarrow> media_store \<Rightarrow> media_store" where
  "push_all us s = s\<lparr>uri_stack := rev us @ uri_stack s\<rparr>"

definition process_media_data ::
  "casting_env \<Rightarrow> event_connection_map \<Rightarrow> string \<Rightarrow> string \<Rightarrow> media_store
   \<Rightarrow> (string \<times> media_store \<times> store_event list) c_run" where
  "process_media_data E conns u data s =
     c_bind
       (if is_primary_data_uri u then
          let (parsed, media, streams) = hls_master E data;
              s' = (if hls_master_init E \<and> parsed \<noteq> 0
                    then push_all (list_uris streams) (push_all (list_uris media) s) else s)
          in Returns (adjust_primary_media_data data s', s')
        else c_bind (adjust_secondary_media_data E data) (\<lambda>d. Returns (d, s)))
       (\<lambda>(d, s).
     c_bind (extract_uri_path u s) (\<lambda>path.
       let s = (if path \<noteq> [] \<and> d \<noteq> [] then add_media_data path d s else s)
       in case uri_stack s of
            [] \<Rightarrow> Returns (primary_uri s, s, [])
          | next_uri # rest \<Rightarrow>
              (case send_fcup_request E conns next_uri (s\<lparr>uri_stack := rest\<rparr>) of
                 (s, es) \<Rightarrow> Returns ([], s, es))))"

section \<open>The service that hands the data out\<close>

definition media_get_handler :: "media_store request_handler" where
  "media_get_handler req res st =
     (let data = query_media_data (uri req) (fst st)
      in if data = [] then Returns (with_status not_found res, fst st, snd st)
         else Returns (with_content_string data (with_content_type APPLICATION_MPEGURL (with_status ok res)),
                fst st, snd st))"

text \<open>\<open>date\<close> is what \<open>gmt_time_string\<close> returns.\<close>

definition media_common_header :: "string \<Rightarrow> request \<Rightarrow> response \<Rightarrow> response" where
  "media_common_header date req res =
     with_header HEADER_ALLOW_ORIGIN ''*''
       (with_header HEADER_ALLOW_HEADER HEADER_CONTENT_TYPE (with_header HEADER_DATE date res))"

definition media_routes_table :: "media_store request_handler request_route list" where
  "media_routes_table = [\<lparr>route_scheme = ''HTTP'', route_method = ''GET'', route_path = ''*'',
     route_handler = media_get_handler\<rparr>]"

end
