(* ===== verification/Airplay_Session.thy ===== *)
theory Airplay_Session
  imports Ap_Crypto Ap_Config Content_Parser Media_Store Timing_Sync Plist_Parse Plist_Serialize
begin

text \<open>
  \<open>ap_airplay_connection\<close> of \<open>src/service/ap_airplay_service.cpp\<close>, its state and its life: what
  it keeps, how it is created and destroyed, and the calls the application makes on it as a
  session. The shared media store and the shared table of event connections are part of the state,
  as the handlers of this connection see them. Everything the connection does to the outside goes,
  in order, into \<open>events\<close>: the callbacks of the application, requests on event connections, streams
  that are started and stopped.
\<close>

datatype session_type = mirroring_session | casting_session | unknown_session

datatype airplay_event =
    Session_begin u64 | Session_end u64
  | Video_stream_started | Video_stream_stopped
  | Audio_stream_started nat | Audio_stream_stopped
  | Audio_set_volume fp fp                    \<comment> \<open>ratio, volume\<close>
  | Audio_set_progress fp nat nat nat         \<comment> \<open>ratio, start, current, end\<close>
  | Audio_set_cover string "u8 list" | Audio_set_meta_data "u8 list"
  | Video_play u64 string fp | Video_scrub u64 fp | Video_rate u64 fp | Video_stop u64
  | Acquire_playback_info u64
  | Store_event store_event
  | Timing_event timing_action
  | Video_service_started | Video_service_stopped | Audio_service_started | Audio_service_stopped
  | Timing_opened | Timing_closed
  | Connection_stopped

text \<open>What the application calls on the session while it handles \<open>on_session_begin\<close>.\<close>

datatype app_call = Set_mirroring_handler bool | Set_casting_handler bool | Disconnect

record playback_info =
  pi_uuid :: string
  pi_stallCount :: u32
  pi_duration :: fp
  pi_position :: fp
  pi_rate :: fp
  pi_readyToPlay :: bool
  pi_playbackBufferEmpty :: bool
  pi_playbackBufferFull :: bool
  pi_playbackLikelyToKeepUp :: bool
  pi_loadedTimeRanges :: "(fp \<times> fp) list"       \<comment> \<open>start, duration\<close>
  pi_seekableTimeRanges :: "(fp \<times> fp) list"

text \<open>
  What the connection is given: the cryptographic library, the allocator and the recursion bound
  of the property lists, what the store uses, the configuration, the application (\<open>has_app\<close> says that there
  is a handler), the number of this connection, the port of its service if it still exists, the
  ports the services it starts get, the address of the peer unless the socket is closed, and the
  clock.
\<close>

record airplay_env =
  lib :: crypto_lib
  plist_alloc :: allocator
  plist_fuel :: nat
  casting :: casting_env
  config :: ap_config
  has_app :: bool
  on_session_begin :: "session_type \<Rightarrow> app_call list"
  app_playback_info :: playback_info
  self_connection :: nat
  service_port :: "nat option"
  video_service_port :: nat
  audio_data_port :: nat
  audio_control_port :: nat
  timing_service_port :: nat
  peer_address :: "string option"
  clock :: "nat \<times> nat"                        \<comment> \<open>two readings, in milliseconds\<close>
  airtunes_version :: string                 \<comment> \<open>of the configuration of the first connection\<close>
  date :: string

record stream_service =
  svc_has_handler :: bool

record airplay =
  session_id :: u64
  session_type :: session_type
  agent :: string
  agent_version :: agent_version
  crypto :: ap_crypto
  video_service :: "stream_service option"
  audio_service :: "stream_service option"
  timing :: timing_service
  mirroring_handler :: bool
  casting_handler :: bool
  start_pos_in_ms :: fp
  playback_uuid :: string
  apple_session_id :: string
  store :: media_store
  event_connections :: event_connection_map
  events :: "airplay_event list"

type_synonym airplay_handler = "airplay_env \<Rightarrow> airplay request_handler"

definition emit :: "airplay_event list \<Rightarrow> airplay \<Rightarrow> airplay" where
  "emit es s = s\<lparr>events := events s @ es\<rparr>"

section \<open>Life of a connection\<close>

definition init_session_id :: "u64 \<Rightarrow> nat \<Rightarrow> u64" where
  "init_session_id address timestamp = push_bit 32 (of_nat timestamp) OR (address AND 0xffffffff)"

definition new_airplay_connection ::
  "u64 \<Rightarrow> nat \<Rightarrow> server_key_chain \<Rightarrow> media_store \<Rightarrow> event_connection_map \<Rightarrow> airplay" where
  "new_airplay_connection address timestamp keys shared_store conns =
     \<lparr>session_id = init_session_id address timestamp, session_type = unknown_session, agent = [],
      agent_version = no_agent_version, crypto = new_ap_crypto keys, video_service = None,
      audio_service = None, timing = new_timing_service, mirroring_handler = False,
      casting_handler = False, start_pos_in_ms = fp_of_nat single 0, playback_uuid = [],
      apple_session_id = [], store = shared_store, event_connections = conns, events = [Timing_opened]\<rparr>"

definition destroy_airplay_connection :: "airplay_env \<Rightarrow> bool \<Rightarrow> airplay \<Rightarrow> airplay" where
  "destroy_airplay_connection E reversed s =
     (let s = emit [Timing_closed] s;
          s = (if reversed
               then s\<lparr>event_connections := connection_remove (apple_session_id s) (event_connections s)\<rparr> else s)
      in if session_type s = casting_session then
           emit (if has_app E then [Session_end (session_id s)] else []) (s\<lparr>casting_handler := False\<rparr>)
         else if session_type s = mirroring_session then
           emit (if has_app E then [Session_end (session_id s)] else []) (s\<lparr>mirroring_handler := False\<rparr>)
         else s)"

section \<open>The session as the application sees it\<close>

definition set_mirroring_handler :: "bool \<Rightarrow> airplay \<Rightarrow> airplay" where
  "set_mirroring_handler h s = (if session_type s = mirroring_session then s\<lparr>mirroring_handler := h\<rparr> else s)"

definition set_casting_handler :: "bool \<Rightarrow> airplay \<Rightarrow> airplay" where
  "set_casting_handler h s = (if session_type s = casting_session then s\<lparr>casting_handler := h\<rparr> else s)"

definition disconnect :: "airplay \<Rightarrow> airplay" where
  "disconnect s = emit [Connection_stopped] s"

fun app_call_effect :: "app_call \<Rightarrow> airplay \<Rightarrow> airplay" where
  "app_call_effect (Set_mirroring_handler h) s = set_mirroring_handler h s"
| "app_call_effect (Set_casting_handler h) s = set_casting_handler h s"
| "app_call_effect Disconnect s = disconnect s"

text \<open>Both kinds of session begin alike.\<close>

definition begin_session :: "airplay_env \<Rightarrow> session_type \<Rightarrow> airplay \<Rightarrow> airplay" where
  "begin_session E type s =
     (let s = s\<lparr>session_type := type\<rparr>
      in if has_app E
         then fold app_call_effect (on_session_begin E type) (emit [Session_begin (session_id s)] s)
         else s)"

section \<open>Answers\<close>

definition APPLICATION_OCTET_STREAM :: string where
  "APPLICATION_OCTET_STREAM = ''application/octet-stream''"
definition APPLICATION_BINARY_PLIST :: string where
  "APPLICATION_BINARY_PLIST = ''application/x-apple-binary-plist''"
definition APPLICATION_DMAP_TAGGED :: string where
  "APPLICATION_DMAP_TAGGED = ''application/x-dmap-tagged''"
definition TEXT_PARAMETERS :: string where "TEXT_PARAMETERS = ''text/parameters''"
definition IMAGE_JPEG :: string where "IMAGE_JPEG = ''image/jpeg''"
definition IMAGE_PNG :: string where "IMAGE_PNG = ''image/png''"
definition HEADER_SERVER :: string where "HEADER_SERVER = ''Server''"
definition HEADER_CSEQ :: string where "HEADER_CSEQ = ''CSeq''"
definition HEADER_SESSION :: string where "HEADER_SESSION = ''Session''"
definition HEADER_AUDIO_JACK_STATUS :: string where "HEADER_AUDIO_JACK_STATUS = ''Audio-Jack-Status''"
definition HEADER_APPLE_SESSION_ID :: string where "HEADER_APPLE_SESSION_ID = ''X-Apple-Session-ID''"

definition ERROR_STATUS_RESPONSE :: string where
  "ERROR_STATUS_RESPONSE = xml_text (xml_prolog @
     [(0, ''<dict>''), (1, xml_element ''key'' ''errorCode''), (1, xml_element ''integer'' ''0''),
      (0, ''</dict>''), (0, ''</plist>'')])"

definition respond :: "response \<Rightarrow> 's \<times> bool \<Rightarrow> (response \<times> 's \<times> bool) c_run" where
  "respond res st = Returns (res, fst st, snd st)"

definition with_plist :: "airplay_env \<Rightarrow> plist \<Rightarrow> response \<Rightarrow> response c_run" where
  "with_plist E obj res =
     c_bind (to_bytes_array (plist_alloc E) obj) (\<lambda>bytes.
       Returns (with_content bytes (with_content_type APPLICATION_BINARY_PLIST (with_status ok res))))"

definition parse_plist :: "airplay_env \<Rightarrow> request \<Rightarrow> plist c_run" where
  "parse_plist E req = plist_object_from_bplist (plist_alloc E) (plist_fuel E) (Some (content req))"

text \<open>\<open>strcasecmp\<close> in the C locale, against zero.\<close>

definition to_lower :: "char \<Rightarrow> char" where
  "to_lower c = (if 65 \<le> (of_char c :: nat) \<and> (of_char c :: nat) \<le> 90 then char_of (of_char c + 32 :: nat) else c)"

definition same_no_case :: "string \<Rightarrow> string \<Rightarrow> bool" where
  "same_no_case s t \<longleftrightarrow> map to_lower (c_str s) = map to_lower (c_str t)"

section \<open>What every response carries\<close>

definition add_common_header :: "airplay_env \<Rightarrow> request \<Rightarrow> response \<Rightarrow> response" where
  "add_common_header E req res =
     (let res = with_header HEADER_DATE (date E) res;
          res = with_header HEADER_SERVER (''AirTunes/'' @ airtunes_version E) res;
          res = with_header HEADER_SESSION ''CAFEBABE'' res;
          res = (case map_find HEADER_CSEQ (headers req) of
                   None \<Rightarrow> res | Some cseq \<Rightarrow> with_header HEADER_CSEQ cseq res)
      in if req_method req \<noteq> ''RECORD'' \<and> req_method req \<noteq> ''SET_PARAMETER''
         then with_header HEADER_AUDIO_JACK_STATUS ''Connected; type=digital'' res else res)"

text \<open>Never called by the service.\<close>

definition validate_user_agent :: "request \<Rightarrow> airplay \<Rightarrow> airplay" where
  "validate_user_agent req s =
     (if agent s \<noteq> [] then s
      else case map_find ''User-Agent'' (headers req) of
             None \<Rightarrow> s
           | Some user_agent \<Rightarrow>
               (case get_user_agent_version (agent s) user_agent of
                  (a, v) \<Rightarrow> s\<lparr>agent := a, agent_version := v\<rparr>))"

end
