(* ===== verification/Airplay_Mirroring.thy ===== *)
theory Airplay_Mirroring
  imports Airplay_Session
begin

text \<open>
  The RTSP handlers of \<open>ap_airplay_connection\<close>: pairing, fairplay, the set-up and tear-down of a
  mirroring session and of its streams, and its parameters. A handler maps the request, the
  response so far and the state to the response and the new state. A \<open>break\<close> out of a handler's
  \<open>do\<close> block is the answer 400; what the handler did before stays done.
\<close>

definition stream_audio :: int where "stream_audio = 96"
definition stream_video :: int where "stream_video = 110"

definition options_handler :: airplay_handler where
  "options_handler E req res st = respond
     (with_content_type APPLICATION_OCTET_STREAM
       (with_header ''Public'' (''ANNOUNCE, SETUP, RECORD, PAUSE, FLUSH, TEARDOWN, '' @
          ''OPTIONS, GET_PARAMETER, SET_PARAMETER, POST, GET'')
         (with_status ok res))) st"

section \<open>Pairing and fairplay\<close>

definition post_pair_setup_handler :: airplay_handler where
  "post_pair_setup_handler E req res st =
     c_bind (if length (content req) = 32
             then init_client_public_keys None 0 (Some (content req)) 32 (crypto (fst st))
             else Returns (crypto (fst st))) (\<lambda>c.
     respond (with_content (ed_public_key (server c))
         (with_content_type APPLICATION_OCTET_STREAM (with_status ok res)))
       ((fst st)\<lparr>crypto := c\<rparr>, snd st))"

text \<open>The first byte of the content says which of the two frames it is; no size is checked.\<close>

definition post_pair_verify_handler :: airplay_handler where
  "post_pair_verify_handler E req res st =
     c_bind (c_nth (content req) 0) (\<lambda>is_first_frame.
     if is_first_frame \<noteq> 0 then
       c_bind (init_client_public_keys (Some (drop 4 (content req))) 32
                 (Some (drop 36 (content req))) 32 (crypto (fst st))) (\<lambda>c.
       c_bind (init_pair_verify_aes (lib E) c) (\<lambda>c.
       c_bind (sign_pair_signature (lib E) c) (\<lambda>(signature, c).
         respond (with_content (curve_public_key (server c) @ signature)
             (with_content_type APPLICATION_OCTET_STREAM (with_status ok res)))
           ((fst st)\<lparr>crypto := c\<rparr>, snd st))))
     else
       c_bind (verify_pair_signature (lib E) (Some (drop 4 (content req))) 64 (crypto (fst st)))
         (\<lambda>(verified, c). respond (with_status (if verified then ok else bad_request) res)
           ((fst st)\<lparr>crypto := c\<rparr>, snd st)))"

text \<open>A comparison of the bytes at a position, one after the other, up to the first difference.\<close>

fun bytes_at :: "u8 list \<Rightarrow> nat \<Rightarrow> u8 list \<Rightarrow> bool c_run" where
  "bytes_at data i [] = Returns True"
| "bytes_at data i (b # bs) =
     c_bind (c_nth data i) (\<lambda>a. if a = b then bytes_at data (i + 1) bs else Returns False)"

definition fp_answer :: "u8 list \<Rightarrow> response \<Rightarrow> response" where
  "fp_answer out res =
     with_content_type APPLICATION_OCTET_STREAM (with_status ok
       (with_content out (with_content_type APPLICATION_OCTET_STREAM (with_status ok res))))"

definition post_fp_setup_handler :: airplay_handler where
  "post_fp_setup_handler E req res st =
     (let data = content req;
          done = respond (with_content_type APPLICATION_OCTET_STREAM (with_status ok res)) st in
      c_bind (bytes_at data 0 (bytes_of ''FPLY'')) (\<lambda>signed.
      if \<not> signed then done
      else c_bind (c_nth data 4) (\<lambda>major_version.
        if major_version \<noteq> 3 then done
        else c_bind (c_nth data 6) (\<lambda>phase.
          if phase = 1 \<and> length data = 16 then
            c_bind (c_nth data 14) (\<lambda>mode.
            c_bind (fp_setup (lib E) mode (replicate 142 0)) (\<lambda>out.
              respond (fp_answer out res) st))
          else if phase = 2 then done
          else if phase = 3 \<and> length data = 164 then
            c_bind (fp_handshake (lib E) (replicate 32 0) (Some data) 164 (crypto (fst st))) (\<lambda>(out, c).
              respond (fp_answer out res) ((fst st)\<lparr>crypto := c\<rparr>, snd st))
          else respond (with_status bad_request res) st))))"

section \<open>Set-up\<close>

text \<open>An integer member of a dictionary: missing or of another type, it is none.\<close>

definition integer_member :: "plist \<Rightarrow> string \<Rightarrow> int option" where
  "integer_member obj key =
     (let v = plist_object_dict_get_value obj (Some key)
      in if v = PNull \<or> plist_object_get_type v \<noteq> PLIST_TYPE_INTEGER then None
         else case plist_object_integer_get_value v (Some 0) of
                (ret, val) \<Rightarrow> if ret \<noteq> 0 then None else val)"

text \<open>A data member: its bytes.\<close>

definition data_member :: "plist \<Rightarrow> string \<Rightarrow> u8 list option" where
  "data_member obj key =
     (case plist_object_data_get_value (plist_object_dict_get_value obj (Some key)) (Some []) (Some 0) of
        (ret, val, _) \<Rightarrow> if ret \<noteq> 0 then None else val)"

definition setup_failed :: "response \<Rightarrow> airplay \<times> bool \<Rightarrow> (response \<times> airplay \<times> bool) c_run" where
  "setup_failed res st = respond (with_status bad_request res) st"

definition format_of :: "int \<Rightarrow> nat option" where
  "format_of v = (if v = 0x40000 then Some 1 else if v = 0x400000 then Some 2
     else if v = 0x1000000 then Some 3 else None)"

definition plist_integer :: "airplay_env \<Rightarrow> nat \<Rightarrow> plist" where
  "plist_integer E n = plist_object_integer (plist_alloc E) n"

definition plist_dict :: "airplay_env \<Rightarrow> (string \<times> plist) list \<Rightarrow> plist" where
  "plist_dict E members = plist_object_dict (plist_alloc E) members"

definition plist_array :: "airplay_env \<Rightarrow> plist list \<Rightarrow> plist" where
  "plist_array E items = plist_object_array (plist_alloc E) items"

definition setup_audio_stream :: "airplay_env \<Rightarrow> plist \<Rightarrow> int \<Rightarrow> response \<Rightarrow> airplay \<times> bool
    \<Rightarrow> (response \<times> airplay \<times> bool) c_run" where
  "setup_audio_stream E stream_obj type res st =
     (let s = (fst st)\<lparr>crypto := init_audio_stream_aes_cbc (crypto (fst st))\<rparr> in
      case integer_member stream_obj ''audioFormat'' of
        None \<Rightarrow> setup_failed res (s, snd st)
      | Some format_value \<Rightarrow>
          (case format_of format_value of
             None \<Rightarrow> setup_failed res (s, snd st)
           | Some format \<Rightarrow>
               let s = (if audio_service s = None
                        then emit [Audio_service_started]
                          (s\<lparr>audio_service := Some \<lparr>svc_has_handler = mirroring_handler s\<rparr>\<rparr>)
                        else s);
                   s = emit (if mirroring_handler s then [Audio_stream_started format] else []) s
               in c_bind (with_plist E
                    (plist_dict E [(''streams'', plist_array E [plist_dict E
                       [(''type'', plist_integer E (to_size type)),
                        (''dataPort'', plist_integer E (audio_data_port E)),
                        (''controlPort'', plist_integer E (audio_control_port E))]])]) res)
                  (\<lambda>res. respond res (s, snd st))))"

definition setup_video_stream :: "airplay_env \<Rightarrow> plist \<Rightarrow> int \<Rightarrow> response \<Rightarrow> airplay \<times> bool
    \<Rightarrow> (response \<times> airplay \<times> bool) c_run" where
  "setup_video_stream E stream_obj type res st =
     (case integer_member stream_obj ''streamConnectionID'' of
        None \<Rightarrow> setup_failed res st
      | Some connection_id \<Rightarrow>
          c_bind (init_video_stream_aes_ctr (lib E) (to_size connection_id) (crypto (fst st))) (\<lambda>c.
          let s = (fst st)\<lparr>crypto := c\<rparr>;
              s = emit (if mirroring_handler s then [Video_stream_started] else []) s;
              s = (if video_service s = None
                   then emit [Video_service_started]
                     (s\<lparr>video_service := Some \<lparr>svc_has_handler = mirroring_handler s\<rparr>\<rparr>)
                   else s);
              listen_port = (case service_port E of None \<Rightarrow> 0 | Some p \<Rightarrow> p)
          in c_bind (with_plist E
               (plist_dict E [(''eventPort'', plist_integer E listen_port),
                  (''streams'', plist_array E [plist_dict E
                     [(''type'', plist_integer E (to_size type)),
                      (''dataPort'', plist_integer E (video_service_port E))]])]) res)
             (\<lambda>res. respond res (s, snd st))))"

definition setup_session :: "airplay_env \<Rightarrow> plist \<Rightarrow> response \<Rightarrow> airplay \<times> bool
    \<Rightarrow> (response \<times> airplay \<times> bool) c_run" where
  "setup_session E data_obj res st =
     (case data_member data_obj ''eiv'' of
        None \<Rightarrow> setup_failed res st
      | Some iv \<Rightarrow>
          (case data_member data_obj ''ekey'' of
             None \<Rightarrow> setup_failed res st
           | Some key \<Rightarrow>
               c_bind (init_client_aes_info (lib E) (Some iv) (length iv) (Some key) (length key)
                         (crypto (fst st))) (\<lambda>c.
               let s = (fst st)\<lparr>crypto := c\<rparr> in
               case integer_member data_obj ''timingPort'' of
                 None \<Rightarrow> setup_failed res (s, snd st)
               | Some timing_port \<Rightarrow>
                   let s = begin_session E mirroring_session s in
                   (case peer_address E of
                      None \<Rightarrow> Undefined Uncaught_exception
                    | Some addr \<Rightarrow>
                        let s = s\<lparr>timing := set_server_endpoint addr (to_size timing_port mod 2 ^ 16) (timing s)\<rparr>
                        in c_bind (with_plist E
                             (plist_dict E [(''eventPort'', plist_integer E 0),
                                (''timingPort'', plist_integer E (timing_service_port E))]) res)
                           (\<lambda>res. respond res (s, snd st))))))"

definition setup_handler :: airplay_handler where
  "setup_handler E req res st =
     (if content_type req \<noteq> APPLICATION_BINARY_PLIST then setup_failed res st
      else c_bind (parse_plist E req) (\<lambda>data_obj.
        if data_obj = PNull then setup_failed res st
        else
          let streams = plist_object_dict_get_value data_obj (Some ''streams'') in
          if streams = PNull then setup_session E data_obj res st
          else if plist_object_get_type streams \<noteq> PLIST_TYPE_ARRAY then setup_failed res st
          else
            let stream_obj = plist_object_array_get_value streams 0 in
            if stream_obj = PNull \<or> plist_object_get_type stream_obj \<noteq> PLIST_TYPE_DICT
            then setup_failed res st
            else
              (case integer_member stream_obj ''type'' of
                 None \<Rightarrow> setup_failed res st
               | Some type \<Rightarrow>
                   if type = stream_audio then setup_audio_stream E stream_obj type res st
                   else if type = stream_video then setup_video_stream E stream_obj type res st
                   else setup_failed res st)))"

section \<open>Information about the receiver\<close>

definition plist_string :: "airplay_env \<Rightarrow> string \<Rightarrow> plist" where
  "plist_string E s = plist_object_string (plist_alloc E) s"

definition info_plist :: "airplay_env \<Rightarrow> plist" where
  "info_plist E =
     (let cfg = config E; int' = (\<lambda>i. plist_integer E (to_size i)); num = plist_integer E;
          str = plist_string E; yes = plist_object_true (plist_alloc E) in
      plist_dict E
       [(''deviceID'', str (deviceID cfg)),
        (''features'', int' (cfg_features cfg)),
        (''keepAliveLowPower'', num 1),
        (''keepAliveSendStatsAsBody'', num 1),
        (''macAddress'', str (cfg_macAddress cfg)),
        (''model'', str (cfg_model cfg)),
        (''name'', str (cfg_name cfg)),
        (''sourceVersion'', str (cfg_serverVersion cfg)),
        (''statusFlags'', int' (cfg_statusFlag cfg)),
        (''pi'', str (cfg_pi cfg)),
        (''pk'', plist_object_data (plist_alloc E) (bytes_of (cfg_pk cfg))),
        (''vv'', int' (cfg_vv cfg)),
        (''audioFormats'', plist_array E [plist_dict E
           [(''type'', num 96), (''audioInputFormats'', num 0x01000000),
            (''audioOutputFormats'', num 0x01000000)]]),
        (''audioLatencies'', plist_array E [plist_dict E
           [(''type'', num 96), (''audioType'', str ''default''),
            (''inputLatencyMicros'', num 0), (''outputLatencyMicros'', num 0)]]),
        (''displays'', plist_array E [plist_dict E
           [(''features'', num 14),
            (''height'', int' (disp_height (cfg_display cfg))),
            (''heightPixels'', int' (disp_height (cfg_display cfg))),
            (''heightPhysical'', num 0),
            (''width'', int' (disp_width (cfg_display cfg))),
            (''widthPixels'', int' (disp_width (cfg_display cfg))),
            (''widthPhysical'', num 0),
            (''refreshRate'', plist_object_real (plist_alloc E)
               (encode_double (disp_refreshRate (cfg_display cfg)))),
            (''overscanned'', yes),
            (''rotation'', yes),
            (''uuid'', str (disp_uuid (cfg_display cfg)))]])])"

definition get_info_handler :: airplay_handler where
  "get_info_handler E req res st =
     c_bind (with_plist E (info_plist E) res) (\<lambda>res. respond res st)"

section \<open>The running session\<close>

definition post_feedback_handler :: airplay_handler where
  "post_feedback_handler E req res st = respond (with_status ok res) st"

definition record_handler :: airplay_handler where
  "record_handler E req res st =
     (case post_send_query (fst (clock E)) (snd (clock E)) (timing (fst st)) of
        (t, as) \<Rightarrow>
          respond (with_header ''Audio-Latency'' ''0'' (with_status ok res))
            (emit (map Timing_event as) ((fst st)\<lparr>timing := t\<rparr>), snd st))"

definition get_parameter_handler :: airplay_handler where
  "get_parameter_handler E req res st =
     respond (with_content_string (''volume: 0.000000'' @ RN_LINE_BREAK)
       (with_content_type TEXT_PARAMETERS (with_status ok res))) st"

definition post_audioMode :: airplay_handler where
  "post_audioMode E req res st = respond (with_status ok res) st"

text \<open>The volume as a percentage of the range of 30 dB; \<open>-144\<close> is mute.\<close>

definition volume_ratio :: "fp \<Rightarrow> fp" where
  "volume_ratio volume =
     (if fp_eq (fp_of_nat single 0) volume then fp_of_nat single 100
      else if fp_eq (Finite True 144 0) volume then fp_of_nat single 0
      else fp_div single (fp_mul single (fp_of_nat single 100) (fp_add single (fp_of_nat single 30) volume))
             (fp_of_nat single 30))"

text \<open>The two differences are taken modulo \<open>2 ^ 64\<close>.\<close>

definition progress_ratio :: "nat \<Rightarrow> nat \<Rightarrow> nat \<Rightarrow> fp" where
  "progress_ratio start_at current end_at =
     fp_div single (fp_mul single (fp_of_nat single 100) (fp_of_nat single (size_minus current start_at)))
       (fp_of_nat single (size_minus end_at start_at))"

definition parameter_events :: "request \<Rightarrow> airplay_event list" where
  "parameter_events req =
     (if content_type req = TEXT_PARAMETERS then
        (let str = string_of (content req) in
         case get_volume_value str of
           Some volume \<Rightarrow> [Audio_set_volume (volume_ratio volume) volume]
         | None \<Rightarrow>
             (case get_progress_values str of
                Some (start_at, current, end_at) \<Rightarrow>
                  [Audio_set_progress (progress_ratio start_at current end_at) start_at current end_at]
              | None \<Rightarrow> []))
      else if content_type req = IMAGE_JPEG \<or> content_type req = IMAGE_PNG then
        [Audio_set_cover (content_type req) (content req)]
      else if content_type req = APPLICATION_DMAP_TAGGED then [Audio_set_meta_data (content req)]
      else [])"

definition set_parameter_handler :: airplay_handler where
  "set_parameter_handler E req res st =
     respond (with_status ok res)
       (emit (if mirroring_handler (fst st) then parameter_events req else []) (fst st), snd st)"

section \<open>Tear-down\<close>

definition stop_video_stream :: "airplay \<Rightarrow> airplay" where
  "stop_video_stream s =
     (let s = (if video_service s \<noteq> None then emit [Video_service_stopped] (s\<lparr>video_service := None\<rparr>) else s)
      in emit (if mirroring_handler s then [Video_stream_stopped] else []) s)"

definition stop_audio_stream :: "airplay \<Rightarrow> airplay" where
  "stop_audio_stream s =
     (let s = (if audio_service s \<noteq> None then emit [Audio_service_stopped] (s\<lparr>audio_service := None\<rparr>) else s)
      in emit (if mirroring_handler s then [Audio_stream_stopped] else []) s)"

definition teardown_stream :: "plist \<Rightarrow> airplay \<Rightarrow> airplay" where
  "teardown_stream data_obj s =
     (let streams = plist_object_dict_get_value data_obj (Some ''streams'');
          stream_obj = plist_object_array_get_value streams 0 in
      if streams \<noteq> PNull \<and> plist_object_get_type streams = PLIST_TYPE_ARRAY \<and>
         stream_obj \<noteq> PNull \<and> plist_object_get_type stream_obj = PLIST_TYPE_DICT then
        (case integer_member stream_obj ''type'' of
           None \<Rightarrow> s
         | Some type \<Rightarrow>
             if type = stream_video then stop_video_stream s
             else if type = stream_audio then stop_audio_stream s
             else s)
      else s)"

definition teardown_handler :: airplay_handler where
  "teardown_handler E req res st =
     (if content_type req = APPLICATION_BINARY_PLIST then
        c_bind (parse_plist E req) (\<lambda>data_obj.
          respond (with_status ok res)
            (if data_obj \<noteq> PNull then teardown_stream data_obj (fst st) else fst st, snd st))
      else respond (with_status ok res) st)"

text \<open>The sequence number in the header is read and not used.\<close>

definition flush_handler :: airplay_handler where
  "flush_handler E req res st =
     respond (with_content_type APPLICATION_BINARY_PLIST (with_status ok res)) st"

end
