(* ===== verification/Airplay_Casting.thy ===== *)
theory Airplay_Casting
  imports Airplay_Session
begin

text \<open>
  The HTTP handlers of \<open>ap_airplay_connection\<close>, which cast a video: the receiver's description, the
  reversal of a connection for events, the player's commands, the answers of the sender to the
  requests of the media store, and the state of the playback.
\<close>

section \<open>The receiver\<close>

definition server_info_text :: "airplay_env \<Rightarrow> string" where
  "server_info_text E =
     (let cfg = config E in
      xml_text (xml_prolog @
        [(0, ''<dict>''),
         (1, xml_element ''key'' ''features''), (1, xml_element ''integer'' ''0x27F''),
         (1, xml_element ''key'' ''macAddress''), (1, xml_element ''string'' (cfg_macAddress cfg)),
         (1, xml_element ''key'' ''model''), (1, xml_element ''string'' (cfg_model cfg)),
         (1, xml_element ''key'' ''osBuildVersion''), (1, xml_element ''string'' ''12B435''),
         (1, xml_element ''key'' ''protovers''), (1, xml_element ''string'' ''1.0''),
         (1, xml_element ''key'' ''srcvers''), (1, xml_element ''string'' (cfg_serverVersion cfg)),
         (1, xml_element ''key'' ''vv''), (1, xml_element ''integer'' (decimal_int (cfg_vv cfg))),
         (1, xml_element ''key'' ''deviceid''), (1, xml_element ''string'' (cfg_macAddress cfg)),
         (0, ''</dict>''),
         (0, ''</plist>'')]))"

definition get_server_info_handler :: airplay_handler where
  "get_server_info_handler E req res st =
     respond (with_content_string (server_info_text E)
         (with_content_type TEXT_APPLE_PLIST_XML (with_status ok res)))
       (begin_session E casting_session (fst st), snd st)"

definition post_fp_setup2_handler :: airplay_handler where
  "post_fp_setup2_handler E req res st = respond (with_status ok res) st"

section \<open>Events\<close>

definition reverse_connection :: "airplay_env \<Rightarrow> string \<Rightarrow> airplay \<times> bool \<Rightarrow> airplay \<times> bool" where
  "reverse_connection E sid st =
     ((fst st)\<lparr>apple_session_id := sid,
        event_connections := connection_insert sid (self_connection E) (event_connections (fst st))\<rparr>, True)"

definition copy_header :: "string \<Rightarrow> request \<Rightarrow> response \<Rightarrow> response" where
  "copy_header name req res =
     (case map_find name (headers req) of None \<Rightarrow> res | Some v \<Rightarrow> with_header name v res)"

text \<open>The iterator of the session header is dereferenced also when it is the end.\<close>

definition post_reverse_handler :: airplay_handler where
  "post_reverse_handler E req res st =
     (let res = copy_header ''Upgrade'' req (copy_header ''Connection'' req res) in
      case map_find ''X-Apple-Session-ID'' (headers req) of
        None \<Rightarrow> Undefined Null_deref
      | Some sid \<Rightarrow> respond (with_status switching_protocols res) (reverse_connection E sid st))"

section \<open>The player\<close>

definition play_event :: "string \<Rightarrow> airplay \<Rightarrow> airplay" where
  "play_event location s =
     emit (if casting_handler s then [Video_play (session_id s) location (start_pos_in_ms s)] else []) s"

text \<open>The string member of a dictionary, as a \<open>char *\<close>.\<close>

definition string_member :: "plist \<Rightarrow> string \<Rightarrow> string option" where
  "string_member obj key =
     (case plist_object_string_get_value (plist_object_dict_get_value obj (Some key)) (Some []) of
        (ret, val) \<Rightarrow> if ret \<noteq> 0 then None else map_option c_str val)"

text \<open>A start position that is missing, or no real number, is \<open>0.0\<close>.\<close>

definition start_position :: "plist \<Rightarrow> fp" where
  "start_position data_obj =
     (case plist_object_real_get_value (plist_object_dict_get_value data_obj (Some ''Start-Position-Seconds''))
             (Some 0) of
        (_, val) \<Rightarrow> fp_mul single (fp_convert single (decode_double (the val))) (fp_of_nat single 1000))"

text \<open>The location to play, \<open>None\<close> where the request is refused, and the state after reading it.\<close>

definition play_parameters :: "airplay_env \<Rightarrow> request \<Rightarrow> airplay \<Rightarrow> (string option \<times> airplay) c_run" where
  "play_parameters E req s =
     (if same_no_case (content_type req) APPLICATION_BINARY_PLIST then
        c_bind (parse_plist E req) (\<lambda>data_obj.
          if data_obj = PNull then Returns (None, s)
          else case string_member data_obj ''uuid'' of
                 None \<Rightarrow> Returns (None, s)
               | Some uuid \<Rightarrow>
                   let s = s\<lparr>playback_uuid := uuid\<rparr> in
                   (case string_member data_obj ''Content-Location'' of
                      None \<Rightarrow> Returns (None, s)
                    | Some l \<Rightarrow> Returns (Some l, s\<lparr>start_pos_in_ms := start_position data_obj\<rparr>)))
      else if same_no_case (content_type req) TEXT_PARAMETERS \<or>
              same_no_case (content_type req) APPLICATION_OCTET_STREAM then
        (case get_play_parameters (string_of (content req)) of
           None \<Rightarrow> Returns (Some [], s)
         | Some (location, start_at) \<Rightarrow> Returns (Some location, s\<lparr>start_pos_in_ms := start_at\<rparr>))
      else Returns (None, s))"

definition post_play_handler :: airplay_handler where
  "post_play_handler E req res st =
     c_bind (play_parameters E req (fst st)) (\<lambda>(location, s).
       case (location, map_find ''X-Apple-Session-ID'' (headers req)) of
         (Some location, Some sid) \<Rightarrow>
           (case request_media_data (casting E) (event_connections s) location sid (store s) of
              (local, new_store, es) \<Rightarrow>
                let s = emit (map Store_event es) (s\<lparr>store := new_store\<rparr>);
                    s = (if local then s else play_event location s)
                in respond (with_status ok res) (s, snd st))
       | _ \<Rightarrow> respond (with_status bad_request res) (s, snd st))"

definition post_scrub_handler :: airplay_handler where
  "post_scrub_handler E req res st =
     respond (with_status ok res)
       (emit (case get_scrub_position (uri req) of
                None \<Rightarrow> []
              | Some pos \<Rightarrow>
                  if casting_handler (fst st)
                  then [Video_scrub (session_id (fst st)) (fp_mul single pos (fp_of_nat single 1000))] else [])
          (fst st), snd st)"

definition post_rate_handler :: airplay_handler where
  "post_rate_handler E req res st =
     respond (with_status ok res)
       (emit (case get_rate_value (uri req) of
                None \<Rightarrow> []
              | Some v \<Rightarrow> if casting_handler (fst st) then [Video_rate (session_id (fst st)) v] else [])
          (fst st), snd st)"

definition post_stop_handler :: airplay_handler where
  "post_stop_handler E req res st =
     (let s = (fst st)\<lparr>store := store_reset (store (fst st))\<rparr>
      in respond (with_status ok res)
           (emit (if casting_handler s then [Video_stop (session_id s)] else []) s, snd st))"

text \<open>An answer of the sender to a request of the media store.\<close>

definition unhandled_url_response :: "airplay_env \<Rightarrow> plist \<Rightarrow> request \<Rightarrow> airplay \<Rightarrow> (bool \<times> airplay) c_run" where
  "unhandled_url_response E data_obj req s =
     (let params_dict = plist_object_dict_get_value data_obj (Some ''params'') in
      case string_member params_dict ''FCUP_Response_URL'' of
        None \<Rightarrow> Returns (False, s)
      | Some fcup_uri \<Rightarrow>
          (case plist_object_data_get_value (plist_object_dict_get_value params_dict (Some ''FCUP_Response_Data''))
                  (Some []) (Some 0) of
             (ret, fcup_data, _) \<Rightarrow>
               if ret \<noteq> 0 then Returns (False, s)
               else
                 c_bind (process_media_data (casting E) (event_connections s) fcup_uri
                           (string_of (the fcup_data)) (store s))
                   (\<lambda>(location, new_store, es).
                   let s = emit (map Store_event es) (s\<lparr>store := new_store\<rparr>) in
                   if location \<noteq> [] \<and> casting_handler s then
                     Returns (True, play_event location
                       (case map_find HEADER_APPLE_SESSION_ID (headers req) of
                          None \<Rightarrow> s | Some sid \<Rightarrow> s\<lparr>apple_session_id := sid\<rparr>))
                   else Returns (True, s))))"

definition post_action_handler :: airplay_handler where
  "post_action_handler E req res st =
     c_bind (parse_plist E req) (\<lambda>data_obj.
       if data_obj = PNull then respond (with_status bad_request res) st
       else case string_member data_obj ''type'' of
              None \<Rightarrow> respond (with_status bad_request res) st
            | Some type \<Rightarrow>
                if same_no_case type ''unhandledURLResponse'' then
                  c_bind (unhandled_url_response E data_obj req (fst st)) (\<lambda>(handled, s).
                    if handled then
                      respond (with_status ok (with_content_string ERROR_STATUS_RESPONSE
                        (with_content_type TEXT_APPLE_PLIST_XML res))) (s, snd st)
                    else respond (with_status bad_request res) (s, snd st))
                else respond (with_status ok res) st)"

section \<open>The state of the playback\<close>

definition fresh_playback_info :: playback_info where
  "fresh_playback_info = \<lparr>pi_uuid = [], pi_stallCount = 0, pi_duration = fp_of_nat double 0,
     pi_position = fp_of_nat single 0, pi_rate = fp_of_nat double 0, pi_readyToPlay = False,
     pi_playbackBufferEmpty = False, pi_playbackBufferFull = False, pi_playbackLikelyToKeepUp = False,
     pi_loadedTimeRanges = [], pi_seekableTimeRanges = []\<rparr>"

definition loaded_range :: "fp \<Rightarrow> (nat \<times> string) list" where
  "loaded_range duration =
     [(1, ''<array>''), (2, ''<dict>''),
      (3, xml_element ''key'' ''duration''), (3, xml_element ''real'' (print_fp duration)),
      (3, xml_element ''key'' ''start''), (3, xml_element ''real'' ''0.0''),
      (2, ''</dict>''), (1, ''</array>'')]"

definition playback_info_text :: "playback_info \<Rightarrow> string" where
  "playback_info_text info = xml_text (xml_prolog @
     [(0, ''<dict>''),
      (1, xml_element ''key'' ''duration''), (1, xml_element ''real'' (print_fp (pi_duration info))),
      (1, xml_element ''key'' ''position''), (1, xml_element ''real'' (print_fp (pi_position info))),
      (1, xml_element ''key'' ''rate''), (1, xml_element ''real'' (print_fp (pi_rate info))),
      (1, xml_element ''key'' ''readyToPlay''),
      (1, xml_element ''integer'' (if pi_readyToPlay info then ''1'' else ''0'')),
      (1, xml_element ''key'' ''playbackBufferEmpty''), (1, xml_element ''integer'' ''1''),
      (1, xml_element ''key'' ''playbackBufferFull''), (1, xml_element ''integer'' ''0''),
      (1, xml_element ''key'' ''playbackLikelyToKeepUp''), (1, xml_element ''integer'' ''1''),
      (1, xml_element ''key'' ''loadedTimeRanges'')] @ loaded_range (pi_duration info) @
     [(1, xml_element ''key'' ''seekableTimeRanges'')] @ loaded_range (pi_duration info) @
     [(0, ''</dict>''), (0, ''</plist>'')])"

definition get_playback_info_handler :: airplay_handler where
  "get_playback_info_handler E req res st =
     (let has = casting_handler (fst st);
          info = (if has then app_playback_info E else fresh_playback_info)
      in respond (with_content_string (playback_info_text info)
             (with_content_type TEXT_APPLE_PLIST_XML (with_status ok res)))
           (emit (if has then [Acquire_playback_info (session_id (fst st))] else []) (fst st), snd st))"

text \<open>The value of the first property is parsed and only logged.\<close>

definition put_setProperty_handler :: airplay_handler where
  "put_setProperty_handler E req res st =
     (let known = with_status ok (with_content_string ERROR_STATUS_RESPONSE (with_content_type TEXT_APPLE_PLIST_XML res)) in
      if contains ''actionAtItemEnd'' (uri req) then c_bind (parse_plist E req) (\<lambda>_. respond known st)
      else if contains ''forwardEndTime'' (uri req) \<or> contains ''reverseEndTime'' (uri req) then respond known st
      else respond (with_status ok res) st)"

definition post_getProperty_handler :: airplay_handler where
  "post_getProperty_handler E req res st = respond (with_status ok res) st"

end
