(* ===== verification/Airplay_Service.thy ===== *)
theory Airplay_Service
  imports Airplay_Mirroring Airplay_Casting
begin

text \<open>
  The service as a whole: the table of routes of \<open>ap_airplay_connection\<close>, the connection a new client
  gets, and a run of requests on it. The handlers act on the same state, whichever protocol they
  come by.
\<close>

definition route :: "string \<Rightarrow> string \<Rightarrow> string \<Rightarrow> 'h \<Rightarrow> 'h request_route" where
  "route scheme verb path h =
     \<lparr>route_scheme = scheme, route_method = verb, route_path = path, route_handler = h\<rparr>"

definition routes_table :: "airplay_env \<Rightarrow> airplay request_handler request_route list" where
  "routes_table E =
     [route ''RTSP'' ''OPTIONS'' '''' (options_handler E),
      route ''RTSP'' ''POST'' ''/pair-setup'' (post_pair_setup_handler E),
      route ''RTSP'' ''POST'' ''/pair-verify'' (post_pair_verify_handler E),
      route ''RTSP'' ''POST'' ''/fp-setup'' (post_fp_setup_handler E),
      route ''RTSP'' ''SETUP'' ''*'' (setup_handler E),
      route ''RTSP'' ''GET'' ''/info'' (get_info_handler E),
      route ''RTSP'' ''POST'' ''/feedback'' (post_feedback_handler E),
      route ''RTSP'' ''RECORD'' ''*'' (record_handler E),
      route ''RTSP'' ''GET_PARAMETER'' ''*'' (get_parameter_handler E),
      route ''RTSP'' ''SET_PARAMETER'' ''*'' (set_parameter_handler E),
      route ''RTSP'' ''TEARDOWN'' ''*'' (teardown_handler E),
      route ''RTSP'' ''FLUSH'' ''*'' (flush_handler E),
      route ''RTSP'' ''POST'' ''/audioMode'' (post_audioMode E),
      route ''HTTP'' ''GET'' ''/server-info'' (get_server_info_handler E),
      route ''HTTP'' ''POST'' ''/fp-setup'' (post_fp_setup_handler E),
      route ''HTTP'' ''POST'' ''/fp-setup2'' (post_fp_setup2_handler E),
      route ''HTTP'' ''POST'' ''/reverse'' (post_reverse_handler E),
      route ''HTTP'' ''POST'' ''/play'' (post_play_handler E),
      route ''HTTP'' ''POST'' ''/scrub'' (post_scrub_handler E),
      route ''HTTP'' ''POST'' ''/rate'' (post_rate_handler E),
      route ''HTTP'' ''POST'' ''/stop'' (post_stop_handler E),
      route ''HTTP'' ''POST'' ''/action'' (post_action_handler E),
      route ''HTTP'' ''GET'' ''/playback-info'' (get_playback_info_handler E),
      route ''HTTP'' ''PUT'' ''/setProperty'' (put_setProperty_handler E),
      route ''HTTP'' ''POST'' ''/getProperty'' (post_getProperty_handler E)]"

definition initialize_request_handlers :: "airplay_env \<Rightarrow> airplay connection \<Rightarrow> airplay connection" where
  "initialize_request_handlers E c = fold register_route (routes_table E) c"

end
