(* ===== verification/Media_Properties.thy ===== *)
theory Media_Properties
  imports Media_Store
begin

text \<open>
  The properties of the media store: the exchange with the sender that collects the playlists, what
  the local player is then served, and where the store throws.
\<close>

lemmas store_defs =
  send_fcup_request_def request_media_data_def store_reset_def add_media_data_def push_all_def

section \<open>The exchange\<close>

text \<open>The sender answers requests for these URIs one after the other.\<close>

fun answers :: "casting_env \<Rightarrow> event_connection_map \<Rightarrow> (string \<Rightarrow> string) \<Rightarrow> string list \<Rightarrow> media_store
    \<Rightarrow> (string list \<times> media_store \<times> store_event list) c_run" where
  "answers E conns reply [] s = Returns ([], s, [])"
| "answers E conns reply (u # us) s =
     c_bind (process_media_data E conns u (reply u) s) (\<lambda>(loc, s, es).
     c_bind (answers E conns reply us s) (\<lambda>(locs, s, es'). Returns (loc # locs, s, es @ es')))"

declare answers.simps [simp del]

lemma extract_path_cong: "store_app_id s = store_app_id s' \<Longrightarrow> extract_uri_path u s = extract_uri_path u s'"
  by (simp add: extract_uri_path_def)

lemma extract_path_update [simp]:
  "extract_uri_path u (s\<lparr>media_data := m\<rparr>) = extract_uri_path u s"
  "extract_uri_path u (s\<lparr>uri_stack := us\<rparr>) = extract_uri_path u s"
  "extract_uri_path u (s\<lparr>request_id := k\<rparr>) = extract_uri_path u s"
  by (rule extract_path_cong, simp)+

text \<open>A secondary resource: what one answer does.\<close>

lemma process_secondary:
  assumes "\<not> is_primary_data_uri u" and "adjust_secondary_media_data E d = Returns d'" and "d' \<noteq> []"
    and "extract_uri_path u s = Returns path" and "path \<noteq> []"
  shows "process_media_data E conns u d s =
    (case uri_stack s of
       [] \<Rightarrow> Returns (primary_uri s, add_media_data path d' s, [])
     | v # rest \<Rightarrow>
         (case send_fcup_request E conns v ((add_media_data path d' s)\<lparr>uri_stack := rest\<rparr>) of
            (s, es) \<Rightarrow> Returns ([], s, es)))"
  using assms by (cases "uri_stack s") (simp_all add: process_media_data_def add_media_data_def Let_def)

definition request_event :: "nat \<Rightarrow> string \<Rightarrow> u32 \<Rightarrow> string list \<Rightarrow> store_event list" where
  "request_event p session_id k us =
     map (\<lambda>(i, u). Event_request p (fcup_request (k + of_nat i) u session_id)) (List.enumerate 0 us)"

lemma request_event_Cons:
  "request_event p sid k (u # us) = Event_request p (fcup_request k u sid) # request_event p sid (k + 1) us"
proof -
  have "List.enumerate (Suc 0) us = map (\<lambda>(i, x). (Suc i, x)) (List.enumerate 0 us)"
    by (rule nth_equalityI) (simp_all add: nth_enumerate_eq)
  then show ?thesis by (simp add: request_event_def comp_def split_beta ac_simps)
qed

lemma request_event_Nil [simp]: "request_event p sid k [] = []"
  by (simp add: request_event_def)

lemma answers_secondary:
  assumes "\<And>v. v \<in> set (u # us) \<Longrightarrow> \<not> is_primary_data_uri v \<and> adjust_secondary_media_data E (reply v) = Returns (dat v) \<and>
      dat v \<noteq> [] \<and> extract_uri_path v s = Returns (path v) \<and> path v \<noteq> []"
    and "connection_get (store_session_id s) conns = Some p" and "alive E p"
    and "uri_stack s = us"
  shows "\<exists>s'. answers E conns reply (u # us) s =
      Returns (replicate (length us) [] @ [primary_uri s], s', request_event p (store_session_id s) (request_id s) us) \<and>
      media_data s' = std.build (map (\<lambda>v. (path v, dat v)) (u # us)) (media_data s)"
  using assms
proof (induction us arbitrary: u s)
  case Nil
  then show ?case
    by (simp add: answers.simps process_secondary add_media_data_def std.build_Cons std.build_Nil)
next
  case (Cons v us)
  let ?s = "(add_media_data (path u) (dat u) s)\<lparr>uri_stack := us, request_id := request_id s + 1\<rparr>"
  have p: "process_media_data E conns u (reply u) s =
      Returns ([], ?s, [Event_request p (fcup_request (request_id s) v (store_session_id s))])"
    using Cons.prems by (simp add: process_secondary send_fcup_request_def add_media_data_def Let_def)
  have "\<exists>s'. answers E conns reply (v # us) ?s =
      Returns (replicate (length us) [] @ [primary_uri ?s], s', request_event p (store_session_id ?s) (request_id ?s) us) \<and>
      media_data s' = std.build (map (\<lambda>v. (path v, dat v)) (v # us)) (media_data ?s)"
    using Cons.prems
    by (intro Cons.IH) (simp_all add: add_media_data_def)
  then show ?case
    by (subst answers.simps) (auto simp: p request_event_Cons add_media_data_def std.build_Cons)
qed

text \<open>The primary playlist: its resources go onto the stack, and the last one is asked for.\<close>

lemma process_primary:
  assumes "is_primary_data_uri u" and "hls_master_init E" and "hls_master E d = (n, media, streams)" and "n \<noteq> 0"
    and "uri_stack s = []" and "rev (list_uris media @ list_uris streams) = v # us"
    and "extract_uri_path u s = Returns path" and "path \<noteq> []" and "adjust_primary_media_data d s \<noteq> []"
    and "connection_get (store_session_id s) conns = Some p" and "alive E p"
  shows "process_media_data E conns u d s =
    Returns ([], (add_media_data path (adjust_primary_media_data d s) s)\<lparr>uri_stack := us, request_id := request_id s + 1\<rparr>,
      [Event_request p (fcup_request (request_id s) v (store_session_id s))])"
proof -
  have "push_all (list_uris streams) (push_all (list_uris media) s) = s\<lparr>uri_stack := v # us\<rparr>"
    using assms(5,6) by (simp add: push_all_def)
  moreover have "adjust_primary_media_data d (s\<lparr>uri_stack := v # us\<rparr>) = adjust_primary_media_data d s"
    by (simp add: adjust_primary_media_data_def adjust_mlhls_data_def adjust_nfhls_data_def split: app_id.splits)
  ultimately show ?thesis
    using assms by (simp add: process_media_data_def send_fcup_request_def add_media_data_def Let_def)
qed

lemma find_build_distinct:
  assumes "distinct (map path us)" and "u \<in> set us"
  shows "map_find (path u) (std.build (map (\<lambda>v. (path v, dat v)) us) m) = Some (dat u)"
proof -
  have "map_of (rev (map (\<lambda>v. (path v, dat v)) us)) (path u) = Some (dat u)"
    using assms by (subst map_of_eq_Some_iff) (simp_all add: rev_map [symmetric] comp_def distinct_map)
  then show ?thesis by (simp add: std.find_build)
qed

section \<open>Properties\<close>

text \<open>C7: When a sender starts a video by a playlist, answers the request for it, and
  then answers the requests for the resources the playlist names, in the order they are made, then each
  resource is requested exactly once, under a request number of its own, the location
  for the player is reported with the last answer and not before, and from then on the local
  service gives out what was sent for each of them.\<close>

theorem media_collection:
  assumes app: "get_app_id l \<noteq> e_app_unknown" and l: "is_primary_data_uri l"
    and parse: "hls_master_init E" "hls_master E (reply l) = (n, media, streams)" "n \<noteq> 0"
    and conn: "connection_get sid conns = Some p" "alive E p"
    and s1: "request_media_data E conns l sid s = (b, s1, es1)"
    and first: "extract_uri_path l s1 = Returns (path l)" "adjust_primary_media_data (reply l) s1 = dat l"
      "path l \<noteq> []" "dat l \<noteq> []"
    and others: "\<And>u. u \<in> set (list_uris media @ list_uris streams) \<Longrightarrow>
      \<not> is_primary_data_uri u \<and> adjust_secondary_media_data E (reply u) = Returns (dat u) \<and> dat u \<noteq> [] \<and>
      extract_uri_path u s1 = Returns (path u) \<and> path u \<noteq> []"
    and us: "us = rev (list_uris media @ list_uris streams)" "us \<noteq> []" and paths: "distinct (map path (l # us))"
  shows "b \<and> es1 = request_event p sid 1 [l] \<and>
    (\<exists>s2. answers E conns reply (l # us) s1 =
       Returns (replicate (length us) [] @ [adjust_primary_uri l s], s2, request_event p sid 2 us) \<and>
     (\<forall>u \<in> set (l # us). \<forall>req res. uri req = path u \<longrightarrow>
        media_get_handler req res (s2, False) =
          Returns (with_content_string (dat u) (with_content_type APPLICATION_MPEGURL (with_status ok res)), s2, False)))"
proof -
  have b: "b" "es1 = request_event p sid 1 [l]"
    and st: "store_session_id s1 = sid" "uri_stack s1 = []" "request_id s1 = 2" "primary_uri s1 = adjust_primary_uri l s"
      "media_data s1 = []"
    using s1 app conn
    by (auto simp: store_defs Let_def request_event_Cons adjust_primary_uri_def)
  obtain v vs where v: "us = v # vs" using us(2) by (cases us) auto
  let ?s = "(add_media_data (path l) (dat l) s1)\<lparr>uri_stack := vs, request_id := request_id s1 + 1\<rparr>"
  have p: "process_media_data E conns l (reply l) s1 =
      Returns ([], ?s, [Event_request p (fcup_request (request_id s1) v (store_session_id s1))])"
    using process_primary [OF l parse st(2) _ first(1) first(3), of v vs conns p] us(1) v conn st(1) first(2,4)
    by simp
  have "\<exists>s'. answers E conns reply (v # vs) ?s =
      Returns (replicate (length vs) [] @ [primary_uri ?s], s', request_event p (store_session_id ?s) (request_id ?s) vs) \<and>
      media_data s' = std.build (map (\<lambda>v. (path v, dat v)) (v # vs)) (media_data ?s)"
    using others us(1) v conn st
    by (intro answers_secondary)
      (auto simp: add_media_data_def simp flip: set_rev [of "list_uris media @ list_uris streams"])
  then obtain s2 where s2: "answers E conns reply us ?s =
      Returns (replicate (length vs) [] @ [primary_uri s1], s2, request_event p sid (request_id s1 + 1) vs)"
    "media_data s2 = std.build (map (\<lambda>v. (path v, dat v)) (l # us)) []"
    using v st by (auto simp: add_media_data_def std.build_Cons)
  have "answers E conns reply (l # us) s1 =
      Returns (replicate (length us) [] @ [adjust_primary_uri l s], s2, request_event p sid 2 us)"
    using s2(1) by (subst answers.simps) (simp add: p st v request_event_Cons)
  moreover have "media_get_handler req res (s2, False) =
      Returns (with_content_string (dat u) (with_content_type APPLICATION_MPEGURL (with_status ok res)), s2, False)"
    if "u \<in> set (l # us)" "uri req = path u" for u req res
  proof -
    have "map_find (path u) (media_data s2) = Some (dat u)"
      unfolding s2(2) using paths that(1) by (rule find_build_distinct)
    moreover have "dat u \<noteq> []" using that(1) first(4) others us(1) by auto
    ultimately show ?thesis using that(2) by (simp add: media_get_handler_def query_media_data_def)
  qed
  ultimately show ?thesis using b by blast
qed

text \<open>A playlist of two resources.\<close>

definition sample_casting_env :: casting_env where
  "sample_casting_env = \<lparr>alive = \<lambda>p. p = 7, hls_master_init = True,
     hls_master = \<lambda>_. (1, [Some ''mlhls://localhost/a'', None], [Some ''mlhls://localhost/b'']),
     dynamic_replace = \<lambda>_ t _. Some t\<rparr>"

definition sample_reply :: "string \<Rightarrow> string" where
  "sample_reply u = (if u = ''mlhls://localhost/master.m3u8'' then ''mlhls://localhost/a'' else ''#EXTINF'')"

definition sample_dat :: "string \<Rightarrow> string" where
  "sample_dat u = (if u = ''mlhls://localhost/master.m3u8'' then ''http://localhost:7100/a'' else ''#EXTINF'')"

definition sample_path :: "string \<Rightarrow> string" where
  "sample_path u = drop 17 u"

definition sample_started :: "bool \<times> media_store \<times> store_event list" where
  "sample_started = request_media_data sample_casting_env [(''s'', 7)] ''mlhls://localhost/master.m3u8'' ''s''
     (set_store_root 7100 (new_media_store 0))"

lemma sample_host: "host (set_store_root 7100 (new_media_store 0)) = ''localhost:7100''"
  by (simp add: set_store_root_def decimal.simps char_of_def bit_0)

lemma sample_started_app: "store_app_id (fst (snd sample_started)) = e_app_youtube"
proof -
  have "get_app_id ''mlhls://localhost/master.m3u8'' = e_app_youtube" by code_simp
  then show ?thesis by (simp add: sample_started_def store_defs Let_def)
qed

lemma sample_started_host: "host (fst (snd sample_started)) = host (set_store_root 7100 (new_media_store 0))"
  by (simp add: sample_started_def store_defs Let_def)

lemma sample_started_path:
  "extract_uri_path u (fst (snd sample_started)) = extract_uri_path u ((new_media_store 0)\<lparr>store_app_id := e_app_youtube\<rparr>)"
  by (rule extract_path_cong) (simp add: sample_started_app)

lemma media_collection_witness:
  "\<exists>s2. answers sample_casting_env [(''s'', 7)] sample_reply
       [''mlhls://localhost/master.m3u8'', ''mlhls://localhost/b'', ''mlhls://localhost/a''] (fst (snd sample_started)) =
     Returns ([[], [], ''http://localhost:7100/master.m3u8''], s2,
       request_event 7 ''s'' 2 [''mlhls://localhost/b'', ''mlhls://localhost/a''])"
proof -
  have uris: "list_uris [Some ''mlhls://localhost/a'', None] @ list_uris [Some ''mlhls://localhost/b''] =
      [''mlhls://localhost/a'', ''mlhls://localhost/b'']"
    by (simp add: list_uris_def)
  have a: "\<not> is_primary_data_uri u \<and> adjust_secondary_media_data sample_casting_env (sample_reply u) = Returns (sample_dat u) \<and>
      sample_dat u \<noteq> [] \<and> extract_uri_path u (fst (snd sample_started)) = Returns (sample_path u) \<and> sample_path u \<noteq> []"
    if "u \<in> set (list_uris [Some ''mlhls://localhost/a'', None] @ list_uris [Some ''mlhls://localhost/b''])" for u
  proof -
    have r: "re_search youtube_pattern (c_str ''#EXTINF'') = None" by code_simp
    from r have sec: "adjust_secondary_media_data sample_casting_env ''#EXTINF'' = Returns ''#EXTINF''"
      by (simp add: adjust_secondary_media_data_def)
    have "u = ''mlhls://localhost/a'' \<or> u = ''mlhls://localhost/b''" using that unfolding uris by simp
    moreover have "\<not> is_primary_data_uri ''mlhls://localhost/a''" by code_simp
    moreover have "\<not> is_primary_data_uri ''mlhls://localhost/b''" by code_simp
    moreover have "extract_uri_path ''mlhls://localhost/a'' (fst (snd sample_started)) = Returns ''/a''"
      unfolding sample_started_path by code_simp
    moreover have "extract_uri_path ''mlhls://localhost/b'' (fst (snd sample_started)) = Returns ''/b''"
      unfolding sample_started_path by code_simp
    ultimately show ?thesis using sec by (auto simp: sample_reply_def sample_dat_def sample_path_def)
  qed
  have P: "adjust_primary_uri ''mlhls://localhost/master.m3u8'' (set_store_root 7100 (new_media_store 0)) =
    ''http://localhost:7100/master.m3u8''"
    unfolding adjust_primary_uri_def sample_host by code_simp
  have h1: "get_app_id ''mlhls://localhost/master.m3u8'' \<noteq> e_app_unknown" by code_simp
  have h2: "is_primary_data_uri ''mlhls://localhost/master.m3u8''" by code_simp
  have h3: "hls_master_init sample_casting_env" by (simp add: sample_casting_env_def)
  have h4: "hls_master sample_casting_env (sample_reply ''mlhls://localhost/master.m3u8'') = (1, [Some ''mlhls://localhost/a'', None], [Some ''mlhls://localhost/b''])"
    by (simp add: sample_casting_env_def)
  have h6: "connection_get ''s'' [(''s'', 7)] = Some 7" by (simp add: connection_get_def)
  have h7: "alive sample_casting_env 7" by (simp add: sample_casting_env_def)
  have h8: "request_media_data sample_casting_env [(''s'', 7)] ''mlhls://localhost/master.m3u8'' ''s'' (set_store_root 7100 (new_media_store 0)) =
      (fst sample_started, fst (snd sample_started), snd (snd sample_started))"
    by (simp add: sample_started_def)
  have h9: "extract_uri_path ''mlhls://localhost/master.m3u8'' (fst (snd sample_started)) = Returns (sample_path ''mlhls://localhost/master.m3u8'')"
    unfolding sample_started_path by code_simp
  have "adjust_mlhls_data (sample_reply ''mlhls://localhost/master.m3u8'') (set_store_root 7100 (new_media_store 0)) = sample_dat ''mlhls://localhost/master.m3u8''"
    unfolding adjust_mlhls_data_def sample_host by code_simp
  then have h10: "adjust_primary_media_data (sample_reply ''mlhls://localhost/master.m3u8'') (fst (snd sample_started)) = sample_dat ''mlhls://localhost/master.m3u8''"
    by (simp add: adjust_primary_media_data_def sample_started_app adjust_mlhls_data_def sample_started_host)
  have h11: "sample_path ''mlhls://localhost/master.m3u8'' \<noteq> []" "sample_dat ''mlhls://localhost/master.m3u8'' \<noteq> []"
    by (simp_all add: sample_path_def sample_dat_def)
  have h13: "[''mlhls://localhost/b'', ''mlhls://localhost/a''] = rev (list_uris [Some ''mlhls://localhost/a'', None] @ list_uris [Some ''mlhls://localhost/b''])" by (simp only: uris) simp
  have h15: "distinct (map sample_path (''mlhls://localhost/master.m3u8'' # [''mlhls://localhost/b'', ''mlhls://localhost/a'']))" by code_simp
  show ?thesis
    using media_collection [OF h1 h2 h3 h4 one_neq_zero h6 h7 h8 h9 h10 h11 a h13 list.distinct(2) h15]
    by (simp only: P) (auto simp: numeral_2_eq_2)
qed

end
