(* ===== verification/Airplay_Pairing.thy ===== *)
theory Airplay_Pairing
  imports Airplay_Service Media_Properties Video_Properties
begin

text \<open>
  Pairing as a conversation: what an honest sender computes, that it and the receiver accept each
  other, what happens when they do not, and which requests are too short for the handler.
\<close>

section \<open>The sender's side\<close>

text \<open>What is documented of the two signature and key-agreement schemes.\<close>

definition pairing_lib :: "crypto_lib \<Rightarrow> bool" where
  "pairing_lib L \<longleftrightarrow>
     (\<forall>a b. curve25519_donna L a (Some (curve25519_donna L b None)) =
        curve25519_donna L b (Some (curve25519_donna L a None))) \<and>
     (\<forall>seed m. ed25519_verify L (ed25519_sign L m (fst (ed25519_create_keypair L seed))
        (snd (ed25519_create_keypair L seed))) m (fst (ed25519_create_keypair L seed)))"

text \<open>The key stream the sender derives from its own secret and the receiver's public key.\<close>

definition sender_stream :: "crypto_lib \<Rightarrow> u8 list \<Rightarrow> u8 list \<Rightarrow> ap_aes_ctr128" where
  "sender_stream L secret receiver_key =
     (let shared = curve25519_donna L secret (Some receiver_key)
      in ctr_start (derive16 L ''Pair-Verify-AES-Key'' shared) (derive16 L ''Pair-Verify-AES-IV'' shared))"

definition first_frame :: "u8 list \<Rightarrow> u8 list \<Rightarrow> u8 list" where
  "first_frame curve_key ed_key = [1, 0, 0, 0] @ curve_key @ ed_key"

definition second_frame :: "u8 list \<Rightarrow> u8 list" where
  "second_frame encrypted_signature = [0, 0, 0, 0] @ encrypted_signature"

section \<open>The two frames\<close>

lemma init_client_keys_frame:
  assumes "length k = 32" "length e = 32"
  shows "init_client_public_keys (Some (k @ e @ r)) 32 (Some (e @ r)) 32 c =
    Returns (c\<lparr>client_curve_public_key := k, client_ed_public_key := e\<rparr>)"
  using init_client_public_keys_ok(1) [OF assms, of "e @ r" r c] by simp

lemma first_frame_run:
  assumes L: "crypto_lib_ok (lib E)" and c: "crypto_ok (crypto (fst st))"
    and k: "length k = 32" "length e = 32" and req: "content req = first_frame k e"
  defines "c1 \<equiv> (crypto (fst st))\<lparr>client_curve_public_key := k, client_ed_public_key := e\<rparr>"
  defines "sig \<equiv> ed25519_sign (lib E) (curve_public_key (server c1) @ k) (ed_public_key (server c1)) (ed_private_key (server c1))"
  defines "enc \<equiv> ctr_xcrypt_buffer (AES_encrypt (lib E)) sig (pair_stream (lib E) c1)"
  shows "post_pair_verify_handler E req res st =
    respond (with_content (curve_public_key (server c1) @ fst enc)
        (with_content_type APPLICATION_OCTET_STREAM (with_status ok res)))
      ((fst st)\<lparr>crypto := c1\<lparr>shared_secret := session_secret (lib E) c1, pair_verify_aes_ctr := snd enc,
         pair_verifyed := True\<rparr>\<rparr>, snd st)"
proof -
  have c1: "crypto_ok c1" using c k by (simp add: crypto_ok_def c1_def)
  let ?c2 = "c1\<lparr>shared_secret := session_secret (lib E) c1, pair_verify_aes_ctr := pair_stream (lib E) c1, pair_verifyed := True\<rparr>"
  have init: "init_client_public_keys (Some (drop 4 (content req))) 32 (Some (drop 36 (content req))) 32 (crypto (fst st)) = Returns c1"
    using init_client_keys_frame [OF k, of "[]"] k by (simp add: req first_frame_def c1_def)
  have c2: "crypto_ok ?c2" using c1 L by (simp add: crypto_ok_def session_secret_def)
  have k1: "client_curve_public_key c1 = k" by (simp add: c1_def)
  have "sign_pair_signature (lib E) ?c2 =
      Returns (fst enc, c1\<lparr>shared_secret := session_secret (lib E) c1, pair_verify_aes_ctr := snd enc, pair_verifyed := True\<rparr>)"
    unfolding sign_pair_signature_ok [OF c2] by (simp add: split_beta enc_def sig_def k1 Let_def)
  moreover have "c_nth (content req) 0 = Returns 1"
    by (simp add: req first_frame_def c_nth_def)
  ultimately show ?thesis
    using init init_pair_verify_aes_ok [OF L c1] by (simp add: post_pair_verify_handler_def)
qed

lemma second_frame_run:
  fixes st :: "airplay \<times> bool" and E :: airplay_env
  assumes "length s = 64" and req: "content req = second_frame s"
  defines "c \<equiv> crypto (fst st)"
  defines "dec \<equiv> ctr_xcrypt_buffer (AES_encrypt (lib E)) s (pair_verify_aes_ctr c)"
  shows "post_pair_verify_handler E req res st =
    respond (with_status (if ed25519_verify (lib E) (fst dec)
        (client_curve_public_key c @ curve_public_key (server c)) (client_ed_public_key c) then ok else bad_request) res)
      ((fst st)\<lparr>crypto := c\<lparr>pair_verify_aes_ctr := snd dec\<rparr>\<rparr>, snd st)"
proof -
  have "c_nth (content req) 0 = Returns 0" by (simp add: req second_frame_def c_nth_def)
  moreover have "drop 4 (content req) = s @ []" by (simp add: req second_frame_def)
  ultimately show ?thesis
    using verify_pair_signature_ok [OF assms(1), of "lib E" "[]" c]
    by (simp add: post_pair_verify_handler_def split_beta dec_def c_def)
qed

section \<open>Properties\<close>

text \<open>C4: A sender that pairs honestly is accepted, and can check the receiver: the answer to its first
  frame is the receiver's key and a signature that the sender decrypts with the key stream it
  derives itself and that is the receiver's over both keys, and its second frame, its own
  signature encrypted with the rest of that key stream, is answered with 200.\<close>

theorem airplay_pair_verify:
  assumes L: "crypto_lib_ok (lib E)" and P: "pairing_lib (lib E)" and c: "crypto_ok (crypto (fst st))"
    and keys: "server (crypto (fst st)) = new_server_key_chain (lib E) b ed_seed"
    and cpub: "cpub = curve25519_donna (lib E) a None" and ed: "(epub, epriv) = ed25519_create_keypair (lib E) seed"
    and spub: "spub = curve_public_key (server (crypto (fst st)))"
    and req1: "content req1 = first_frame cpub epub"
  shows "\<exists>res1' st1 enc sig ctr.
    post_pair_verify_handler E req1 res1 st = Returns (res1', st1) \<and> status_code res1' = ok \<and>
    content res1' = spub @ enc \<and>
    ctr_xcrypt_buffer (AES_encrypt (lib E)) enc (sender_stream (lib E) a spub) = (sig, ctr) \<and>
    ed25519_verify (lib E) sig (spub @ cpub) (ed_public_key (server (crypto (fst st)))) \<and>
    (\<forall>req2 res2. content req2 = second_frame (fst (ctr_xcrypt_buffer (AES_encrypt (lib E))
        (ed25519_sign (lib E) (cpub @ spub) epub epriv) ctr)) \<longrightarrow>
      (\<exists>st2. post_pair_verify_handler E req2 res2 st1 = Returns (with_status ok res2, st2) \<and>
        pair_verifyed (crypto (fst st2))))"
proof -
  let ?L = "lib E"
  let ?c0 = "crypto (fst st)"
  have len: "length cpub = 32" "length epub = 32"
    using L cpub ed by simp (metis L crypto_sizes(8) ed fst_conv)
  define c1 where "c1 = ?c0\<lparr>client_curve_public_key := cpub, client_ed_public_key := epub\<rparr>"
  define sig where "sig = ed25519_sign ?L (spub @ cpub) (ed_public_key (server ?c0)) (ed_private_key (server ?c0))"
  define enc where "enc = ctr_xcrypt_buffer (AES_encrypt ?L) sig (pair_stream ?L c1)"
  define c2 where "c2 = c1\<lparr>shared_secret := session_secret ?L c1, pair_verify_aes_ctr := snd enc, pair_verifyed := True\<rparr>"
  have sk: "spub = curve25519_donna ?L b None" "curve_private_key (server ?c0) = b"
    "(ed_public_key (server ?c0), ed_private_key (server ?c0)) = ed25519_create_keypair ?L ed_seed"
    by (simp_all add: spub keys new_server_key_chain_def split_beta)
  have "session_secret ?L c1 = curve25519_donna ?L a (Some spub)"
    using P sk(1,2) cpub by (simp add: session_secret_def c1_def pairing_lib_def)
  then have stream: "pair_stream ?L c1 = sender_stream ?L a spub"
    by (simp add: pair_stream_def sender_stream_def Let_def)
  have one: "post_pair_verify_handler E req1 res1 st =
      Returns (with_content (spub @ fst enc) (with_content_type APPLICATION_OCTET_STREAM (with_status ok res1)),
        (fst st)\<lparr>crypto := c2\<rparr>, snd st)"
    unfolding first_frame_run [OF L c len req1] by (simp add: respond_def c1_def c2_def enc_def sig_def spub)
  have dec: "ctr_xcrypt_buffer (AES_encrypt ?L) (fst enc) (sender_stream ?L a spub) = (sig, snd enc)"
    unfolding enc_def stream by (rule ctr_xcrypt_twice)
  have good: "ed25519_verify ?L sig (spub @ cpub) (ed_public_key (server ?c0))"
    using P sk(3) unfolding sig_def pairing_lib_def by (metis fst_conv snd_conv)
  have two: "\<exists>st2. post_pair_verify_handler E req2 res2 ((fst st)\<lparr>crypto := c2\<rparr>, snd st) =
      Returns (with_status ok res2, st2) \<and> pair_verifyed (crypto (fst st2))"
    if req2: "content req2 = second_frame (fst (ctr_xcrypt_buffer (AES_encrypt ?L)
        (ed25519_sign ?L (cpub @ spub) epub epriv) (snd enc)))" for req2 res2
  proof -
    have "length (fst (ctr_xcrypt_buffer (AES_encrypt ?L) (ed25519_sign ?L (cpub @ spub) epub epriv) (snd enc))) = 64"
      using L by (simp add: ctr_xcrypt_buffer_def ctr_length split_beta)
    from second_frame_run [OF this req2, of E res2 "((fst st)\<lparr>crypto := c2\<rparr>, snd st)"]
    have "post_pair_verify_handler E req2 res2 ((fst st)\<lparr>crypto := c2\<rparr>, snd st) =
        respond (with_status (if ed25519_verify ?L (ed25519_sign ?L (cpub @ spub) epub epriv) (cpub @ spub) epub
          then ok else bad_request) res2)
         ((fst st)\<lparr>crypto := c2\<lparr>pair_verify_aes_ctr := snd (ctr_xcrypt_buffer (AES_encrypt ?L)
            (ed25519_sign ?L (cpub @ spub) epub epriv) (snd enc))\<rparr>\<rparr>, snd st)"
      by (simp add: c2_def c1_def ctr_xcrypt_twice spub)
    moreover have "ed25519_verify ?L (ed25519_sign ?L (cpub @ spub) epub epriv) (cpub @ spub) epub"
      using P ed unfolding pairing_lib_def by (metis fst_conv snd_conv)
    ultimately show ?thesis by (simp add: respond_def c2_def)
  qed
  show ?thesis
    using one dec good two
    by (intro exI conjI) (auto simp: builder_defs)
qed

definition sample_env :: airplay_env where
  "sample_env = \<lparr>lib = identity_lib, plist_alloc = \<lambda>_. True, plist_fuel = 8,
     casting = sample_casting_env, config = default_instance 0, has_app = True,
     on_session_begin = \<lambda>t. [if t = mirroring_session then Set_mirroring_handler True else Set_casting_handler True],
     app_playback_info = fresh_playback_info, self_connection = 7, service_port = Some 7000,
     video_service_port = 7001, audio_data_port = 6000, audio_control_port = 6001, timing_service_port = 6002,
     peer_address = Some ''192.0.2.1'', clock = (0, 0), airtunes_version = ''220.68'', date = ''''\<rparr>"

definition sample_connection :: "airplay \<times> bool" where
  "sample_connection = (new_airplay_connection 1 1 (new_server_key_chain identity_lib (replicate 32 12) []) (new_media_store 0) [], False)"

lemma sample_connection_ok:
  "crypto_ok (crypto (fst sample_connection))"
  "server (crypto (fst sample_connection)) = new_server_key_chain identity_lib (replicate 32 12) []"
  using new_ap_crypto_ok [OF new_server_key_chain_ok [OF identity_lib_ok, of "replicate 32 12" "[]"]]
  by (simp_all add: sample_connection_def new_airplay_connection_def new_ap_crypto_def)

lemma identity_pairing: "pairing_lib identity_lib"
  by (simp add: pairing_lib_def identity_lib_def)

definition body_request :: "u8 list \<Rightarrow> request" where
  "body_request bytes = with_content bytes (new_request ''RTSP/1.0'' ''POST'' ''/'')"

lemma content_body_request [simp]: "content (body_request bytes) = bytes"
  by (simp add: body_request_def builder_defs)

lemma airplay_pair_verify_witness:
  "\<exists>res' st'. post_pair_verify_handler sample_env (body_request (first_frame (replicate 32 2) (replicate 32 3)))
      (new_response ''RTSP/1.0'') sample_connection = Returns (res', st') \<and> status_code res' = ok"
proof -
  have e: "lib sample_env = identity_lib" by (simp add: sample_env_def)
  have h: "crypto_lib_ok (lib sample_env)" "pairing_lib (lib sample_env)"
    using identity_lib_ok identity_pairing by (simp_all add: e)
  have k: "server (crypto (fst sample_connection)) = new_server_key_chain (lib sample_env) (replicate 32 12) []"
    using sample_connection_ok(2) by (simp add: e)
  have p: "replicate 32 2 = curve25519_donna (lib sample_env) [] None"
    "(replicate 32 3, replicate 64 4) = ed25519_create_keypair (lib sample_env) []"
    by (simp_all add: e identity_lib_def)
  show ?thesis
    using airplay_pair_verify [OF h sample_connection_ok(1) k p refl content_body_request] by blast
qed

text \<open>C17: The handler looks at no size: it reads within the content exactly when the frame is complete, which
  takes 68 bytes for either kind; any shorter content, also none, is read past its end.\<close>

theorem pair_verify_size:
  assumes "crypto_lib_ok (lib E)" and "crypto_ok (crypto (fst st))"
  shows "(\<exists>res' st'. post_pair_verify_handler E req res st = Returns (res', st')) \<longleftrightarrow> 68 \<le> length (content req)"
    (is "?runs \<longleftrightarrow> _")
proof (cases "content req")
  case Nil
  then show ?thesis by (simp add: post_pair_verify_handler_def c_nth_def)
next
  case (Cons h data)
  then have h: "c_nth (content req) 0 = Returns h" by (simp add: c_nth_def)
  show ?thesis
  proof (cases "h = 0")
    case True
    have "64 \<le> length (content req) - 4 \<longleftrightarrow> 68 \<le> length (content req)" by arith
    then show ?thesis
      by (simp add: post_pair_verify_handler_def h True verify_pair_signature_def read_ptr_def c_load_def
          respond_def split_beta Let_def)
  next
    case False
    have keys: "init_client_public_keys (Some (drop 4 (content req))) 32 (Some (drop 36 (content req))) 32 c =
        (if 68 \<le> length (content req) then Returns (c\<lparr>client_curve_public_key := take 32 (drop 4 (content req)),
           client_ed_public_key := take 32 (drop 36 (content req))\<rparr>)
         else Undefined (Out_of_bounds 0 32))" for c
      by (simp add: init_client_public_keys_def read_ptr_def c_load_def slice_def) arith
    show ?thesis
    proof (cases "68 \<le> length (content req)")
      case True
      define c where "c = (crypto (fst st))\<lparr>client_curve_public_key := take 32 (drop 4 (content req)),
        client_ed_public_key := take 32 (drop 36 (content req))\<rparr>"
      have c: "crypto_ok c" using assms(2) True by (simp add: crypto_ok_def c_def)
      let ?c2 = "c\<lparr>shared_secret := session_secret (lib E) c, pair_verify_aes_ctr := pair_stream (lib E) c, pair_verifyed := True\<rparr>"
      have "crypto_ok ?c2" using c assms(1) by (simp add: crypto_ok_def session_secret_def)
      then obtain sig c' where "sign_pair_signature (lib E) ?c2 = Returns (sig, c')"
        using sign_pair_signature_ok by (simp add: split_beta Let_def)
      then have ?runs
        using True False h keys [of "crypto (fst st)"] init_pair_verify_aes_ok [OF assms(1) c]
        by (simp add: post_pair_verify_handler_def respond_def flip: c_def)
      then show ?thesis using True by simp
    next
      case short: False
      then show ?thesis
        using False h by (simp add: post_pair_verify_handler_def keys)
    qed
  qed
qed

lemma pair_verify_size_witness:
  "(\<exists>res' st'. post_pair_verify_handler sample_env (body_request (second_frame (replicate 64 5)))
      (new_response ''RTSP/1.0'') sample_connection = Returns (res', st')) \<and>
   \<not> (\<exists>res' st'. post_pair_verify_handler sample_env (body_request [1, 0, 0, 0])
      (new_response ''RTSP/1.0'') sample_connection = Returns (res', st'))"
proof -
  have L: "crypto_lib_ok (lib sample_env)" using identity_lib_ok by (simp add: sample_env_def)
  show ?thesis
    unfolding pair_verify_size [OF L sample_connection_ok(1)]
    by (simp add: second_frame_def)
qed

text \<open>C16: The sender is taken for verified as soon as its first frame has arrived: the flag that enters
  the session key is set before any signature is seen, and a second frame with a wrong
  signature is answered with 400 but takes nothing back, so that the next set-up proceeds as after a
  pairing that succeeded.\<close>

theorem pair_verify_not_revoked:
  assumes L: "crypto_lib_ok (lib E)" and c: "crypto_ok (crypto (fst st))"
    and k: "length k = 32" "length e = 32" and req1: "content req1 = first_frame k e"
    and run1: "post_pair_verify_handler E req1 res1 st = Returns (res1', st1)"
    and s: "length s = 64" and req2: "content req2 = second_frame s"
    and bad: "\<not> ed25519_verify (lib E) (fst (ctr_xcrypt_buffer (AES_encrypt (lib E)) s (pair_verify_aes_ctr (crypto (fst st1)))))
      (k @ curve_public_key (server (crypto (fst st)))) e"
  shows "pair_verifyed (crypto (fst st1)) \<and>
    (\<exists>st2. post_pair_verify_handler E req2 res2 st1 = Returns (with_status bad_request res2, st2) \<and>
       pair_verifyed (crypto (fst st2)) \<and> shared_secret (crypto (fst st2)) = shared_secret (crypto (fst st1)))"
proof -
  have st1: "pair_verifyed (crypto (fst st1))" "client_curve_public_key (crypto (fst st1)) = k"
    "client_ed_public_key (crypto (fst st1)) = e" "server (crypto (fst st1)) = server (crypto (fst st))"
    using run1 first_frame_run [OF L c k req1] by (auto simp: respond_def)
  then show ?thesis
    using second_frame_run [OF s req2, of E res2 st1] bad by (simp add: respond_def)
qed

lemma pair_verify_not_revoked_witness:
  "\<exists>res1' st1 res2' st2. post_pair_verify_handler (sample_env\<lparr>lib := identity_lib\<lparr>ed25519_verify := \<lambda>g m p. False\<rparr>\<rparr>)
      (body_request (first_frame (replicate 32 2) (replicate 32 3))) (new_response ''RTSP/1.0'') sample_connection =
      Returns (res1', st1) \<and>
    post_pair_verify_handler (sample_env\<lparr>lib := identity_lib\<lparr>ed25519_verify := \<lambda>g m p. False\<rparr>\<rparr>)
      (body_request (second_frame (replicate 64 0))) (new_response ''RTSP/1.0'') st1 = Returns (res2', st2) \<and>
    pair_verifyed (crypto (fst st2))"
proof -
  let ?E = "sample_env\<lparr>lib := identity_lib\<lparr>ed25519_verify := \<lambda>g m p. False\<rparr>\<rparr>"
  have L: "crypto_lib_ok (lib ?E)" using identity_lib_ok unfolding crypto_lib_ok_def by simp
  have k: "length (replicate 32 2 :: u8 list) = 32" "length (replicate 32 3 :: u8 list) = 32" by simp_all
  obtain res1' st1 where run1: "post_pair_verify_handler ?E (body_request (first_frame (replicate 32 2) (replicate 32 3)))
      (new_response ''RTSP/1.0'') sample_connection = Returns (res1', st1)"
    using first_frame_run [OF L sample_connection_ok(1) k content_body_request, of "new_response ''RTSP/1.0''"]
    by (simp add: respond_def)
  have s: "length (replicate 64 0 :: u8 list) = 64" by simp
  have bad: "\<not> ed25519_verify (lib ?E) x y z" for x y z by simp
  show ?thesis
    using pair_verify_not_revoked [OF L sample_connection_ok(1) k content_body_request run1 s content_body_request bad,
        of "new_response ''RTSP/1.0''"] run1
    by blast
qed

end
