(* ===== verification/Request_Service.thy ===== *)
theory Request_Service
  imports Xtxp_Connection
begin

text \<open>
  What the services built on \<open>xtxp_connection_base\<close> have in common: a table of routes, and a state
  that only its handlers change. The locale states the contract of such a service, that every
  handler keeps an invariant of the state; every request then keeps it, however it is routed, and
  so does every sequence of requests and the connection that processes them.
\<close>

text \<open>
  The states a service gets into by handling requests one after the other. \<open>'e\<close> is what the
  service is given from outside, which may change from request to request within what
  \<open>admissible\<close> allows.
\<close>

inductive served :: "('e \<Rightarrow> 's request_handler request_route list) \<Rightarrow> ('e \<Rightarrow> bool) \<Rightarrow> 's \<times> bool \<Rightarrow> 's \<times> bool \<Rightarrow> bool"
  for routes :: "'e \<Rightarrow> 's request_handler request_route list" and admissible :: "'e \<Rightarrow> bool" and st :: "'s \<times> bool" where
  served_start: "served routes admissible st st"
| served_request: "served routes admissible st st' \<Longrightarrow> admissible e \<Longrightarrow>
    query_handler (register_all (routes e) []) req BAD_VALUE = (Some h, ec) \<Longrightarrow>
    h req res st' = Returns (res', st'') \<Longrightarrow> served routes admissible st st''"

lemma last_route_in: "last_route routes s m p = Some h \<Longrightarrow> \<exists>r \<in> set routes. route_handler r = h"
  unfolding last_route_def by (drule map_of_SomeD) auto

text \<open>Only registered handlers are ever found.\<close>

lemma query_handler_registered:
  assumes "query_handler (register_all routes []) req ec = (Some h, ec')"
  shows "\<exists>r \<in> set routes. route_handler r = h"
proof -
  have "route_at (register_all routes []) s m p = Some h' \<Longrightarrow> \<exists>r \<in> set routes. route_handler r = h'" for s m p h'
    by (rule last_route_in) (auto simp: route_at_register_all split: option.splits)
  then show ?thesis
    using assms unfolding query_handler_flat Let_def by (auto split: option.splits)
qed

locale handler_contract =
  fixes routes :: "'e \<Rightarrow> 's request_handler request_route list" and admissible :: "'e \<Rightarrow> bool"
    and inv :: "'s \<Rightarrow> bool"
  assumes handler_keeps: "admissible e \<Longrightarrow> r \<in> set (routes e) \<Longrightarrow> inv s \<Longrightarrow>
    route_handler r req res (s, rvd) = Returns (res', s', rvd') \<Longrightarrow> inv s'"
begin

lemma request_keeps:
  assumes "admissible e" and "query_handler (register_all (routes e) []) req BAD_VALUE = (Some h, ec)"
    and "h req res st = Returns (res', st')" and "inv (fst st)"
  shows "inv (fst st')"
proof -
  obtain r where r: "r \<in> set (routes e)" "route_handler r = h"
    using query_handler_registered [OF assms(2)] by blast
  show ?thesis
    by (rule handler_keeps [of e r "fst st" req res "snd st" res' _ "snd st'"]) (use assms r in auto)
qed

lemma served_keeps: "served routes admissible st st' \<Longrightarrow> inv (fst st) \<Longrightarrow> inv (fst st')"
  by (induction rule: served.induct) (auto intro: request_keeps)

text \<open>A connection with these routes keeps the invariant of its session.\<close>

lemma process_request_keeps:
  assumes "admissible e" and "route_table c = register_all (routes e) []"
    and "process_request common c = Returns (c', as)" and "inv (session c)"
  shows "inv (session c') \<and> route_table c' = route_table c"
proof (cases "query_handler (route_table c) (conn_request c) BAD_VALUE")
  case (Pair found ec)
  then show ?thesis
  proof (cases found)
    case None
    then show ?thesis
      using assms Pair by (auto simp: process_request_def post_send_response_def Let_def split: if_splits)
  next
    case (Some h)
    then obtain res s rvd where run: "h (conn_request c) (new_response (scheme_version (conn_request c)))
        (session c, is_reversed c) = Returns (res, s, rvd)" "c' = c\<lparr>session := s, is_reversed := rvd\<rparr>"
      using assms(3) Pair by (auto simp: process_request_def post_send_response_def Let_def)
    have "inv (fst (s, rvd))"
      by (rule request_keeps [where h = h and ec = ec and req = "conn_request c", OF assms(1) _ run(1)])
        (use assms(2,4) Pair Some in simp_all)
    then show ?thesis using run(2) by simp
  qed
qed

lemma process_message_keeps:
  assumes "admissible e" and "route_table c = register_all (routes e) []"
    and "process_message common c = Returns (c', as)" and "inv (session c)"
  shows "inv (session c') \<and> route_table c' = route_table c"
proof (cases "is_reversed c")
  case True
  then show ?thesis
    using assms by (auto simp: process_message_def process_response_def post_receive_message_head_def)
next
  case False
  then obtain as' where "process_request common c = Returns (c', as')"
    using assms(3) by (auto simp: process_message_def post_receive_message_head_def)
  then show ?thesis using process_request_keeps [OF assms(1,2) _ assms(4)] by blast
qed

lemma parse_head_session: "session (snd (parse_head d c)) = session c \<and> route_table (snd (parse_head d c)) = route_table c"
  by (simp add: parse_head_def split: prod.splits)

lemma set_content_session: "session (set_content bs c) = session c \<and> route_table (set_content bs c) = route_table c"
  by (simp add: set_content_def)

text \<open>So do the completion handlers of the reads, whatever was received.\<close>

lemma content_received_keeps:
  assumes "admissible e" and "route_table c = register_all (routes e) []"
    and "on_message_content_received common err c = Returns (c', as)" and "inv (session c)"
  shows "inv (session c') \<and> route_table c' = route_table c"
proof (cases err)
  case None
  let ?c = "(set_content (bytes_of (in_stream c)) c)\<lparr>in_stream := []\<rparr>"
  have "process_message common ?c = Returns (c', as)"
    using assms(3) None by (simp add: on_message_content_received_def)
  from process_message_keeps [OF assms(1) _ this] show ?thesis
    using assms(2,4) set_content_session [of "bytes_of (in_stream c)" c] by simp
next
  case (Some x)
  then show ?thesis
    using assms by (auto simp: on_message_content_received_def handle_socket_error_def split: socket_error.splits)
qed

end

section \<open>The tables that are registered\<close>

lemma register_route_table:
  "fold register_route rs c = c\<lparr>route_table := register_all rs (route_table c)\<rparr>"
  by (induction rs arbitrary: c) (simp_all add: register_route_def register_all_def)

end
