(* ===== verification/Airplay_Invariant.thy ===== *)
theory Airplay_Invariant
  imports Airplay_Service Media_Properties Request_Service
begin

text \<open>
  What holds of a connection of the AirPlay service whatever requests it has handled: the
  application hears of a session before anything happens in it, the stream services that were
  started and not stopped are the ones the connection holds, and the session ends with the connection.
\<close>

fun begins :: "airplay_event \<Rightarrow> bool" where
  "begins (Session_begin _) = True"
| "begins _ = False"

fun ends :: "airplay_event \<Rightarrow> bool" where
  "ends (Session_end _) = True"
| "ends _ = False"

text \<open>The callbacks of the two session handlers.\<close>

definition session_callback :: "airplay_event \<Rightarrow> bool" where
  "session_callback e =
     (case e of
        Session_begin _ \<Rightarrow> False | Session_end _ \<Rightarrow> False | Store_event _ \<Rightarrow> False | Timing_event _ \<Rightarrow> False
      | Video_service_started \<Rightarrow> False | Video_service_stopped \<Rightarrow> False
      | Audio_service_started \<Rightarrow> False | Audio_service_stopped \<Rightarrow> False
      | Timing_opened \<Rightarrow> False | Timing_closed \<Rightarrow> False | Connection_stopped \<Rightarrow> False
      | _ \<Rightarrow> True)"

definition service_event :: "airplay_event \<Rightarrow> bool" where
  "service_event e \<longleftrightarrow> e \<in> {Video_service_started, Video_service_stopped, Audio_service_started, Audio_service_stopped}"

definition has_handler :: "airplay \<Rightarrow> bool" where
  "has_handler s \<longleftrightarrow> mirroring_handler s \<or> casting_handler s"

text \<open>How many services are running by the record of events.\<close>

definition video_running :: "airplay_event list \<Rightarrow> int" where
  "video_running es = int (count_list es Video_service_started) - int (count_list es Video_service_stopped)"

definition audio_running :: "airplay_event list \<Rightarrow> int" where
  "audio_running es = int (count_list es Audio_service_started) - int (count_list es Audio_service_stopped)"

definition session_inv :: "bool \<Rightarrow> airplay \<Rightarrow> bool" where
  "session_inv app s \<longleftrightarrow>
     list_all (\<lambda>e. \<not> session_callback e) (takeWhile (\<lambda>e. \<not> begins e) (events s)) \<and>
     list_all (\<lambda>e. \<not> ends e) (events s) \<and>
     (list_ex begins (events s) \<longleftrightarrow> session_type s \<noteq> unknown_session \<and> app) \<and>
     (has_handler s \<longrightarrow> list_ex begins (events s)) \<and>
     video_running (events s) = (if video_service s = None then 0 else 1) \<and>
     audio_running (events s) = (if audio_service s = None then 0 else 1)"

named_theorems session_intros \<open>what keeps the session invariant\<close>

section \<open>Steps that keep it\<close>

lemma session_inv_fields [simp]:
  "session_inv app (s\<lparr>crypto := c\<rparr>) = session_inv app s"
  "session_inv app (s\<lparr>timing := t\<rparr>) = session_inv app s"
  "session_inv app (s\<lparr>start_pos_in_ms := p\<rparr>) = session_inv app s"
  "session_inv app (s\<lparr>playback_uuid := u\<rparr>) = session_inv app s"
  "session_inv app (s\<lparr>apple_session_id := u\<rparr>) = session_inv app s"
  "session_inv app (s\<lparr>store := m\<rparr>) = session_inv app s"
  "session_inv app (s\<lparr>event_connections := m'\<rparr>) = session_inv app s"
  by (simp_all add: session_inv_def has_handler_def)

lemma has_handler_fields [simp]:
  "has_handler (s\<lparr>crypto := c\<rparr>) = has_handler s" "has_handler (s\<lparr>timing := t\<rparr>) = has_handler s"
  "has_handler (s\<lparr>store := m\<rparr>) = has_handler s" "has_handler (s\<lparr>apple_session_id := u\<rparr>) = has_handler s"
  "has_handler (s\<lparr>start_pos_in_ms := p\<rparr>) = has_handler s" "has_handler (s\<lparr>video_service := v\<rparr>) = has_handler s"
  "has_handler (s\<lparr>audio_service := a\<rparr>) = has_handler s" "has_handler (emit es s) = has_handler s"
  by (simp_all add: has_handler_def emit_def)

lemma has_handlerI [simp]: "mirroring_handler s \<Longrightarrow> has_handler s" "casting_handler s \<Longrightarrow> has_handler s"
  by (simp_all add: has_handler_def)

lemma emit_Nil [simp]: "emit [] s = s"
  by (simp add: emit_def)

lemma emit_fields [simp]:
  "mirroring_handler (emit es s) = mirroring_handler s" "casting_handler (emit es s) = casting_handler s"
  "video_service (emit es s) = video_service s" "audio_service (emit es s) = audio_service s"
  "crypto (emit es s) = crypto s" "session_id (emit es s) = session_id s" "session_type (emit es s) = session_type s"
  "event_connections (emit es s) = event_connections s" "store (emit es s) = store s" "timing (emit es s) = timing s"
  "events (emit es s) = events s @ es"
  by (simp_all add: emit_def)

lemma running_append:
  "video_running (es @ es') = video_running es + video_running es'"
  "audio_running (es @ es') = audio_running es + audio_running es'"
  by (simp_all add: video_running_def audio_running_def)

lemma running_plain:
  "list_all (\<lambda>e. \<not> service_event e) es \<Longrightarrow> video_running es = 0 \<and> audio_running es = 0"
  by (induction es) (auto simp: video_running_def audio_running_def service_event_def)

lemma callbacks_append:
  assumes "list_all (\<lambda>e. \<not> session_callback e) (takeWhile (\<lambda>e. \<not> begins e) es)"
    and "list_ex begins es \<or> list_all (\<lambda>e. \<not> session_callback e) es'"
  shows "list_all (\<lambda>e. \<not> session_callback e) (takeWhile (\<lambda>e. \<not> begins e) (es @ es'))"
proof (cases "list_ex begins es")
  case True
  then have "takeWhile (\<lambda>e. \<not> begins e) (es @ es') = takeWhile (\<lambda>e. \<not> begins e) es"
    by (induction es) auto
  then show ?thesis using assms by simp
next
  case False
  then have "takeWhile (\<lambda>e. \<not> begins e) (es @ es') = es @ takeWhile (\<lambda>e. \<not> begins e) es'"
    "takeWhile (\<lambda>e. \<not> begins e) es = es"
    by (induction es) auto
  moreover have "list_all (\<lambda>e. \<not> session_callback e) es"
    using assms(1) unfolding \<open>takeWhile (\<lambda>e. \<not> begins e) es = es\<close> .
  ultimately show ?thesis using assms(2) False by (auto simp: list_all_iff dest: set_takeWhileD)
qed

text \<open>A callback needs a handler; the other events of this kind may always occur.\<close>

definition plain_event :: "airplay \<Rightarrow> airplay_event \<Rightarrow> bool" where
  "plain_event s e \<longleftrightarrow> \<not> begins e \<and> \<not> ends e \<and> \<not> service_event e \<and> (session_callback e \<longrightarrow> has_handler s)"

lemma session_inv_emit [session_intros]:
  assumes "session_inv app s" and "list_all (plain_event s) es"
  shows "session_inv app (emit es s)"
proof -
  have "list_ex begins (events s) \<or> list_all (\<lambda>e. \<not> session_callback e) es"
    using assms by (auto simp: session_inv_def plain_event_def list_all_iff)
  moreover have "\<not> list_ex begins es" "list_all (\<lambda>e. \<not> ends e) es" "list_all (\<lambda>e. \<not> service_event e) es"
    using assms(2) by (auto simp: plain_event_def list_all_iff list_ex_iff)
  moreover have "list_all (\<lambda>e. \<not> session_callback e) (takeWhile (\<lambda>e. \<not> begins e) (events s))"
    using assms(1) by (simp add: session_inv_def)
  ultimately show ?thesis
    using assms(1) callbacks_append [of "events s" es] running_plain [of es]
    unfolding session_inv_def by (auto simp: running_append has_handler_def)
qed

lemma session_inv_handler:
  "session_inv app s \<Longrightarrow> app \<Longrightarrow> session_inv app (set_mirroring_handler h s)"
  "session_inv app s \<Longrightarrow> app \<Longrightarrow> session_inv app (set_casting_handler h s)"
  by (auto simp: session_inv_def set_mirroring_handler_def set_casting_handler_def has_handler_def)

lemma session_inv_app_calls:
  "session_inv True s \<Longrightarrow> session_inv True (fold app_call_effect calls s)"
proof (induction calls arbitrary: s)
  case (Cons call calls)
  have "session_inv True (app_call_effect call s)"
    using Cons.prems
    by (cases call) (auto simp: session_inv_handler disconnect_def plain_event_def session_callback_def service_event_def
        intro: session_intros)
  then show ?case using Cons.IH by simp
qed simp

lemma session_inv_begin [session_intros]:
  assumes "session_inv (has_app E) s" and "type \<noteq> unknown_session"
  shows "session_inv (has_app E) (begin_session E type s)"
proof (cases "has_app E")
  case True
  have "list_all (\<lambda>e. \<not> session_callback e) (takeWhile (\<lambda>e. \<not> begins e) (events s @ [Session_begin (session_id s)]))"
    using assms(1) by (intro callbacks_append) (auto simp: session_inv_def session_callback_def)
  then have "session_inv True (emit [Session_begin (session_id s)] (s\<lparr>session_type := type\<rparr>))"
    using assms True by (auto simp: session_inv_def has_handler_def running_append video_running_def audio_running_def)
  then show ?thesis using True session_inv_app_calls by (simp add: begin_session_def)
next
  case False
  then show ?thesis using assms by (auto simp: begin_session_def session_inv_def has_handler_def)
qed

text \<open>Starting and stopping a stream service.\<close>

lemma session_inv_service_event:
  assumes "session_inv app s" and "\<not> session_callback e" "\<not> begins e" "\<not> ends e"
    and "video_running [e] = (if v = None then 0 else 1) - (if video_service s = None then 0 else 1)"
    and "audio_running [e] = (if a = None then 0 else 1) - (if audio_service s = None then 0 else 1)"
  shows "session_inv app (emit [e] (s\<lparr>video_service := v, audio_service := a\<rparr>))"
proof -
  have "list_all (\<lambda>e. \<not> session_callback e) (takeWhile (\<lambda>e. \<not> begins e) (events s @ [e]))"
    using assms by (intro callbacks_append) (simp_all add: session_inv_def)
  then show ?thesis
    using assms unfolding session_inv_def has_handler_def by (auto simp: running_append)
qed

lemma session_inv_service:
  assumes "session_inv app s"
  shows "video_service s = None \<Longrightarrow> session_inv app (emit [Video_service_started] (s\<lparr>video_service := Some v\<rparr>))"
    and "audio_service s = None \<Longrightarrow> session_inv app (emit [Audio_service_started] (s\<lparr>audio_service := Some v\<rparr>))"
    and "video_service s \<noteq> None \<Longrightarrow> session_inv app (emit [Video_service_stopped] (s\<lparr>video_service := None\<rparr>))"
    and "audio_service s \<noteq> None \<Longrightarrow> session_inv app (emit [Audio_service_stopped] (s\<lparr>audio_service := None\<rparr>))"
  using session_inv_service_event [OF assms, of Video_service_started "Some v" "audio_service s"]
    session_inv_service_event [OF assms, of Audio_service_started "video_service s" "Some v"]
    session_inv_service_event [OF assms, of Video_service_stopped None "audio_service s"]
    session_inv_service_event [OF assms, of Audio_service_stopped "video_service s" None]
  by (simp_all add: session_callback_def video_running_def audio_running_def)

section \<open>Every handler\<close>

lemma respond_eq [simp]: "respond res st = Returns (res', st') \<longleftrightarrow> res' = res \<and> st' = st"
  by (cases st; cases st') (auto simp: respond_def)

lemma setup_failed_eq [simp]: "setup_failed res st = Returns (res', st') \<longleftrightarrow> res' = with_status bad_request res \<and> st' = st"
  by (auto simp: setup_failed_def)

text \<open>The events a handler emits itself.\<close>

lemma plain_events [simp]:
  "plain_event s (Store_event e)" "plain_event s (Timing_event t)"
  "plain_event s Video_stream_started \<longleftrightarrow> has_handler s" "plain_event s Video_stream_stopped \<longleftrightarrow> has_handler s"
  "plain_event s (Audio_stream_started f) \<longleftrightarrow> has_handler s" "plain_event s Audio_stream_stopped \<longleftrightarrow> has_handler s"
  "plain_event s (Audio_set_volume r v) \<longleftrightarrow> has_handler s" "plain_event s (Audio_set_progress r a b c) \<longleftrightarrow> has_handler s"
  "plain_event s (Audio_set_cover u d) \<longleftrightarrow> has_handler s" "plain_event s (Audio_set_meta_data d) \<longleftrightarrow> has_handler s"
  "plain_event s (Video_play i l p) \<longleftrightarrow> has_handler s" "plain_event s (Video_scrub i p) \<longleftrightarrow> has_handler s"
  "plain_event s (Video_rate i p) \<longleftrightarrow> has_handler s" "plain_event s (Video_stop i) \<longleftrightarrow> has_handler s"
  "plain_event s (Acquire_playback_info i) \<longleftrightarrow> has_handler s"
  by (simp_all add: plain_event_def session_callback_def service_event_def)

lemma plain_map [simp]: "list_all (plain_event s) (map Store_event es)" "list_all (plain_event s) (map Timing_event ts)"
  by (simp_all add: list_all_iff)

lemma parameter_events_plain: "mirroring_handler s \<Longrightarrow> list_all (plain_event s) (parameter_events req)"
  by (simp add: parameter_events_def Let_def split: option.splits)

lemma session_inv_play [session_intros]: "session_inv app s \<Longrightarrow> session_inv app (play_event l s)"
  by (auto simp: play_event_def intro: session_intros)

lemma keeps_setup_audio:
  assumes "session_inv (has_app E) (fst st)" and "setup_audio_stream E obj type res st = Returns (res', st')"
  shows "session_inv (has_app E) (fst st')"
proof -
  let ?s = "(fst st)\<lparr>crypto := init_audio_stream_aes_cbc (crypto (fst st))\<rparr>"
  let ?t = "if audio_service ?s = None
    then emit [Audio_service_started] (?s\<lparr>audio_service := Some \<lparr>svc_has_handler = mirroring_handler ?s\<rparr>\<rparr>) else ?s"
  have s: "session_inv (has_app E) ?s" using assms(1) by simp
  have t: "session_inv (has_app E) ?t" using s session_inv_service(2) [OF s] by (auto split: if_splits)
  have "session_inv (has_app E) (emit (if mirroring_handler ?t then [Audio_stream_started f] else []) ?t)" for f
    by (rule session_inv_emit [OF t]) simp
  then show ?thesis
    using assms(2) s by (auto simp: setup_audio_stream_def Let_def split: option.splits)
qed

lemma keeps_setup_video:
  assumes "session_inv (has_app E) (fst st)" and "setup_video_stream E obj type res st = Returns (res', st')"
  shows "session_inv (has_app E) (fst st')"
proof -
  have step: "session_inv (has_app E) (if video_service s = None
      then emit [Video_service_started] (s\<lparr>video_service := Some \<lparr>svc_has_handler = mirroring_handler s\<rparr>\<rparr>) else s)"
    if "s = emit (if mirroring_handler s' then [Video_stream_started] else []) s'" "session_inv (has_app E) s'" for s s'
  proof -
    have "session_inv (has_app E) s" unfolding that(1) by (rule session_inv_emit [OF that(2)]) simp
    then show ?thesis by (simp add: session_inv_service(1))
  qed
  have "session_inv (has_app E) ((fst st)\<lparr>crypto := c\<rparr>)" for c using assms(1) by simp
  from step [OF refl this] show ?thesis
    using assms by (auto simp: setup_video_stream_def Let_def split: option.splits)
qed

lemma keeps_setup_session:
  assumes "session_inv (has_app E) (fst st)" and "setup_session E obj res st = Returns (res', st')"
  shows "session_inv (has_app E) (fst st')"
proof -
  have "session_inv (has_app E) (begin_session E mirroring_session ((fst st)\<lparr>crypto := c\<rparr>))" for c
    using assms(1) by (intro session_intros) simp_all
  then show ?thesis
    using assms by (auto simp: setup_session_def Let_def split: option.splits)
qed

lemma keeps_setup:
  assumes "session_inv (has_app E) (fst st)" and "setup_handler E req res st = Returns (res', st')"
  shows "session_inv (has_app E) (fst st')"
  using assms(2)
  by (auto simp: setup_handler_def Let_def assms(1) split: if_splits option.splits
      dest!: keeps_setup_session [OF assms(1)] keeps_setup_audio [OF assms(1)] keeps_setup_video [OF assms(1)])

lemma keeps_stop_stream:
  assumes "session_inv app s"
  shows "session_inv app (stop_video_stream s)" and "session_inv app (stop_audio_stream s)"
proof -
  let ?v = "if video_service s \<noteq> None then emit [Video_service_stopped] (s\<lparr>video_service := None\<rparr>) else s"
  have "session_inv app ?v" using assms session_inv_service(3) by auto
  from session_inv_emit [OF this] show "session_inv app (stop_video_stream s)"
    by (simp add: stop_video_stream_def Let_def)
  let ?a = "if audio_service s \<noteq> None then emit [Audio_service_stopped] (s\<lparr>audio_service := None\<rparr>) else s"
  have "session_inv app ?a" using assms session_inv_service(4) by auto
  from session_inv_emit [OF this] show "session_inv app (stop_audio_stream s)"
    by (simp add: stop_audio_stream_def Let_def)
qed

lemma keeps_teardown:
  assumes "session_inv app (fst st)" and "teardown_handler E req res st = Returns (res', st')"
  shows "session_inv app (fst st')"
  using assms keeps_stop_stream
  by (auto simp: teardown_handler_def teardown_stream_def Let_def split: if_splits option.splits)

lemma pair_verify_state:
  assumes r: "post_pair_verify_handler E req res st = Returns (res', st')"
  shows "\<exists>c. fst st' = (fst st)\<lparr>crypto := c\<rparr>"
proof -
  obtain h where h: "c_nth (content req) 0 = Returns h"
    using r unfolding post_pair_verify_handler_def c_bind_eq_Returns by blast
  show ?thesis
  proof (cases "h = 0")
    case True
    then obtain v c where "verify_pair_signature (lib E) (Some (drop 4 (content req))) 64 (crypto (fst st)) = Returns (v, c)"
      "st' = ((fst st)\<lparr>crypto := c\<rparr>, snd st)"
      using r h unfolding post_pair_verify_handler_def by (auto simp del: crypto_sizes)
    then show ?thesis by auto
  next
    case False
    then show ?thesis
      using r h unfolding post_pair_verify_handler_def by (auto simp del: crypto_sizes)
  qed
qed

lemma keeps_pairing:
  assumes "session_inv app (fst st)"
  shows "post_pair_setup_handler E req res st = Returns (res', st') \<Longrightarrow> session_inv app (fst st')"
    and "post_pair_verify_handler E req res st = Returns (res', st') \<Longrightarrow> session_inv app (fst st')"
    and "post_fp_setup_handler E req res st = Returns (res', st') \<Longrightarrow> session_inv app (fst st')"
proof -
  show "session_inv app (fst st')" if "post_pair_setup_handler E req res st = Returns (res', st')"
    using that assms by (auto simp: post_pair_setup_handler_def)
  show "session_inv app (fst st')" if "post_pair_verify_handler E req res st = Returns (res', st')"
    using pair_verify_state [OF that] assms by auto
  show "session_inv app (fst st')" if r: "post_fp_setup_handler E req res st = Returns (res', st')"
  proof -
    obtain b where "bytes_at (content req) 0 (bytes_of ''FPLY'') = Returns b"
      using r unfolding post_fp_setup_handler_def Let_def by (auto simp del: bytes_at.simps)
    then show ?thesis
      using r assms unfolding post_fp_setup_handler_def Let_def
      by (auto simp del: bytes_at.simps split: if_splits)
  qed
qed

lemma keeps_others:
  assumes "session_inv (has_app E) (fst st)"
  shows "options_handler E req res st = Returns (res', st') \<Longrightarrow> session_inv (has_app E) (fst st')"
    and "get_info_handler E req res st = Returns (res', st') \<Longrightarrow> session_inv (has_app E) (fst st')"
    and "post_feedback_handler E req res st = Returns (res', st') \<Longrightarrow> session_inv (has_app E) (fst st')"
    and "record_handler E req res st = Returns (res', st') \<Longrightarrow> session_inv (has_app E) (fst st')"
    and "get_parameter_handler E req res st = Returns (res', st') \<Longrightarrow> session_inv (has_app E) (fst st')"
    and "set_parameter_handler E req res st = Returns (res', st') \<Longrightarrow> session_inv (has_app E) (fst st')"
    and "flush_handler E req res st = Returns (res', st') \<Longrightarrow> session_inv (has_app E) (fst st')"
    and "post_audioMode E req res st = Returns (res', st') \<Longrightarrow> session_inv (has_app E) (fst st')"
  using assms parameter_events_plain [of "fst st" req]
  by (auto simp: options_handler_def get_info_handler_def post_feedback_handler_def record_handler_def
      get_parameter_handler_def set_parameter_handler_def flush_handler_def post_audioMode_def
      split: prod.splits intro!: session_intros)

lemma keeps_casting:
  assumes "session_inv (has_app E) (fst st)"
  shows "get_server_info_handler E req res st = Returns (res', st') \<Longrightarrow> session_inv (has_app E) (fst st')"
    and "post_fp_setup2_handler E req res st = Returns (res', st') \<Longrightarrow> session_inv (has_app E) (fst st')"
    and "post_reverse_handler E req res st = Returns (res', st') \<Longrightarrow> session_inv (has_app E) (fst st')"
    and "post_scrub_handler E req res st = Returns (res', st') \<Longrightarrow> session_inv (has_app E) (fst st')"
    and "post_rate_handler E req res st = Returns (res', st') \<Longrightarrow> session_inv (has_app E) (fst st')"
    and "post_stop_handler E req res st = Returns (res', st') \<Longrightarrow> session_inv (has_app E) (fst st')"
    and "get_playback_info_handler E req res st = Returns (res', st') \<Longrightarrow> session_inv (has_app E) (fst st')"
    and "put_setProperty_handler E req res st = Returns (res', st') \<Longrightarrow> session_inv (has_app E) (fst st')"
    and "post_getProperty_handler E req res st = Returns (res', st') \<Longrightarrow> session_inv (has_app E) (fst st')"
  using assms
  by (auto simp: get_server_info_handler_def post_fp_setup2_handler_def post_reverse_handler_def reverse_connection_def
      post_scrub_handler_def post_rate_handler_def post_stop_handler_def get_playback_info_handler_def
      put_setProperty_handler_def post_getProperty_handler_def Let_def
      split: option.splits if_splits intro!: session_intros)

lemma keeps_play:
  assumes "session_inv (has_app E) (fst st)" and "post_play_handler E req res st = Returns (res', st')"
  shows "session_inv (has_app E) (fst st')"
proof -
  have "session_inv (has_app E) s" if "play_parameters E req (fst st) = Returns (l, s)" for l s
    using that assms(1) by (auto simp: play_parameters_def Let_def split: if_splits option.splits)
  then have inv: "session_inv (has_app E) (emit (map Store_event es) (s\<lparr>store := m\<rparr>))"
    if "play_parameters E req (fst st) = Returns (l, s)" for l s es m
    using that by (intro session_intros) simp_all
  obtain l s where p: "play_parameters E req (fst st) = Returns (l, s)"
    using assms(2) by (auto simp: post_play_handler_def)
  show ?thesis
  proof (cases "l = None \<or> map_find ''X-Apple-Session-ID'' (headers req) = None")
    case True
    then show ?thesis
      using assms(2) p inv [OF p, of "[]" "store s"] by (auto simp: post_play_handler_def split: option.splits)
  next
    case False
    then obtain l' sid where l: "l = Some l'" "map_find ''X-Apple-Session-ID'' (headers req) = Some sid" by auto
    obtain b m es where r: "request_media_data (casting E) (event_connections s) l' sid (store s) = (b, m, es)"
      by (metis prod_cases3)
    show ?thesis
      using assms(2) p l r inv [OF p, of es m] session_inv_play [OF inv [OF p, of es m]]
      by (auto simp: post_play_handler_def Let_def)
  qed
qed

lemma keeps_action:
  assumes "session_inv (has_app E) (fst st)" and "post_action_handler E req res st = Returns (res', st')"
  shows "session_inv (has_app E) (fst st')"
proof -
  have "session_inv (has_app E) s" if "unhandled_url_response E obj req (fst st) = Returns (b, s)" for obj b s
    using that assms(1)
    by (auto simp: unhandled_url_response_def Let_def split: if_splits option.splits prod.splits intro!: session_intros)
  then show ?thesis
    using assms by (auto simp: post_action_handler_def split: if_splits option.splits)
qed

lemma route_handlers_keep:
  assumes "r \<in> set (routes_table E)" and "session_inv (has_app E) s"
    and "route_handler r req res (s, rvd) = Returns (res', s', rvd')"
  shows "session_inv (has_app E) s'"
proof -
  have s: "session_inv (has_app E) (fst (s, rvd))" using assms(2) by simp
  note keeps = keeps_pairing [OF s] keeps_others [OF s] keeps_casting [OF s] keeps_setup [OF s]
    keeps_teardown [OF s] keeps_play [OF s] keeps_action [OF s]
  have "session_inv (has_app E) (fst (s', rvd'))"
    using assms(1,3) unfolding routes_table_def route_def by (auto dest!: keeps)
  then show ?thesis by simp
qed

interpretation airplay: handler_contract routes_table "\<lambda>E. has_app E = app" "session_inv app" for app
  by unfold_locales (use route_handlers_keep in blast)

end
