(* ===== verification/Airplay_Properties.thy ===== *)
theory Airplay_Properties
  imports Airplay_Pairing Airplay_Invariant Plist_Roundtrip
begin

text \<open>
  Properties of the AirPlay service as a whole: the life of a session, the way from the set-up
  requests to the decrypted video, and the parameters and commands the application is told of.
\<close>

section \<open>The life of a session\<close>

lemma new_connection_inv: "session_inv app (new_airplay_connection address ts keys m conns)"
  by (simp add: session_inv_def new_airplay_connection_def session_callback_def has_handler_def
      video_running_def audio_running_def)

lemma filter_ends_none: "list_all (\<lambda>e. \<not> ends e) es \<Longrightarrow> filter ends es = []"
  by (simp add: filter_empty_conv list_all_iff)

lemma destroy_events:
  "events (destroy_airplay_connection E rvd s) = events s @ Timing_closed #
     (if session_type s \<noteq> unknown_session \<and> has_app E then [Session_end (session_id s)] else [])"
  by (cases "session_type s") (simp_all add: destroy_airplay_connection_def emit_def Let_def)

text \<open>C6: Whatever requests a connection has handled, the application hears of the beginning of
  the session before any other callback, a stream service is running exactly if the connection holds
  one, and when the connection is destroyed the session ends exactly once if it ever began, and
  not at all otherwise.\<close>

theorem session_lifecycle:
  assumes "served routes_table (\<lambda>E. has_app E = app) (new_airplay_connection address ts keys m conns, False) (s, rvd)"
    and "has_app E = app"
  shows "list_all (\<lambda>e. \<not> session_callback e) (takeWhile (\<lambda>e. \<not> begins e) (events s)) \<and>
    video_running (events s) = (if video_service s = None then 0 else 1) \<and>
    audio_running (events s) = (if audio_service s = None then 0 else 1) \<and>
    length (filter ends (events (destroy_airplay_connection E rvd s))) = (if list_ex begins (events s) then 1 else 0)"
proof -
  have "session_inv app s"
    using airplay.served_keeps [OF assms(1)] new_connection_inv by simp
  then show ?thesis
    using assms(2) by (auto simp: session_inv_def destroy_events filter_ends_none)
qed

text \<open>A video is cast: the connection is described, then a second description is asked for.\<close>

definition server_info_request :: request where
  "server_info_request = new_request ''HTTP/1.1'' ''GET'' ''/server-info''"

definition casting_connection :: "nat \<Rightarrow> airplay \<times> bool" where
  "casting_connection n = (((begin_session sample_env casting_session) ^^ n) (fst sample_connection), False)"

lemma scheme_of_sample: "scheme_of ''HTTP/1.1'' = ''HTTP''" "path_of ''/server-info'' = ''/server-info''"
  by (simp_all add: scheme_of_def path_of_def before_def)

lemma server_info_routed:
  "query_handler (register_all (routes_table E) []) server_info_request BAD_VALUE = (Some (get_server_info_handler E), BAD_VALUE)"
proof -
  have r: "scheme_of (scheme_version server_info_request) = ''HTTP''" "req_method server_info_request = ''GET''"
    "path_of (uri server_info_request) = ''/server-info''"
    using scheme_of_sample by (simp_all add: server_info_request_def message_defs)
  have "route_at (register_all (routes_table E) []) ''HTTP'' ''GET'' ''/server-info'' = Some (get_server_info_handler E)"
    by (simp add: route_at_register_all last_route_def routes_table_def route_def)
  then show ?thesis by (simp add: query_handler_flat r Let_def)
qed

lemma served_casting:
  "served routes_table (\<lambda>E. has_app E = True) sample_connection (casting_connection n)"
proof (induction n)
  case 0
  have "casting_connection 0 = sample_connection" by (simp add: casting_connection_def sample_connection_def)
  then show ?case by (simp add: served_start)
next
  case (Suc n)
  show ?case
  proof (rule served_request [OF Suc _ server_info_routed [of sample_env]])
    show "has_app sample_env = True" by (simp add: sample_env_def)
    show "get_server_info_handler sample_env server_info_request (new_response ''HTTP/1.1'') (casting_connection n) =
        Returns (with_content_string (server_info_text sample_env)
          (with_content_type TEXT_APPLE_PLIST_XML (with_status ok (new_response ''HTTP/1.1''))), casting_connection (Suc n))"
      by (simp add: get_server_info_handler_def respond_def casting_connection_def)
  qed
qed

lemma session_lifecycle_witness:
  "length (filter ends (events (destroy_airplay_connection sample_env False (fst (casting_connection 1))))) = 1"
proof -
  have "list_ex begins (events (fst (casting_connection 1)))"
    by (simp add: casting_connection_def begin_session_def sample_env_def emit_def set_mirroring_handler_def
        set_casting_handler_def sample_connection_def new_airplay_connection_def)
  moreover have "served routes_table (\<lambda>E. has_app E = True)
      (new_airplay_connection 1 1 (new_server_key_chain identity_lib (replicate 32 12) []) (new_media_store 0) [], False)
      (fst (casting_connection 1), False)"
    using served_casting [of 1] by (simp add: sample_connection_def casting_connection_def)
  moreover have "has_app sample_env = True" by (simp add: sample_env_def)
  ultimately show ?thesis using session_lifecycle [of True] by metis
qed

text \<open>
  The beginning, in contrast, is announced again with every request for the description, for every
  set-up, while the end is announced once.
\<close>

lemma session_begins_twice:
  "filter begins (events (fst (casting_connection 2))) =
     [Session_begin (session_id (fst sample_connection)), Session_begin (session_id (fst sample_connection))] \<and>
   filter ends (events (destroy_airplay_connection sample_env False (fst (casting_connection 2)))) =
     [Session_end (session_id (fst sample_connection))]"
  by (simp add: casting_connection_def begin_session_def sample_env_def emit_def set_mirroring_handler_def
      set_casting_handler_def sample_connection_def new_airplay_connection_def destroy_events numeral_2_eq_2)

section \<open>From the set-up to the picture\<close>

lemma to_bytes_array_returns: "\<exists>bytes. to_bytes_array alloc obj = Returns bytes"
proof -
  obtain offs bs where "layout obj (bplist_reflen obj) 0 8 = (offs, bs)" by (metis surj_pair)
  from to_bplist_eq [OF this, of alloc] show ?thesis by (auto simp: to_bytes_array_def)
qed

lemma with_plist_returns:
  obtains bytes where "to_bytes_array (plist_alloc E) obj = Returns bytes"
    and "with_plist E obj res = Returns (with_content bytes (with_content_type APPLICATION_BINARY_PLIST (with_status ok res)))"
  using to_bytes_array_returns [of "plist_alloc E" obj] by (auto simp: with_plist_def)

lemma plist_response [simp]:
  "status_code (with_content b (with_content_type t (with_status code res))) = code"
  "content (with_content b (with_content_type t (with_status code res))) = b"
  by (simp_all add: builder_defs)

definition video_reply :: "airplay_env \<Rightarrow> nat \<Rightarrow> plist" where
  "video_reply E listen_port =
     plist_dict E [(''eventPort'', plist_integer E listen_port),
       (''streams'', plist_array E [plist_dict E
         [(''type'', plist_integer E 110), (''dataPort'', plist_integer E (video_service_port E))]])]"

lemma integer_member_video: "integer_member obj ''type'' = Some 110 \<Longrightarrow> stream_video = 110 \<and> stream_audio \<noteq> 110"
  by (simp add: stream_video_def stream_audio_def)

text \<open>The first set-up request, with the session key.\<close>

lemma setup_session_run:
  assumes L: "crypto_lib_ok (lib E)" and c: "crypto_ok (crypto (fst st))"
    and req: "content_type req = APPLICATION_BINARY_PLIST" "parse_plist E req = Returns obj" "obj \<noteq> PNull"
    and none: "plist_object_dict_get_value obj (Some ''streams'') = PNull"
    and iv: "data_member obj ''eiv'' = Some iv" "0 < length iv" "length iv < 2 ^ 64"
    and key: "data_member obj ''ekey'' = Some ekey" "0 < length ekey"
    and port: "integer_member obj ''timingPort'' = Some port" and peer: "peer_address E = Some addr"
  obtains res' where "status_code res' = ok"
    and "setup_handler E req res st = Returns (res',
      (let s = begin_session E mirroring_session ((fst st)\<lparr>crypto := (crypto (fst st))
             \<lparr>client_aes_iv := iv, client_aes_key := next_aes_key (lib E) ekey (crypto (fst st))\<rparr>\<rparr>)
       in s\<lparr>timing := set_server_endpoint addr (to_size port mod 2 ^ 16) (timing s)\<rparr>), snd st)"
proof -
  obtain bytes where w: "with_plist E (plist_dict E [(''eventPort'', plist_integer E 0),
      (''timingPort'', plist_integer E (timing_service_port E))]) res =
      Returns (with_content bytes (with_content_type APPLICATION_BINARY_PLIST (with_status ok res)))"
    by (rule with_plist_returns)
  have "setup_handler E req res st = setup_session E obj res st"
    by (simp add: setup_handler_def req none)
  also have "\<dots> = Returns (with_content bytes (with_content_type APPLICATION_BINARY_PLIST (with_status ok res)),
      (let s = begin_session E mirroring_session ((fst st)\<lparr>crypto := (crypto (fst st))
             \<lparr>client_aes_iv := iv, client_aes_key := next_aes_key (lib E) ekey (crypto (fst st))\<rparr>\<rparr>)
       in s\<lparr>timing := set_server_endpoint addr (to_size port mod 2 ^ 16) (timing s)\<rparr>), snd st)"
    using init_client_aes_info_ok [OF L c iv(2,3) key(2)]
    by (simp add: setup_session_def iv(1) key(1) port peer w Let_def respond_def)
  finally show thesis by (rule that [rotated]) simp
qed

text \<open>The request for the video stream.\<close>

lemma setup_video_run:
  assumes L: "crypto_lib_ok (lib E)"
    and req: "content_type req = APPLICATION_BINARY_PLIST" "parse_plist E req = Returns obj" "obj \<noteq> PNull"
    and streams: "plist_object_dict_get_value obj (Some ''streams'') = PArray (stream # others)" "stream = PDict members"
    and type: "integer_member stream ''type'' = Some 110" and cid: "integer_member stream ''streamConnectionID'' = Some cid"
    and st: "mirroring_handler (fst st)" "video_service (fst st) = None"
  obtains res' where "status_code res' = ok"
    and "to_bytes_array (plist_alloc E) (video_reply E (case service_port E of None \<Rightarrow> 0 | Some p \<Rightarrow> p)) = Returns (content res')"
    and "setup_handler E req res st = Returns (res', (emit [Video_stream_started, Video_service_started] (fst st))
      \<lparr>crypto := (crypto (fst st))\<lparr>mirror_stream_aes_ctr := video_stream (lib E) (to_size cid) (crypto (fst st))\<rparr>,
       video_service := Some \<lparr>svc_has_handler = True\<rparr>\<rparr>, snd st)"
proof -
  have t: "to_size 110 = 110" by (simp add: to_size_def)
  obtain bytes where b: "to_bytes_array (plist_alloc E) (video_reply E (case service_port E of None \<Rightarrow> 0 | Some p \<Rightarrow> p)) = Returns bytes"
    and w: "with_plist E (video_reply E (case service_port E of None \<Rightarrow> 0 | Some p \<Rightarrow> p)) res =
      Returns (with_content bytes (with_content_type APPLICATION_BINARY_PLIST (with_status ok res)))"
    by (rule with_plist_returns)
  have "setup_handler E req res st = setup_video_stream E stream 110 res st"
    using streams type
    by (simp add: setup_handler_def req plist_object_array_get_value_def stream_video_def stream_audio_def
        plist_type_defs)
  also have "\<dots> = Returns (with_content bytes (with_content_type APPLICATION_BINARY_PLIST (with_status ok res)),
      (emit [Video_stream_started, Video_service_started] (fst st))
      \<lparr>crypto := (crypto (fst st))\<lparr>mirror_stream_aes_ctr := video_stream (lib E) (to_size cid) (crypto (fst st))\<rparr>,
       video_service := Some \<lparr>svc_has_handler = True\<rparr>\<rparr>, snd st)"
    using init_video_stream_aes_ctr_ok [OF L] st w
    by (simp add: setup_video_stream_def cid emit_def respond_def Let_def t flip: video_reply_def)
  finally show thesis by (rule that [rotated 2]) (simp_all add: b)
qed

text \<open>C1: When the application attaches its handler as the session begins, a sender that transmits its
  session key and then asks for a video stream is answered with the port of a video service
  that decrypts with the key stream both sides derive from that key and from the number of the
  stream: whatever packets it then sends there, encrypted in this way, the handler gets each of them once, in
  order and in plain text.\<close>

theorem mirroring_end_to_end:
  assumes L: "crypto_lib_ok (lib E)" and c: "crypto_ok (crypto (fst st))" and video: "video_service (fst st) = None"
    and app: "has_app E" "on_session_begin E mirroring_session = [Set_mirroring_handler True]"
    and peer: "peer_address E = Some addr"
    and req1: "content_type req1 = APPLICATION_BINARY_PLIST" "parse_plist E req1 = Returns obj1" "obj1 \<noteq> PNull"
      "plist_object_dict_get_value obj1 (Some ''streams'') = PNull"
    and iv: "data_member obj1 ''eiv'' = Some iv" "0 < length iv" "length iv < 2 ^ 64"
    and key: "data_member obj1 ''ekey'' = Some ekey" "0 < length ekey"
    and port: "integer_member obj1 ''timingPort'' = Some port"
    and req2: "content_type req2 = APPLICATION_BINARY_PLIST" "parse_plist E req2 = Returns obj2" "obj2 \<noteq> PNull"
    and streams: "plist_object_dict_get_value obj2 (Some ''streams'') = PArray (PDict members # others)"
      "integer_member (PDict members) ''type'' = Some 110" "integer_member (PDict members) ''streamConnectionID'' = Some cid"
    and pkts: "list_all (packet_fits SMS_BUFFER_SIZE) pkts"
  shows "\<exists>res1' st1 res2' st2 svc v.
    setup_handler E req1 res1 st = Returns (res1', st1) \<and> status_code res1' = ok \<and>
    setup_handler E req2 res2 st1 = Returns (res2', st2) \<and> status_code res2' = ok \<and>
    to_bytes_array (plist_alloc E) (video_reply E (case service_port E of None \<Rightarrow> 0 | Some p \<Rightarrow> p)) = Returns (content res2') \<and>
    events (fst st2) = events (fst st) @ [Session_begin (session_id (fst st)), Video_stream_started, Video_service_started] \<and>
    video_service (fst st2) = Some svc \<and>
    video_run (lib E) (send_packets (lib E) (video_stream (lib E) (to_size cid)
         ((crypto (fst st))\<lparr>client_aes_key := next_aes_key (lib E) ekey (crypto (fst st))\<rparr>)) pkts)
       [Read_at 0 128] (new_video_connection (crypto (fst st2)) (svc_has_handler svc)) =
      Returns (v, map video_event_of pkts, [Read_at 0 128])"
proof -
  define s1 where "s1 = (let s = begin_session E mirroring_session ((fst st)\<lparr>crypto := (crypto (fst st))
      \<lparr>client_aes_iv := iv, client_aes_key := next_aes_key (lib E) ekey (crypto (fst st))\<rparr>\<rparr>)
    in s\<lparr>timing := set_server_endpoint addr (to_size port mod 2 ^ 16) (timing s)\<rparr>)"
  obtain res1' where one: "status_code res1' = ok" "setup_handler E req1 res1 st = Returns (res1', s1, snd st)"
    using setup_session_run [OF L c req1 iv key port peer, of res1] unfolding s1_def by metis
  have s1: "mirroring_handler s1" "video_service s1 = None" "session_type s1 = mirroring_session"
    "crypto s1 = (crypto (fst st))\<lparr>client_aes_iv := iv, client_aes_key := next_aes_key (lib E) ekey (crypto (fst st))\<rparr>"
    "events s1 = events (fst st) @ [Session_begin (session_id (fst st))]"
    using app video by (simp_all add: s1_def begin_session_def set_mirroring_handler_def Let_def emit_def)
  obtain res2' where two: "status_code res2' = ok"
    "to_bytes_array (plist_alloc E) (video_reply E (case service_port E of None \<Rightarrow> 0 | Some p \<Rightarrow> p)) = Returns (content res2')"
    "setup_handler E req2 res2 (s1, snd st) = Returns (res2', (emit [Video_stream_started, Video_service_started] s1)
      \<lparr>crypto := (crypto s1)\<lparr>mirror_stream_aes_ctr := video_stream (lib E) (to_size cid) (crypto s1)\<rparr>,
       video_service := Some \<lparr>svc_has_handler = True\<rparr>\<rparr>, snd st)"
    using setup_video_run [OF L req2 streams(1) refl streams(2,3), of "(s1, snd st)" res2] s1(1,2) by auto
  have stream: "video_stream (lib E) (to_size cid) (crypto s1) = video_stream (lib E) (to_size cid)
      ((crypto (fst st))\<lparr>client_aes_key := next_aes_key (lib E) ekey (crypto (fst st))\<rparr>)"
    by (simp add: video_stream_def s1(4))
  let ?v = "new_video_connection ((crypto s1)\<lparr>mirror_stream_aes_ctr := video_stream (lib E) (to_size cid) (crypto s1)\<rparr>) True"
  obtain v where run: "video_run (lib E) (send_packets (lib E) (video_stream (lib E) (to_size cid) (crypto s1)) pkts)
      [Read_at 0 128] ?v = Returns (v, map video_event_of pkts, [Read_at 0 128])"
    by (rule video_run_packets [of ?v pkts "video_stream (lib E) (to_size cid) (crypto s1)" "lib E"])
      (use pkts in \<open>simp_all add: new_video_connection_def\<close>)
  show ?thesis
    using one two run s1(5) unfolding stream
    by (intro exI [of _ res1'] exI [of _ "(s1, snd st)"] exI [of _ res2'] exI [of _ v] exI conjI) auto
qed

definition session_plist :: plist where
  "session_plist = PDict [(''eiv'', PData [1, 2, 3, 4, 5, 6, 7, 8, 9, 10, 11, 12, 13, 14, 15, 16]),
     (''ekey'', PData [1, 2, 3]), (''timingPort'', PInteger 300)]"

definition stream_plist :: plist where
  "stream_plist = PDict [(''streams'', PArray [PDict [(''type'', PInteger 110), (''streamConnectionID'', PInteger 5)]])]"

definition plist_request :: "plist \<Rightarrow> request" where
  "plist_request obj = with_content_type APPLICATION_BINARY_PLIST (body_request (bplist_file obj))"

lemma plist_request_parse:
  assumes "readable obj" "slack obj = 0" "length (bplist_file obj) < 2 ^ 31" "depth obj \<le> 8" "canonical obj = obj"
  shows "content_type (plist_request obj) = APPLICATION_BINARY_PLIST"
    and "parse_plist sample_env (plist_request obj) = Returns obj"
proof -
  have "content (plist_request obj) = bplist_file obj"
    by (simp add: plist_request_def with_content_type_def)
  then show "parse_plist sample_env (plist_request obj) = Returns obj"
    using roundtrip_file [OF assms(1-3), of "\<lambda>_. True" 8] assms(4,5)
    by (simp add: parse_plist_def sample_env_def)
  show "content_type (plist_request obj) = APPLICATION_BINARY_PLIST"
    by (simp add: plist_request_def with_content_type_def)
qed

lemmas file_length_defs = bplist_file_def bplist_reflen_def bplist_offlen_def Let_def analyze_string_def
  string_layout_def header_bytes_def integer_length_def c_str_def NUL_def trailer_bytes_def

lemma sample_plists:
  "readable session_plist" "slack session_plist = 0" "length (bplist_file session_plist) < 2 ^ 31"
  "depth session_plist \<le> 8" "canonical session_plist = session_plist"
  "readable stream_plist" "slack stream_plist = 0" "length (bplist_file stream_plist) < 2 ^ 31"
  "depth stream_plist \<le> 8" "canonical stream_plist = stream_plist"
  by (simp_all add: session_plist_def stream_plist_def in_s64_def dict_slack_def file_length_defs)

lemma mirroring_end_to_end_witness:
  "\<exists>res1' st1 res2' st2 svc v.
    setup_handler sample_env (plist_request session_plist) (new_response ''RTSP/1.0'') sample_connection = Returns (res1', st1) \<and>
    setup_handler sample_env (plist_request stream_plist) (new_response ''RTSP/1.0'') st1 = Returns (res2', st2) \<and>
    video_service (fst st2) = Some svc \<and>
    video_run identity_lib (send_packets identity_lib (video_stream identity_lib 5
         ((crypto (fst sample_connection))\<lparr>client_aes_key := next_aes_key identity_lib [1, 2, 3] (crypto (fst sample_connection))\<rparr>))
         [(sms_header 3 0, [1, 2, 3])])
       [Read_at 0 128] (new_video_connection (crypto (fst st2)) (svc_has_handler svc)) =
      Returns (v, [video_event_of (sms_header 3 0, [1, 2, 3])], [Read_at 0 128])"
proof -
  have e: "lib sample_env = identity_lib" by (simp add: sample_env_def)
  have L: "crypto_lib_ok (lib sample_env)" using identity_lib_ok by (simp add: e)
  have v: "video_service (fst sample_connection) = None" by (simp add: sample_connection_def new_airplay_connection_def)
  have app: "has_app sample_env" "on_session_begin sample_env mirroring_session = [Set_mirroring_handler True]"
    "peer_address sample_env = Some ''192.0.2.1''"
    by (simp_all add: sample_env_def)
  have n: "session_plist \<noteq> PNull" "stream_plist \<noteq> PNull" by (simp_all add: session_plist_def stream_plist_def)
  have m1: "plist_object_dict_get_value session_plist (Some ''streams'') = PNull"
    "data_member session_plist ''eiv'' = Some [1, 2, 3, 4, 5, 6, 7, 8, 9, 10, 11, 12, 13, 14, 15, 16]"
    "data_member session_plist ''ekey'' = Some [1, 2, 3]" "integer_member session_plist ''timingPort'' = Some 300"
    by (simp_all add: session_plist_def plist_getter_defs data_member_def integer_member_def c_str_def NUL_def plist_type_defs)
  have m2: "plist_object_dict_get_value stream_plist (Some ''streams'') =
      PArray (PDict [(''type'', PInteger 110), (''streamConnectionID'', PInteger 5)] # [])"
    "integer_member (PDict [(''type'', PInteger 110), (''streamConnectionID'', PInteger 5)]) ''type'' = Some 110"
    "integer_member (PDict [(''type'', PInteger 110), (''streamConnectionID'', PInteger 5)]) ''streamConnectionID'' = Some 5"
    by (simp_all add: stream_plist_def plist_getter_defs integer_member_def c_str_def NUL_def plist_type_defs)
  have iv: "0 < length [1, 2, 3, 4, 5, 6, 7, 8, 9, 10, 11, 12, 13, 14, 15, 16 :: u8]"
    "length [1, 2, 3, 4, 5, 6, 7, 8, 9, 10, 11, 12, 13, 14, 15, 16 :: u8] < 2 ^ 64" "0 < length [1, 2, 3 :: u8]"
    by simp_all
  have p: "list_all (packet_fits SMS_BUFFER_SIZE) [(sms_header 3 0, [1, 2, 3])]"
    by (simp add: packet_fits_def sms_header SMS_BUFFER_SIZE_def)
  have five: "to_size 5 = 5" by (simp add: to_size_def)
  show ?thesis
    using mirroring_end_to_end [OF L sample_connection_ok(1) v app plist_request_parse [OF sample_plists(1-5)] n(1) m1(1,2)
        iv(1,2) m1(3) iv(3) m1(4) plist_request_parse [OF sample_plists(6-10)] n(2) m2 p, unfolded e five,
        of "new_response ''RTSP/1.0''" "new_response ''RTSP/1.0''"]
    unfolding list.map by blast
qed

section \<open>Parameters and commands\<close>

lemma search_needs_char:
  assumes "c \<notin> set s"
  shows "re_search (Seq (Seq (Lit c) r) r') s = None"
  unfolding re_search_None
proof (intro allI impI)
  fix pre post
  assume "s = pre @ post"
  then have "post = [] \<or> hd post \<noteq> c" using assms by (cases post) auto
  then show "re_match (Seq (Seq (Lit c) r) r') post [] = []" by (cases post) simp_all
qed

lemma no_volume: "CHR ''v'' \<notin> set str \<Longrightarrow> get_volume_value str = None"
proof -
  assume v: "CHR ''v'' \<notin> set str"
  have "set (c_str str) \<subseteq> set str" by (auto simp: c_str_def dest: set_takeWhileD)
  then have "re_search volume_pattern (c_str str) = None"
    using v unfolding volume_pattern_def lit.simps by (intro search_needs_char) auto
  then show ?thesis by (simp add: get_volume_value_def)
qed

lemma decimal_no_letter: "\<not> is_digit c \<Longrightarrow> c \<notin> set (decimal n)"
  using decimal_digits by blast

text \<open>C38: The progress a sender prints as three numbers reaches the handler of the session as the same three
  numbers, whatever follows them as long as no further digit and no letter v does, and nothing
  else changes; without a handler nothing happens at all.\<close>

theorem set_progress:
  assumes "content_type req = TEXT_PARAMETERS"
    and "content req = bytes_of (''progress: '' @ decimal a @ ''/'' @ decimal b @ ''/'' @ decimal c @ rest)"
    and "ends_number rest" "CHR ''v'' \<notin> set rest" and "a < 2 ^ 63" "b < 2 ^ 63" "c < 2 ^ 63"
  shows "set_parameter_handler E req res st = Returns (with_status ok res,
    (if mirroring_handler (fst st) then emit [Audio_set_progress (progress_ratio a b c) a b c] (fst st) else fst st), snd st)"
proof -
  have "CHR ''v'' \<notin> set (''progress: '' @ decimal a @ ''/'' @ decimal b @ ''/'' @ decimal c @ rest)"
    using assms(4) decimal_no_letter [of "CHR ''v''"] by (simp add: is_digit_def)
  from no_volume [OF this] get_progress_decimal [OF assms(3), of a b c]
  have "parameter_events req = [Audio_set_progress (progress_ratio a b c) a b c]"
    using assms(5-7) by (simp add: parameter_events_def assms(1,2))
  then show ?thesis by (simp add: set_parameter_handler_def respond_def emit_def)
qed

definition progress_request :: request where
  "progress_request = with_content_type TEXT_PARAMETERS
     (body_request (bytes_of (''progress: '' @ decimal 100 @ ''/'' @ decimal 250 @ ''/'' @ decimal 400 @ RN_LINE_BREAK)))"

lemma set_progress_witness:
  "set_parameter_handler sample_env progress_request (new_response ''RTSP/1.0'')
     ((fst sample_connection)\<lparr>mirroring_handler := True\<rparr>, False) =
   Returns (with_status ok (new_response ''RTSP/1.0''),
     emit [Audio_set_progress (progress_ratio 100 250 400) 100 250 400] ((fst sample_connection)\<lparr>mirroring_handler := True\<rparr>), False)"
  using set_progress [of progress_request 100 250 400 RN_LINE_BREAK sample_env "new_response ''RTSP/1.0''"
      "((fst sample_connection)\<lparr>mirroring_handler := True\<rparr>, False)"]
  by (simp add: progress_request_def with_content_type_def ends_number_def RN_LINE_BREAK_def is_digit_def CR_def LF_def)

text \<open>The ratio is no number of percent when the three do not increase.\<close>

lemma progress_ratio_degenerate:
  "progress_ratio 5 5 5 = NaN" "progress_ratio 5 7 5 = Infinite False"
  "progress_ratio 2 1 102 = Finite False 8388608 41"
proof -
  have s: "size_minus 5 5 = 0" "size_minus 7 5 = 2" "size_minus 1 2 = 2 ^ 64 - 1" "size_minus 102 2 = 100"
    by (simp_all add: size_minus_def)
  have f: "fp_of_nat single 0 = Finite False 0 (- 149)" "fp_of_nat single 2 = Finite False 8388608 (- 22)"
    "fp_of_nat single 100 = Finite False 13107200 (- 17)" "fp_of_nat single (2 ^ 64 - 1) = Finite False 8388608 41"
    by (simp_all add: fp_of_nat_def round_ratio_def single_def bit_len.simps scaled_def half_even_def)
  show "progress_ratio 5 5 5 = NaN" "progress_ratio 5 7 5 = Infinite False"
    "progress_ratio 2 1 102 = Finite False 8388608 41"
    unfolding progress_ratio_def s f
    by (simp_all add: ratio_of_def round_ratio_def single_def bit_len.simps scaled_def half_even_def)
qed




text \<open>The registration of another connection for the same session goes with this one.\<close>

lemma other_registration_removed:
  assumes "map_ok (event_connections s)" and "connection_get (apple_session_id s) (event_connections s) = Some other"
  shows "connection_get (apple_session_id s) (event_connections (destroy_airplay_connection E True s)) = None"
proof -
  have "event_connections (destroy_airplay_connection E True s) = connection_remove (apple_session_id s) (event_connections s)"
    by (simp add: destroy_airplay_connection_def Let_def emit_def split: session_type.splits)
  then show ?thesis using assms by (simp add: connection_get_def connection_remove_def std.find_erase)
qed





text \<open>A text without a start position gives up the location as well.\<close>

lemma play_without_position:
  assumes "get_play_parameters (string_of (content req)) = None" and "same_no_case (content_type req) TEXT_PARAMETERS"
    and "\<not> same_no_case (content_type req) APPLICATION_BINARY_PLIST"
    and "map_find ''X-Apple-Session-ID'' (headers req) = Some sid" and "casting_handler (fst st)"
  shows "\<exists>s'. post_play_handler E req res st = Returns (with_status ok res, s', snd st) \<and>
    events s' = events (fst st) @ [Video_play (session_id (fst st)) [] (start_pos_in_ms (fst st))]"
proof -
  have "request_media_data (casting E) conns [] sid m = (False, store_reset m, [])" for conns m
    by (simp add: request_media_data_def get_app_id_def starts_with_def MLHLS_SCHEME_def NFHLS_SCHEME_def)
  then show ?thesis
    using assms by (simp add: post_play_handler_def play_parameters_def play_event_def respond_def emit_def)
qed

section \<open>Routing and keys\<close>

text \<open>The route of \<open>OPTIONS\<close> has the empty path, so the usual request for \<open>*\<close> finds no handler.\<close>

lemma options_star_not_routed:
  assumes "scheme_of (scheme_version req) = ''RTSP''" and "req_method req = ''OPTIONS''" and "uri req = ''*''"
  shows "query_handler (register_all (routes_table E) []) req BAD_VALUE = (None, UNKNOWN_PATH)"
proof -
  have p: "path_of ''*'' = ''*''" by (simp add: path_of_def before_def)
  have "route_at (register_all (routes_table E) []) ''RTSP'' ''OPTIONS'' ''*'' = None"
    by (simp add: route_at_register_all last_route_def routes_table_def route_def)
  moreover have "has_scheme (register_all (routes_table E) []) ''RTSP''" "has_method (register_all (routes_table E) []) ''RTSP'' ''OPTIONS''"
    by (simp_all add: has_scheme_register_all has_method_register_all routes_table_def route_def)
  ultimately show ?thesis by (simp add: query_handler_flat assms p Let_def)
qed

text \<open>Every further set-up with a key lengthens the session key of a paired connection by sixteen bytes.\<close>

lemma session_key_grows:
  assumes "crypto_lib_ok L" and "crypto_ok c" and "pair_verifyed c"
  shows "length (next_aes_key L ekey c) = length (client_aes_key c) + 16"
  using assms(1,3) assms(2) by (simp add: next_aes_key_def crypto_ok_def Let_def)

end
