(* ===== verification/Spec2Isabelle.thy ===== *)
theory Spec2Isabelle
  imports Plist_Properties Http_Properties Connection_Properties Audio_Properties Video_Properties
    Timing_Sync Network_Services Airplay_Properties
begin

text \<open>header\<close>

end
